(* ===== verification/Race_Prelude.thy ===== *)
theory Race_Prelude
  imports Complex_Main "HOL-Library.Word" "HOL-Library.While_Combinator"
begin

text \<open>
  Shared material of the development: the fixed-width integer types of the C++ sources, time
  stamps (a C++ double that may be infinity), C++ exceptions as values, cyclic iteration over
  a container, the loops that search a container cyclically, and sums over an updated heap.
\<close>

section \<open>Types shared by the components\<close>

type_synonym u8 = "8 word"
type_synonym u32 = "32 word"
type_synonym u64 = "64 word"

text \<open>
  The exceptions of the C++ standard library the sources throw or let escape. A function of
  the sources that may throw is a HOL function into \<open>exn + 'a\<close>.
\<close>

datatype exn = OutOfRange | InvalidArgument | LogicError | RuntimeError | Undefined

subsection \<open>Time stamps\<close>

text \<open>
  Time stamps are seconds since the epoch in a C++ double, with
  \<open>std::numeric_limits<double>::infinity()\<close> for never. Rounding is not modelled: a finite
  time stamp is a real number.
\<close>

datatype timestamp = At real | Infinity

instantiation timestamp :: linorder
begin

fun less_eq_timestamp :: "timestamp \<Rightarrow> timestamp \<Rightarrow> bool" where
  "less_eq_timestamp _ Infinity = True"
| "less_eq_timestamp Infinity (At _) = False"
| "less_eq_timestamp (At x) (At y) = (x \<le> y)"

fun less_timestamp :: "timestamp \<Rightarrow> timestamp \<Rightarrow> bool" where
  "less_timestamp Infinity _ = False"
| "less_timestamp (At _) Infinity = True"
| "less_timestamp (At x) (At y) = (x < y)"

instance
proof
  fix x y z :: timestamp
  show "(x < y) = (x \<le> y \<and> \<not> y \<le> x)" by (cases x; cases y) auto
  show "x \<le> x" by (cases x) auto
  show "x \<le> y \<Longrightarrow> y \<le> z \<Longrightarrow> x \<le> z" by (cases x; cases y; cases z) auto
  show "x \<le> y \<Longrightarrow> y \<le> x \<Longrightarrow> x = y" by (cases x; cases y) auto
  show "x \<le> y \<or> y \<le> x" by (cases x; cases y) auto
qed

end

fun ts_add :: "timestamp \<Rightarrow> real \<Rightarrow> timestamp" where
  "ts_add (At x) d = At (x + d)"
| "ts_add Infinity _ = Infinity"

section \<open>Cyclic iteration\<close>

text \<open>
  \<open>next_cycle\<close> of racesdk/core/source/Handler.cpp: an iterator is the element it points at (the
  elements of the container are distinct), advancing past the end wraps to the beginning.
\<close>

fun succ_in :: "'a \<Rightarrow> 'a list \<Rightarrow> 'a option" where
  "succ_in x [] = None"
| "succ_in x (y # ys) =
     (if x = y then (case ys of [] \<Rightarrow> None | z # _ \<Rightarrow> Some z) else succ_in x ys)"

definition next_cycle :: "'a \<Rightarrow> 'a list \<Rightarrow> 'a" where
  "next_cycle x xs = (case succ_in x xs of Some y \<Rightarrow> y | None \<Rightarrow> hd xs)"

lemma succ_in_nth:
  "distinct xs \<Longrightarrow> i < length xs \<Longrightarrow>
     succ_in (xs ! i) xs = (if Suc i < length xs then Some (xs ! Suc i) else None)"
proof (induction xs arbitrary: i)
  case (Cons y ys)
  show ?case
  proof (cases i)
    case 0
    then show ?thesis by (cases ys) auto
  next
    case (Suc j)
    with Cons show ?thesis by auto
  qed
qed simp

lemma next_cycle_nth:
  assumes "distinct xs" "i < length xs"
  shows "next_cycle (xs ! i) xs = xs ! (Suc i mod length xs)"
proof (cases "Suc i < length xs")
  case True
  with assms show ?thesis by (simp add: next_cycle_def succ_in_nth)
next
  case False
  with assms(2) have "Suc i = length xs" "xs \<noteq> []" by auto
  with False assms show ?thesis by (simp add: next_cycle_def succ_in_nth hd_conv_nth)
qed

lemma next_cycle_in:
  assumes "distinct xs" "x \<in> set xs"
  shows "next_cycle x xs \<in> set xs"
proof -
  from assms(2) obtain i where i: "i < length xs" "x = xs ! i" by (auto simp: in_set_conv_nth)
  then have "Suc i mod length xs < length xs" by (intro mod_less_divisor) auto
  with i show ?thesis by (simp add: next_cycle_nth assms(1))
qed

lemma next_cycle_funpow:
  assumes "distinct xs" "i < length xs"
  shows "((\<lambda>x. next_cycle x xs) ^^ k) (xs ! i) = xs ! ((i + k) mod length xs)"
proof (induction k)
  case 0
  with assms(2) show ?case by simp
next
  case (Suc k)
  from assms(2) have "(i + k) mod length xs < length xs" by (intro mod_less_divisor) auto
  with Suc show ?case by (simp add: next_cycle_nth assms(1) mod_Suc_eq)
qed

text \<open>
  A loop that advances cyclically until \<open>P\<close> holds finds the first element satisfying \<open>P\<close> in the
  container rotated to start at the iterator. When there is one, the loop ends.
\<close>

lemma while_option_least:
  assumes "P ((c ^^ k) s)" "\<And>j. j < k \<Longrightarrow> \<not> P ((c ^^ j) s)"
  shows "while_option (\<lambda>x. \<not> P x) c s = Some ((c ^^ k) s)"
proof -
  have "(LEAST k. P ((c ^^ k) s)) = k"
    using assms by (intro Least_equality) (auto intro: leI)
  with assms(1) show ?thesis unfolding while_option_def by auto
qed

lemma cyclic_search_find:
  assumes dist: "distinct xs" and i: "i < length xs" and ex: "\<exists>x\<in>set xs. P x"
  shows "while_option (\<lambda>x. \<not> P x) (\<lambda>x. next_cycle x xs) (xs ! i) = find P (rotate i xs)"
proof -
  from ex obtain x where x: "find P (rotate i xs) = Some x"
    using find_None_iff2 [of P "rotate i xs"] by fastforce
  then obtain k where k: "k < length xs" "P (rotate i xs ! k)" "x = rotate i xs ! k"
    "\<And>j. j < k \<Longrightarrow> \<not> P (rotate i xs ! j)"
    by (auto simp: find_Some_iff)
  have rot: "((\<lambda>x. next_cycle x xs) ^^ j) (xs ! i) = rotate i xs ! j" if "j \<le> k" for j
    using that k(1) by (simp add: next_cycle_funpow dist i nth_rotate)
  have "while_option (\<lambda>x. \<not> P x) (\<lambda>x. next_cycle x xs) (xs ! i)
      = Some (((\<lambda>x. next_cycle x xs) ^^ k) (xs ! i))"
    using k by (intro while_option_least) (auto simp: rot)
  with k x show ?thesis by (simp add: rot)
qed

lemma find_append:
  "find P (xs @ ys) = (case find P xs of None \<Rightarrow> find P ys | Some x \<Rightarrow> Some x)"
  by (induction xs) auto

lemma cyclic_search_Some:
  assumes "distinct xs" "y \<in> set xs" "\<exists>x\<in>set xs. P x"
  shows "\<exists>x\<in>set xs. while_option (\<lambda>x. \<not> P x) (\<lambda>x. next_cycle x xs) y = Some x \<and> P x"
proof -
  from assms(2) obtain i where i: "i < length xs" "y = xs ! i" by (auto simp: in_set_conv_nth)
  have "find P (rotate i xs) \<noteq> None" using assms(3) by (auto simp: find_None_iff)
  then obtain x where "find P (rotate i xs) = Some x" by auto
  moreover from this obtain k where "k < length (rotate i xs)" "P x" "x = rotate i xs ! k"
    by (auto simp: find_Some_iff)
  then have "P x" "x \<in> set (rotate i xs)" by (auto simp del: set_rotate length_rotate)
  ultimately show ?thesis using i(2) cyclic_search_find [OF assms(1) i(1) assms(3)] by auto
qed

text \<open>A loop whose guard holds in every state it can reach never returns.\<close>

lemma while_option_spins:
  assumes "I s" "\<And>s. I s \<Longrightarrow> b s" "\<And>s. I s \<Longrightarrow> I (c s)"
  shows "while_option b c s = None"
proof (rule ccontr)
  assume "while_option b c s \<noteq> None"
  then obtain t where t: "while_option b c s = Some t" by auto
  have "I t" by (rule while_option_rule [OF _ t]) (use assms in auto)
  with assms(2) while_option_stop [OF t] show False by simp
qed

section \<open>Sums over an updated heap\<close>

lemma sum_heap_upd:
  fixes f :: "'b \<Rightarrow> 'c::ab_group_add" and A :: "'k set"
  assumes "finite A" "x \<in> A"
  shows "(\<Sum>y\<in>A. f (if y = x then v else h y)) = (\<Sum>y\<in>A. f (h y)) - f (h x) + f v"
proof -
  have "(\<Sum>y\<in>A - {x}. f (if y = x then v else h y)) = (\<Sum>y\<in>A - {x}. f (h y))"
    by (intro sum.cong) auto
  moreover have "(\<Sum>y\<in>A. g y) = g x + (\<Sum>y\<in>A - {x}. g y)" for g :: "'k \<Rightarrow> 'c"
    using assms by (rule sum.remove)
  ultimately show ?thesis by simp
qed

lemma sum_heap_upd_other:
  "x \<notin> A \<Longrightarrow> (\<Sum>y\<in>A. f (if y = x then v else h y)) = (\<Sum>y\<in>A. f (h y))"
  by (intro sum.cong) auto

section \<open>Invariants of transition systems\<close>

text \<open>
  The interface by which every stateful component states its safety: start states, a step
  relation, and an invariant both respect. Its lemma lifts the invariant to every run.
\<close>

locale invariant_system =
  fixes start :: "'s \<Rightarrow> bool" and step :: "'s \<Rightarrow> 's \<Rightarrow> bool" and inv :: "'s \<Rightarrow> bool"
  assumes start_inv: "start s \<Longrightarrow> inv s"
    and step_inv: "inv s \<Longrightarrow> step s t \<Longrightarrow> inv t"
begin

lemma run_keeps: "step\<^sup>*\<^sup>* s t \<Longrightarrow> inv s \<Longrightarrow> inv t"
  by (induction rule: rtranclp_induct) (auto intro: step_inv)

lemma reachable_inv: "start s \<Longrightarrow> step\<^sup>*\<^sup>* s t \<Longrightarrow> inv t"
  by (blast intro: run_keeps start_inv)

end

end
