(* ===== verification/Handler.thy ===== *)
theory Handler
  imports Race_Prelude
begin

text \<open>
  The work queue behind every plugin wrapper of the SDK: racesdk/core/source/Handler.h and
  Handler.cpp. A handler owns named queues grouped in priority levels; posts append work, the
  work thread serves the highest priority first and the queues of one priority in turn, a
  timeout thread moves expired work aside, and a queue whose front reports no progress is
  blocked until it is unblocked.

  Pointers and iterators are kept: \<open>std::shared_ptr<Work>\<close> is a work identity into the heap
  \<open>h_works\<close>, \<open>QueueIter\<close> a queue identity into \<open>h_queues\<close>, and the \<open>std::map\<close> of priority levels
  is its descending key list \<open>level_order\<close> with the mapped values \<open>h_levels\<close>. Fresh identities
  come from counters. Every definition is one critical section of the code (the stretch in which
  \<open>data_mutex\<close> is held), so interleavings of threads are sequences of these definitions; the
  condition variables only decide when a thread tries again.
\<close>

section \<open>State\<close>

datatype handler_state = INVALID | PRESTART | STARTED | STOPPING | STOPPED

datatype post_status = OK | INVALID_STATE | QUEUE_FULL | HANDLER_FULL

type_synonym work_id = nat
type_synonym queue_id = nat

text \<open>
  \<open>w_in_timeout\<close> says that \<open>timeoutIter\<close> is not \<open>timeoutQueue.end()\<close>, \<open>w_in_timed_out\<close> the same of
  \<open>timedOutIter\<close>. The callback itself is opaque: what it returns is an input of the work thread.
\<close>

record work =
  w_has_timeout_callback :: bool
  w_size :: u64
  w_timeout :: timestamp
  w_queue :: queue_id
  w_in_timeout :: bool
  w_in_timed_out :: bool
  w_running :: bool

record work_queue =
  q_queue :: "work_id list"
  q_priority :: int
  q_name :: string
  q_size :: u64
  q_marked :: bool
  q_blocked :: bool

record priority_level =
  work_queues :: "queue_id list"
  priority :: int
  unblocked_work_count :: u64
  marked_count :: u64

text \<open>Observable effects: finished callbacks with their result, and calls of timeout callbacks.\<close>

datatype handler_event = Ran work_id bool | TimeoutCallback work_id | TimeoutCallbackAtPost

text \<open>
  \<open>h_running\<close> is the program counter of the work thread: \<open>Some (p, w)\<close> while it runs the callback
  of \<open>w\<close> without the lock, holding a reference to the iterator of priority \<open>p\<close> in \<open>queueIters\<close>.
\<close>

record handler =
  max_queue_size :: u64
  max_total_size :: u64
  h_state :: handler_state
  level_order :: "int list"
  h_levels :: "int \<Rightarrow> priority_level"
  h_queues :: "queue_id \<Rightarrow> work_queue"
  h_works :: "work_id \<Rightarrow> work"
  next_qid :: nat
  next_wid :: nat
  queue_map :: "string \<Rightarrow> queue_id option"
  queueIters :: "int \<Rightarrow> queue_id option"
  current_priority :: int
  unblock_list :: "string list"
  timeoutQueue :: "work_id list"
  timedOutQueue :: "work_id list"
  total_work :: int
  total_marked :: int
  total_size :: u64
  unblocked_work :: u64
  h_running :: "(int \<times> work_id) option"
  h_log :: "handler_event list"

section \<open>Operations\<close>

subsection \<open>Creating and removing queues\<close>

definition new_work_queue :: "string \<Rightarrow> int \<Rightarrow> work_queue" where
  "new_work_queue name p =
     \<lparr>q_queue = [], q_priority = p, q_name = name, q_size = 0, q_marked = False, q_blocked = False\<rparr>"

definition new_priority_level :: "int \<Rightarrow> priority_level" where
  "new_priority_level p =
     \<lparr>work_queues = [], priority = p, unblocked_work_count = 0, marked_count = 0\<rparr>"

text \<open>\<open>std::map\<close> with \<open>std::greater<int>\<close> keeps its keys in descending order.\<close>

fun insert_level :: "int \<Rightarrow> int list \<Rightarrow> int list" where
  "insert_level p [] = [p]"
| "insert_level p (x # xs) = (if p > x then p # x # xs else x # insert_level p xs)"

definition emplace_level :: "int \<Rightarrow> handler \<Rightarrow> handler" where
  "emplace_level p s =
     (if p \<in> set (level_order s) then s
      else s\<lparr>level_order := insert_level p (level_order s),
             h_levels := (h_levels s)(p := new_priority_level p)\<rparr>)"

definition emplace_queue :: "string \<Rightarrow> int \<Rightarrow> handler \<Rightarrow> handler" where
  "emplace_queue name p s =
     (let q = next_qid s; l = h_levels s p
      in s\<lparr>h_queues := (h_queues s)(q := new_work_queue name p),
           h_levels := (h_levels s)(p := l\<lparr>work_queues := work_queues l @ [q]\<rparr>),
           queue_map := (queue_map s)(name \<mapsto> q),
           next_qid := Suc q\<rparr>)"

definition create_queue :: "handler \<Rightarrow> string \<Rightarrow> int \<Rightarrow> exn + handler" where
  "create_queue s name p =
     (if queue_map s name \<noteq> None then Inl InvalidArgument
      else Inr (emplace_queue name p (emplace_level p s)))"

text \<open>
  The update of \<open>current_priority\<close> shared by post, remove_queue and unblock_queue_internal: raise it
  to the queue's priority; a missing level is a logic error.
\<close>

definition raise_priority :: "int \<Rightarrow> handler \<Rightarrow> exn + handler" where
  "raise_priority p s =
     (if p > current_priority s then
        (if p \<in> set (level_order s) then Inr (s\<lparr>current_priority := p\<rparr>) else Inl LogicError)
      else Inr s)"

definition remove_queue :: "handler \<Rightarrow> string \<Rightarrow> exn + handler" where
  "remove_queue s name =
     (if name = '''' then Inl InvalidArgument
      else case queue_map s name of
        None \<Rightarrow> Inl OutOfRange
      | Some q \<Rightarrow>
          let wq = (h_queues s q)\<lparr>q_marked := True\<rparr>;
              s1 = s\<lparr>h_queues := (h_queues s)(q := wq)\<rparr>
          in if q_blocked wq then Inr s1
             else let p = q_priority wq; l = h_levels s p
                  in raise_priority p
                       (s1\<lparr>h_levels := (h_levels s)(p := l\<lparr>marked_count := marked_count l + 1\<rparr>),
                           total_marked := total_marked s + 1\<rparr>))"

definition unblock_queue :: "handler \<Rightarrow> string \<Rightarrow> handler" where
  "unblock_queue s name = s\<lparr>unblock_list := unblock_list s @ [name]\<rparr>"

definition get_num_queues :: "handler \<Rightarrow> nat" where
  "get_num_queues s = (\<Sum>p\<leftarrow>level_order s. length (work_queues (h_levels s p)))"

text \<open>\<open>clear\<close> leaves \<open>queueIters\<close> and \<open>unblock_list\<close> as they are, as the code does.\<close>

definition clear :: "handler \<Rightarrow> handler" where
  "clear s =
     emplace_queue '''' 0
       (emplace_level 0
          (s\<lparr>level_order := [], queue_map := Map.empty, timeoutQueue := [], timedOutQueue := [],
             unblocked_work := 0, total_work := 0, total_marked := 0, total_size := 0,
             current_priority := 0\<rparr>))"

definition new_handler :: "u64 \<Rightarrow> u64 \<Rightarrow> handler" where
  "new_handler mq mt =
     emplace_queue '''' 0 (emplace_level 0
       \<lparr>max_queue_size = mq, max_total_size = mt, h_state = PRESTART, level_order = [],
        h_levels = new_priority_level, h_queues = (\<lambda>_. new_work_queue '''' 0),
        h_works = (\<lambda>_. \<lparr>w_has_timeout_callback = False, w_size = 0, w_timeout = Infinity,
                        w_queue = 0, w_in_timeout = False, w_in_timed_out = False,
                        w_running = False\<rparr>),
        next_qid = 0, next_wid = 0, queue_map = Map.empty, queueIters = Map.empty,
        current_priority = 0, unblock_list = [], timeoutQueue = [], timedOutQueue = [],
        total_work = 0, total_marked = 0, total_size = 0, unblocked_work = 0,
        h_running = None, h_log = []\<rparr>)"

subsection \<open>Posting work\<close>

text \<open>
  The predicate \<open>cond\<close> of post, evaluated under the lock: an exception when the queue is missing or
  being removed, otherwise the status it leaves in \<open>wait_status\<close> (\<open>OK\<close> when the work fits).
\<close>

definition post_cond :: "handler \<Rightarrow> string \<Rightarrow> u64 \<Rightarrow> exn + (queue_id \<times> post_status)" where
  "post_cond s name sz =
     (case queue_map s name of
        None \<Rightarrow> Inl OutOfRange
      | Some q \<Rightarrow>
          if q_marked (h_queues s q) then Inl OutOfRange
          else if q_size (h_queues s q) + sz > max_queue_size s then Inr (q, QUEUE_FULL)
          else if total_size s + sz > max_total_size s then Inr (q, HANDLER_FULL)
          else Inr (q, OK))"

text \<open>\<open>std::multiset::insert\<close> puts an element after those that are not greater.\<close>

fun timeout_insert :: "(work_id \<Rightarrow> timestamp) \<Rightarrow> work_id \<Rightarrow> work_id list \<Rightarrow> work_id list" where
  "timeout_insert f w [] = [w]"
| "timeout_insert f w (x # xs) = (if f w < f x then w # x # xs else x # timeout_insert f w xs)"

definition post_insert :: "handler \<Rightarrow> queue_id \<Rightarrow> u64 \<Rightarrow> timestamp \<Rightarrow> bool \<Rightarrow> exn + handler" where
  "post_insert s q sz ts cb =
     (let w = next_wid s;
          wk = \<lparr>w_has_timeout_callback = cb, w_size = sz, w_timeout = ts, w_queue = q,
                w_in_timeout = True, w_in_timed_out = False, w_running = False\<rparr>;
          works' = (h_works s)(w := wk);
          wq = h_queues s q;
          p = q_priority wq;
          l = h_levels s p;
          s1 = s\<lparr>h_works := works', next_wid := Suc w,
                 h_queues := (h_queues s)(q := wq\<lparr>q_queue := q_queue wq @ [w],
                                                  q_size := q_size wq + sz\<rparr>),
                 timeoutQueue := timeout_insert (\<lambda>x. w_timeout (works' x)) w (timeoutQueue s),
                 total_size := total_size s + sz,
                 total_work := total_work s + 1\<rparr>;
          s2 = (if q_blocked wq then s1
                else s1\<lparr>h_levels := (h_levels s)(p := l\<lparr>unblocked_work_count :=
                                                         unblocked_work_count l + 1\<rparr>),
                        unblocked_work := unblocked_work s + 1\<rparr>)
      in raise_priority p s2)"

text \<open>
  The critical section of post. When the work does not fit, a blocking post waits and runs this
  section again later (\<open>WouldBlock\<close>), any other post gives up after its timeout with the status and
  the size of the queue.
\<close>

datatype post_result = Posted post_status u64 | WouldBlock

definition post_locked ::
  "handler \<Rightarrow> string \<Rightarrow> u64 \<Rightarrow> bool \<Rightarrow> timestamp \<Rightarrow> bool \<Rightarrow> exn + handler \<times> post_result" where
  "post_locked s name sz blocking ts cb =
     (case post_cond s name sz of
        Inl e \<Rightarrow> Inl e
      | Inr (q, st) \<Rightarrow>
          if st = OK then
            (case post_insert s q sz ts cb of
               Inl e \<Rightarrow> Inl e
             | Inr s' \<Rightarrow> Inr (s', Posted OK (q_size (h_queues s' q))))
          else if blocking then Inr (s, WouldBlock)
          else Inr (s, Posted st (q_size (h_queues s q))))"

definition post ::
  "handler \<Rightarrow> string \<Rightarrow> u64 \<Rightarrow> bool \<Rightarrow> timestamp \<Rightarrow> timestamp \<Rightarrow> bool
     \<Rightarrow> exn + handler \<times> post_result" where
  "post s name sz blocking now ts cb =
     (if ts < now \<and> cb then Inr (s\<lparr>h_log := h_log s @ [TimeoutCallbackAtPost]\<rparr>, Posted OK 0)
      else if sz > max_queue_size s then Inr (s, Posted QUEUE_FULL 0)
      else if sz > max_total_size s then Inr (s, Posted HANDLER_FULL 0)
      else if h_state s = PRESTART \<or> h_state s = STARTED then post_locked s name sz blocking ts cb
      else Inr (s, Posted INVALID_STATE 0))"

subsection \<open>The timeout thread\<close>

fun move_timed_out :: "timestamp \<Rightarrow> work_id list \<Rightarrow> handler \<Rightarrow> handler" where
  "move_timed_out now [] s = s"
| "move_timed_out now (w # ws) s =
     (let wk = h_works s w
      in if w_timeout wk > now then s
         else move_timed_out now ws
                (s\<lparr>h_log := (if \<not> w_running wk \<and> w_has_timeout_callback wk
                            then h_log s @ [TimeoutCallback w] else h_log s),
                   h_works := (h_works s)(w := wk\<lparr>w_in_timeout := False, w_in_timed_out := True\<rparr>),
                   timedOutQueue := timedOutQueue s @ [w],
                   timeoutQueue := ws\<rparr>))"

text \<open>One wake-up of the timeout thread; \<open>False\<close> says that the thread leaves its loop.\<close>

definition timeout_thread_step :: "timestamp \<Rightarrow> handler \<Rightarrow> handler \<times> bool" where
  "timeout_thread_step now s =
     (if h_state s \<noteq> STARTED then (s, False)
      else (move_timed_out now (timeoutQueue s) s, True))"

subsection \<open>The work thread\<close>

definition unblock_queue_internal :: "string \<Rightarrow> handler \<Rightarrow> exn + handler" where
  "unblock_queue_internal name s =
     (case queue_map s name of
        None \<Rightarrow> Inr s
      | Some q \<Rightarrow>
          let wq = h_queues s q
          in if q_blocked wq then
               let p = q_priority wq; l = h_levels s p; n = of_nat (length (q_queue wq)) :: u64;
                   l1 = l\<lparr>unblocked_work_count := unblocked_work_count l + n\<rparr>;
                   l2 = (if q_marked wq then l1\<lparr>marked_count := marked_count l1 + 1\<rparr> else l1)
               in raise_priority p
                    (s\<lparr>h_queues := (h_queues s)(q := wq\<lparr>q_blocked := False\<rparr>),
                       h_levels := (h_levels s)(p := l2),
                       unblocked_work := unblocked_work s + n,
                       total_marked := total_marked s + (if q_marked wq then 1 else 0)\<rparr>)
             else Inr s)"

fun unblock_all :: "string list \<Rightarrow> handler \<Rightarrow> exn + handler" where
  "unblock_all [] s = Inr s"
| "unblock_all (n # ns) s =
     (case unblock_queue_internal n s of Inl e \<Rightarrow> Inl e | Inr s' \<Rightarrow> unblock_all ns s')"

definition unblock_queues_internal :: "handler \<Rightarrow> exn + handler" where
  "unblock_queues_internal s =
     (case unblock_all (unblock_list s) s of
        Inl e \<Rightarrow> Inl e
      | Inr s' \<Rightarrow> Inr (s'\<lparr>unblock_list := []\<rparr>))"

text \<open>
  The two search loops of get_next_queue_with_work. Each is a \<open>while\<close> of the code with no bound of
  its own: \<open>None\<close> says that it never leaves the loop.
\<close>

definition level_idle :: "handler \<Rightarrow> int \<Rightarrow> bool" where
  "level_idle s p \<longleftrightarrow> unblocked_work_count (h_levels s p) = 0 \<and> marked_count (h_levels s p) = 0"

definition queue_eligible :: "work_queue \<Rightarrow> bool" where
  "queue_eligible wq \<longleftrightarrow> \<not> (q_blocked wq \<or> \<not> (q_marked wq \<or> q_queue wq \<noteq> []))"

definition find_level :: "handler \<Rightarrow> int option" where
  "find_level s =
     while_option (\<lambda>p. level_idle s p) (\<lambda>p. next_cycle p (level_order s)) (current_priority s)"

definition find_queue :: "handler \<Rightarrow> int \<Rightarrow> queue_id option" where
  "find_queue s p =
     (let wqs = work_queues (h_levels s p);
          start = (case queueIters s p of Some q \<Rightarrow> q | None \<Rightarrow> hd wqs)
      in while_option (\<lambda>q. \<not> queue_eligible (h_queues s q)) (\<lambda>q. next_cycle q wqs) start)"

definition get_next_queue_with_work :: "handler \<Rightarrow> (handler \<times> queue_id) option" where
  "get_next_queue_with_work s =
     (case find_level s of
        None \<Rightarrow> None
      | Some p \<Rightarrow>
          (case find_queue s p of
             None \<Rightarrow> None
           | Some q \<Rightarrow> Some (s\<lparr>current_priority := p, queueIters := (queueIters s)(p \<mapsto> q)\<rparr>, q)))"

text \<open>
  The counters both removals of work update: pop_queue_internal for the front of the queue,
  remove_work_internal for any work of it.
\<close>

definition uncount_work :: "work_id \<Rightarrow> queue_id \<Rightarrow> work_id list \<Rightarrow> handler \<Rightarrow> handler" where
  "uncount_work w q rest s =
     (let wk = h_works s w; wq = h_queues s q; p = q_priority wq; l = h_levels s p
      in s\<lparr>h_queues := (h_queues s)(q := wq\<lparr>q_queue := rest, q_size := q_size wq - w_size wk\<rparr>),
           h_levels := (h_levels s)(p := l\<lparr>unblocked_work_count := unblocked_work_count l - 1\<rparr>),
           timeoutQueue := (if w_in_timeout wk then remove1 w (timeoutQueue s) else timeoutQueue s),
           timedOutQueue :=
             (if w_in_timed_out wk then remove1 w (timedOutQueue s) else timedOutQueue s),
           total_size := total_size s - w_size wk,
           total_work := total_work s - 1,
           unblocked_work := unblocked_work s - 1\<rparr>)"

definition pop_queue_internal :: "queue_id \<Rightarrow> handler \<Rightarrow> handler" where
  "pop_queue_internal q s =
     uncount_work (hd (q_queue (h_queues s q))) q (tl (q_queue (h_queues s q))) s"

definition remove_work_internal :: "work_id \<Rightarrow> handler \<Rightarrow> handler" where
  "remove_work_internal w s =
     (let q = w_queue (h_works s w)
      in uncount_work w q (remove1 w (q_queue (h_queues s q))) s)"

definition block_queue_internal :: "queue_id \<Rightarrow> handler \<Rightarrow> handler" where
  "block_queue_internal q s =
     (let wq = h_queues s q; p = q_priority wq; l = h_levels s p;
          n = of_nat (length (q_queue wq)) :: u64;
          l1 = l\<lparr>unblocked_work_count := unblocked_work_count l - n\<rparr>;
          l2 = (if q_marked wq then l1\<lparr>marked_count := marked_count l1 - 1\<rparr> else l1)
      in s\<lparr>h_queues := (h_queues s)(q := wq\<lparr>q_blocked := True\<rparr>),
           h_levels := (h_levels s)(p := l2),
           unblocked_work := unblocked_work s - n,
           total_marked := total_marked s - (if q_marked wq then 1 else 0)\<rparr>)"

text \<open>The queue to remove is the one the iterator of the current priority points at.\<close>

definition remove_queue_internal :: "queue_id \<Rightarrow> handler \<Rightarrow> handler" where
  "remove_queue_internal q s =
     (let p = current_priority s; l = h_levels s p; wqs = work_queues l; rest = remove1 q wqs;
          s1 = s\<lparr>queue_map := (queue_map s)(q_name (h_queues s q) := None),
                 h_levels := (h_levels s)(p := l\<lparr>work_queues := rest,
                                                 marked_count := marked_count l - 1\<rparr>),
                 queueIters := (queueIters s)(p \<mapsto> next_cycle q wqs),
                 total_marked := total_marked s - 1\<rparr>
      in if rest = [] then
           s1\<lparr>queueIters := (queueIters s1)(p := None),
              level_order := remove1 p (level_order s),
              current_priority := next_cycle p (level_order s)\<rparr>
         else s1)"

text \<open>
  One iteration of runWorkThread up to the callback. \<open>Run\<close> is the release of the lock around the
  callback; \<open>Spin\<close> a search loop that never ends (with the lock held).
\<close>

datatype work_step = Wait | Throw exn | Next handler | Exit | Run handler | Spin

definition work_thread_ready :: "handler \<Rightarrow> bool" where
  "work_thread_ready s \<longleftrightarrow>
     unblock_list s \<noteq> [] \<or> h_state s \<noteq> STARTED \<or> total_marked s > 0 \<or> unblocked_work s > 0
       \<or> timedOutQueue s \<noteq> []"

definition serve_queue :: "handler \<Rightarrow> work_step" where
  "serve_queue s =
     (case get_next_queue_with_work s of
        None \<Rightarrow> Spin
      | Some (s1, q) \<Rightarrow>
          (case q_queue (h_queues s1 q) of
             w # _ \<Rightarrow> Run (s1\<lparr>h_works := (h_works s1)(w := (h_works s1 w)\<lparr>w_running := True\<rparr>),
                             h_running := Some (current_priority s1, w)\<rparr>)
           | [] \<Rightarrow> if q_marked (h_queues s1 q) then Next (remove_queue_internal q s1)
                   else Next s1))"

definition work_thread_begin :: "handler \<Rightarrow> work_step" where
  "work_thread_begin s =
     (if \<not> work_thread_ready s then Wait
      else if unblock_list s \<noteq> [] then
        (case unblock_queues_internal s of Inl e \<Rightarrow> Throw e | Inr s' \<Rightarrow> Next s')
      else if h_state s = STOPPED \<or> (h_state s = STOPPING \<and> unblocked_work s = 0) then Exit
      else if timedOutQueue s \<noteq> [] then Next (fold remove_work_internal (timedOutQueue s) s)
      else serve_queue s)"

text \<open>The rest of the iteration, when the callback has returned \<open>success\<close> and the lock is back.\<close>

definition work_thread_end :: "bool \<Rightarrow> handler \<Rightarrow> handler" where
  "work_thread_end success s =
     (case h_running s of
        None \<Rightarrow> s
      | Some (p, w) \<Rightarrow>
          (case queueIters s p of
             None \<Rightarrow> s
           | Some q \<Rightarrow>
               let s1 = (if success then pop_queue_internal q s else block_queue_internal q s);
                   wqs = work_queues (h_levels s1 (q_priority (h_queues s1 q)))
               in s1\<lparr>queueIters := (queueIters s1)(p \<mapsto> next_cycle q wqs),
                     h_running := None,
                     h_log := h_log s1 @ [Ran w success]\<rparr>))"

subsection \<open>Starting and stopping\<close>

definition start :: "handler \<Rightarrow> exn + handler" where
  "start s = (if h_state s \<noteq> PRESTART then Inl LogicError else Inr (s\<lparr>h_state := STARTED\<rparr>))"

text \<open>
  stop and stop_immediate each have a critical section before and one after the threads are
  joined; the second gets the state the first one saw.
\<close>

definition stop_begin :: "handler \<Rightarrow> handler \<times> handler_state" where
  "stop_begin s =
     (if h_state s = STARTED \<or> h_state s = PRESTART then (s\<lparr>h_state := STOPPING\<rparr>, h_state s)
      else (s, h_state s))"

definition stop_end :: "handler_state \<Rightarrow> handler \<Rightarrow> handler" where
  "stop_end prev s =
     clear (if prev = STARTED \<or> prev = PRESTART then s\<lparr>h_state := STOPPED\<rparr> else s)"

definition stop_immediate_begin :: "handler \<Rightarrow> handler \<times> handler_state" where
  "stop_immediate_begin s = (s\<lparr>h_state := STOPPED\<rparr>, h_state s)"

definition stop_immediate_end :: "handler \<Rightarrow> handler" where
  "stop_immediate_end s = clear s"

end
