(* ===== verification/Handler_Inv.thy ===== *)
theory Handler_Inv
  imports Handler
begin

text \<open>
  The well-formedness invariant of the handler and its preservation by every critical section of
  Handler.thy: the counters the work thread bases its decisions on equal the contents of the
  queues, the iterators point into live queues, and no queue above \<open>current_priority\<close> has work.
\<close>

section \<open>The invariant\<close>

definition live_queues :: "handler \<Rightarrow> queue_id set" where
  "live_queues s = (\<Union>p\<in>set (level_order s). set (work_queues (h_levels s p)))"

text \<open>What one queue contributes to the counts of unblocked work and of marked queues.\<close>

definition unblocked_of :: "work_queue \<Rightarrow> u64" where
  "unblocked_of wq = (if q_blocked wq then 0 else of_nat (length (q_queue wq)))"

definition marked_of :: "work_queue \<Rightarrow> 'a::ring_1" where
  "marked_of wq = (if q_marked wq \<and> \<not> q_blocked wq then 1 else 0)"

definition wf_levels :: "handler \<Rightarrow> bool" where
  "wf_levels s \<longleftrightarrow>
     sorted_wrt (>) (level_order s) \<and> current_priority s \<in> set (level_order s) \<and>
     (\<forall>p\<in>set (level_order s).
        distinct (work_queues (h_levels s p)) \<and> work_queues (h_levels s p) \<noteq> [] \<and>
        (\<forall>q\<in>set (work_queues (h_levels s p)). q_priority (h_queues s q) = p \<and> q < next_qid s))"

definition wf_names :: "handler \<Rightarrow> bool" where
  "wf_names s \<longleftrightarrow>
     (\<forall>n q. queue_map s n = Some q \<longleftrightarrow> q \<in> live_queues s \<and> q_name (h_queues s q) = n)"

definition wf_default :: "handler \<Rightarrow> bool" where
  "wf_default s \<longleftrightarrow> (\<exists>q. queue_map s '''' = Some q \<and> \<not> q_marked (h_queues s q))"

definition wf_iters :: "handler \<Rightarrow> bool" where
  "wf_iters s \<longleftrightarrow>
     (\<forall>p q. queueIters s p = Some q \<longrightarrow>
        p \<in> set (level_order s) \<and> q \<in> set (work_queues (h_levels s p)))"

definition wf_counts :: "handler \<Rightarrow> bool" where
  "wf_counts s \<longleftrightarrow>
     (\<forall>p\<in>set (level_order s).
        unblocked_work_count (h_levels s p)
          = (\<Sum>q\<in>set (work_queues (h_levels s p)). unblocked_of (h_queues s q)) \<and>
        marked_count (h_levels s p)
          = (\<Sum>q\<in>set (work_queues (h_levels s p)). marked_of (h_queues s q))) \<and>
     unblocked_work s = (\<Sum>q\<in>live_queues s. unblocked_of (h_queues s q)) \<and>
     total_marked s = (\<Sum>q\<in>live_queues s. marked_of (h_queues s q))"

definition wf_priority :: "handler \<Rightarrow> bool" where
  "wf_priority s \<longleftrightarrow>
     (\<forall>q\<in>live_queues s. q_priority (h_queues s q) > current_priority s
        \<longrightarrow> \<not> queue_eligible (h_queues s q))"

text \<open>The work in the queues, its sizes, and the two timeout lists.\<close>

definition wf_sizes :: "handler \<Rightarrow> bool" where
  "wf_sizes s \<longleftrightarrow>
     (\<forall>q\<in>live_queues s.
        q_size (h_queues s q) = (\<Sum>w\<in>set (q_queue (h_queues s q)). w_size (h_works s w))) \<and>
     total_size s = (\<Sum>q\<in>live_queues s. q_size (h_queues s q)) \<and>
     total_work s = (\<Sum>q\<in>live_queues s. int (length (q_queue (h_queues s q))))"

definition queued :: "handler \<Rightarrow> work_id \<Rightarrow> bool" where
  "queued s w \<longleftrightarrow> (\<exists>q\<in>live_queues s. w \<in> set (q_queue (h_queues s q)))"

definition wf_works :: "handler \<Rightarrow> bool" where
  "wf_works s \<longleftrightarrow>
     (\<forall>q\<in>live_queues s. sorted_wrt (<) (q_queue (h_queues s q)) \<and>
        (\<forall>w\<in>set (q_queue (h_queues s q)). w < next_wid s \<and> w_queue (h_works s w) = q)) \<and>
     distinct (timeoutQueue s) \<and> distinct (timedOutQueue s) \<and>
     (\<forall>w. w \<in> set (timeoutQueue s) \<longleftrightarrow> queued s w \<and> w_in_timeout (h_works s w)) \<and>
     (\<forall>w. w \<in> set (timedOutQueue s) \<longleftrightarrow> queued s w \<and> w_in_timed_out (h_works s w)) \<and>
     (\<forall>w. queued s w \<longrightarrow> w_in_timeout (h_works s w) \<noteq> w_in_timed_out (h_works s w)) \<and>
     sorted (map (\<lambda>w. w_timeout (h_works s w)) (timeoutQueue s))"

definition wf_running :: "handler \<Rightarrow> bool" where
  "wf_running s \<longleftrightarrow>
     (\<forall>p w. h_running s = Some (p, w) \<longrightarrow>
        (\<exists>q ws. queueIters s p = Some q \<and> q_queue (h_queues s q) = w # ws
                \<and> \<not> q_blocked (h_queues s q)))"

text \<open>\<open>handler_core\<close> holds even while the work thread finishes an iteration.\<close>

definition handler_core :: "handler \<Rightarrow> bool" where
  "handler_core s \<longleftrightarrow> wf_levels s \<and> wf_names s \<and> wf_default s \<and> wf_iters s \<and> wf_counts s
     \<and> wf_priority s \<and> wf_sizes s \<and> wf_works s"

definition handler_ok :: "handler \<Rightarrow> bool" where
  "handler_ok s \<longleftrightarrow> handler_core s \<and> wf_running s"

lemma handler_coreD:
  assumes "handler_core s"
  shows "wf_levels s" "wf_names s" "wf_default s" "wf_iters s" "wf_counts s" "wf_priority s"
    "wf_sizes s" "wf_works s"
  using assms by (simp_all add: handler_core_def)

section \<open>Updates that keep the shape\<close>

text \<open>
  Posting, marking, blocking, unblocking and removing work change neither which queues exist nor
  where they are: one queue and its level get new contents.
\<close>

definition same_shape :: "handler \<Rightarrow> handler \<Rightarrow> bool" where
  "same_shape s s' \<longleftrightarrow>
     level_order s' = level_order s \<and> queue_map s' = queue_map s \<and> next_qid s' = next_qid s \<and>
     (\<forall>p. work_queues (h_levels s' p) = work_queues (h_levels s p)) \<and>
     (\<forall>q. q_priority (h_queues s' q) = q_priority (h_queues s q)
          \<and> q_name (h_queues s' q) = q_name (h_queues s q))"

lemma same_shape_live: "same_shape s s' \<Longrightarrow> live_queues s' = live_queues s"
  by (simp add: same_shape_def live_queues_def)

lemma same_shape_trans: "same_shape s t \<Longrightarrow> same_shape t u \<Longrightarrow> same_shape s u"
  by (simp add: same_shape_def)

lemma same_shape_levels:
  "same_shape s s' \<Longrightarrow> wf_levels s \<Longrightarrow> current_priority s' \<in> set (level_order s) \<Longrightarrow> wf_levels s'"
  by (simp add: same_shape_def wf_levels_def)

lemma same_shape_names: "same_shape s s' \<Longrightarrow> wf_names s \<Longrightarrow> wf_names s'"
  by (simp add: same_shape_live wf_names_def) (simp add: same_shape_def)

lemma same_shape_iters:
  "same_shape s s' \<Longrightarrow> wf_iters s \<Longrightarrow> queueIters s' = queueIters s \<Longrightarrow> wf_iters s'"
  by (simp add: same_shape_def wf_iters_def)

lemmas sum_length_upd = sum_heap_upd [where f = "\<lambda>wq. int (length (q_queue wq))"]

lemma finite_live [simp]: "finite (live_queues s)"
  by (simp add: live_queues_def)

lemma live_priority:
  "wf_levels s \<Longrightarrow> q \<in> live_queues s \<Longrightarrow>
     q_priority (h_queues s q) \<in> set (level_order s)
     \<and> q \<in> set (work_queues (h_levels s (q_priority (h_queues s q))))"
  by (auto simp: live_queues_def wf_levels_def)

lemma live_lt: "wf_levels s \<Longrightarrow> q \<in> live_queues s \<Longrightarrow> q < next_qid s"
  by (auto simp: live_queues_def wf_levels_def)

lemma wf_levels_current: "wf_levels s \<Longrightarrow> current_priority s \<in> set (level_order s)"
  by (simp add: wf_levels_def)

lemma mapped_live:
  "wf_names s \<Longrightarrow> queue_map s n = Some q \<Longrightarrow> q \<in> live_queues s \<and> q_name (h_queues s q) = n"
  by (simp add: wf_names_def)

text \<open>
  The counting lemma all these updates share: the level and the totals change by what the queue's
  contribution changes by.
\<close>

lemma wf_counts_upd:
  assumes lv: "wf_levels s" and ct: "wf_counts s" and q: "q \<in> live_queues s"
    and sh: "same_shape s s'"
    and qs: "h_queues s' = (h_queues s)(q := wq')"
    and p: "p = q_priority (h_queues s q)"
    and ls: "\<And>p'. p' \<noteq> p \<Longrightarrow> h_levels s' p' = h_levels s p'"
    and uc: "unblocked_work_count (h_levels s' p) = unblocked_work_count (h_levels s p)
               - unblocked_of (h_queues s q) + unblocked_of wq'"
    and mc: "marked_count (h_levels s' p) = marked_count (h_levels s p)
               - marked_of (h_queues s q) + marked_of wq'"
    and uw: "unblocked_work s' = unblocked_work s - unblocked_of (h_queues s q) + unblocked_of wq'"
    and tm: "total_marked s' = total_marked s - marked_of (h_queues s q) + marked_of wq'"
  shows "wf_counts s'"
proof -
  have qp: "p \<in> set (level_order s)" "q \<in> set (work_queues (h_levels s p))"
    using live_priority [OF lv q] p by auto
  have other: "q \<notin> set (work_queues (h_levels s p'))"
    if "p' \<in> set (level_order s)" "p' \<noteq> p" for p'
    using that lv p by (auto simp: wf_levels_def)
  have wqs: "work_queues (h_levels s' p') = work_queues (h_levels s p')"
    "level_order s' = level_order s" for p'
    using sh by (auto simp: same_shape_def)
  have "unblocked_work_count (h_levels s' p')
          = (\<Sum>q\<in>set (work_queues (h_levels s' p')). unblocked_of (h_queues s' q)) \<and>
        marked_count (h_levels s' p')
          = (\<Sum>q\<in>set (work_queues (h_levels s' p')). marked_of (h_queues s' q))"
    if "p' \<in> set (level_order s)" for p'
  proof (cases "p' = p")
    case True
    with ct that qp uc mc wqs show ?thesis
      by (simp add: wf_counts_def qs sum_heap_upd)
  next
    case False
    with ct that wqs ls other show ?thesis
      by (simp add: wf_counts_def qs sum_heap_upd_other)
  qed
  with ct q uw tm same_shape_live [OF sh] wqs show ?thesis
    unfolding wf_counts_def by (simp add: qs sum_heap_upd)
qed

text \<open>Raising the priority keeps everything but \<open>current_priority\<close>.\<close>

lemma raise_priority_Inr:
  "p \<in> set (level_order s) \<Longrightarrow>
     raise_priority p s = Inr (s\<lparr>current_priority := max p (current_priority s)\<rparr>)"
  by (auto simp: raise_priority_def max_def)

lemma raise_priority_frame:
  assumes "raise_priority p s = Inr s'"
  shows "s' = s\<lparr>current_priority := max p (current_priority s)\<rparr>"
  using assms by (auto simp: raise_priority_def max_def split: if_splits)

section \<open>Posting\<close>

lemma set_timeout_insert [simp]: "set (timeout_insert f w xs) = insert w (set xs)"
  by (induction xs) auto

lemma distinct_timeout_insert: "w \<notin> set xs \<Longrightarrow> distinct xs \<Longrightarrow> distinct (timeout_insert f w xs)"
  by (induction xs) auto

lemma sorted_timeout_insert:
  "sorted (map f xs) \<Longrightarrow> sorted (map f (timeout_insert f w xs))"
  by (induction xs) (auto simp: less_imp_le dest: leI)

lemma post_cond_OK:
  assumes "post_cond s name sz = Inr (q, st)" "wf_names s"
  shows "q \<in> live_queues s \<and> queue_map s name = Some q \<and> \<not> q_marked (h_queues s q)"
  using assms by (auto simp: post_cond_def mapped_live split: option.splits if_splits)

lemma post_insert_total:
  assumes "wf_levels s" "q \<in> live_queues s"
  shows "\<exists>s'. post_insert s q sz ts cb = Inr s'"
  using live_priority [OF assms] by (simp add: post_insert_def Let_def raise_priority_Inr)

lemma post_insert_shape:
  "post_insert s q sz ts cb = Inr s' \<Longrightarrow> same_shape s s'"
  by (auto simp: post_insert_def Let_def same_shape_def dest!: raise_priority_frame)

lemma post_insert_fields:
  assumes "post_insert s q sz ts cb = Inr s'"
  shows "current_priority s' = max (q_priority (h_queues s q)) (current_priority s)"
    and "queueIters s' = queueIters s" and "h_running s' = h_running s"
    and "next_wid s' = Suc (next_wid s)"
    and "h_queues s' = (h_queues s)(q := (h_queues s q)
           \<lparr>q_queue := q_queue (h_queues s q) @ [next_wid s],
            q_size := q_size (h_queues s q) + sz\<rparr>)"
    and "h_works s' = (h_works s)(next_wid s :=
           \<lparr>w_has_timeout_callback = cb, w_size = sz, w_timeout = ts, w_queue = q,
            w_in_timeout = True, w_in_timed_out = False, w_running = False\<rparr>)"
    and "timeoutQueue s' =
           timeout_insert (\<lambda>x. w_timeout (h_works s' x)) (next_wid s) (timeoutQueue s)"
    and "timedOutQueue s' = timedOutQueue s"
    and "total_size s' = total_size s + sz" and "total_work s' = total_work s + 1"
    and "total_marked s' = total_marked s" and "unblock_list s' = unblock_list s"
    and "h_state s' = h_state s" and "h_log s' = h_log s"
    and "max_queue_size s' = max_queue_size s" and "max_total_size s' = max_total_size s"
    and "h_levels s' = (if q_blocked (h_queues s q) then h_levels s
           else (h_levels s)(q_priority (h_queues s q) := (h_levels s (q_priority (h_queues s q)))
             \<lparr>unblocked_work_count :=
               unblocked_work_count (h_levels s (q_priority (h_queues s q))) + 1\<rparr>))"
    and "unblocked_work s' = (if q_blocked (h_queues s q) then unblocked_work s
           else unblocked_work s + 1)"
  using raise_priority_frame [OF assms [unfolded post_insert_def Let_def]] by auto

lemma post_insert_counts:
  assumes "wf_levels s" "wf_counts s" "q \<in> live_queues s" and ins: "post_insert s q sz ts cb = Inr s'"
  shows "wf_counts s'"
  by (rule wf_counts_upd [OF assms(1-3) post_insert_shape [OF ins] post_insert_fields(5) [OF ins] refl])
    (simp_all (no_asm_simp) add: post_insert_fields [OF ins] unblocked_of_def marked_of_def)

lemma post_insert_core:
  assumes ok: "handler_core s" and q: "q \<in> live_queues s" and ins: "post_insert s q sz ts cb = Inr s'"
  shows "handler_core s'"
proof -
  note sh = post_insert_shape [OF ins] and fs = post_insert_fields [OF ins]
  note live = same_shape_live [OF sh]
  note wl = handler_coreD(1) [OF ok] and wn = handler_coreD(2) [OF ok]
    and wd = handler_coreD(3) [OF ok] and wi = handler_coreD(4) [OF ok] and wc = handler_coreD(5) [OF ok]
    and wp = handler_coreD(6) [OF ok] and wz = handler_coreD(7) [OF ok] and ww = handler_coreD(8) [OF ok]
  have new: "w < next_wid s" if "queued s w" for w
    using that ww by (auto simp: wf_works_def queued_def)
  have qd: "queued s' w \<longleftrightarrow> queued s w \<or> w = next_wid s" for w
    using q by (auto simp: queued_def live fs)
  have "wf_levels s'" using same_shape_levels [OF sh wl] wf_levels_current [OF wl] live_priority [OF wl q]
    by (simp add: fs max_def)
  moreover have "wf_names s'" using same_shape_names [OF sh wn] .
  moreover have "wf_default s'" using wd sh by (auto simp: wf_default_def same_shape_def fs)
  moreover have "wf_iters s'" using same_shape_iters [OF sh wi] by (simp add: fs)
  moreover have "wf_counts s'" using post_insert_counts [OF wl wc q ins] .
  moreover have "wf_priority s'" using wp by (auto simp: wf_priority_def live fs)
  moreover have "wf_sizes s'"
  proof -
    have sums: "(\<Sum>w\<in>set (q_queue (h_queues s q')). w_size (h_works s' w))
        = (\<Sum>w\<in>set (q_queue (h_queues s q')). w_size (h_works s w))" if "q' \<in> live_queues s" for q'
      using new that by (intro sum.cong) (fastforce simp: queued_def fs)+
    have "next_wid s \<notin> set (q_queue (h_queues s q))" using new q by (fastforce simp: queued_def)
    moreover have "next_wid s \<noteq> w" if "w \<in> set (q_queue (h_queues s q'))" "q' \<in> live_queues s" for w q'
      using new that by (fastforce simp: queued_def)
    ultimately show ?thesis using wz q sums
      by (auto simp: wf_sizes_def live fs sum_heap_upd sum_length_upd)
  qed
  moreover have "wf_works s'"
  proof -
    have out: "next_wid s \<notin> set (timeoutQueue s)" "next_wid s \<notin> set (timedOutQueue s)"
      using ww new by (auto simp: wf_works_def)
    have srt: "sorted (map (\<lambda>w. w_timeout (h_works s' w)) (timeoutQueue s))"
    proof -
      have eq: "map (\<lambda>w. w_timeout (h_works s' w)) (timeoutQueue s)
          = map (\<lambda>w. w_timeout (h_works s w)) (timeoutQueue s)"
        using out by (auto simp: fs)
      from ww have "sorted (map (\<lambda>w. w_timeout (h_works s w)) (timeoutQueue s))"
        by (simp add: wf_works_def)
      then show ?thesis by (simp only: eq)
    qed
    have "sorted (map (\<lambda>w. w_timeout (h_works s' w)) (timeoutQueue s'))"
      using sorted_timeout_insert [OF srt] by (simp add: fs)
    moreover have "distinct (timeoutQueue s')"
      using distinct_timeout_insert out ww by (simp add: fs wf_works_def)
    moreover have "sorted_wrt (<) (q_queue (h_queues s' q')) \<and>
        (\<forall>w\<in>set (q_queue (h_queues s' q')). w < next_wid s' \<and> w_queue (h_works s' w) = q')"
      if "q' \<in> live_queues s" for q'
    proof -
      from ww that have "sorted_wrt (<) (q_queue (h_queues s q'))"
        "\<forall>w\<in>set (q_queue (h_queues s q')). w < next_wid s \<and> w_queue (h_works s w) = q'"
        by (simp_all add: wf_works_def)
      then show ?thesis by (cases "q' = q") (auto simp: fs sorted_wrt_append)
    qed
    moreover have "w_in_timeout (h_works s' w) \<noteq> w_in_timed_out (h_works s' w)"
      if "queued s' w" for w
      using that ww by (auto simp: wf_works_def qd fs)
    moreover have "w \<in> set (timeoutQueue s') \<longleftrightarrow> queued s' w \<and> w_in_timeout (h_works s' w)"
      "w \<in> set (timedOutQueue s') \<longleftrightarrow> queued s' w \<and> w_in_timed_out (h_works s' w)" for w
      using ww out new by (auto simp: wf_works_def qd fs)
    moreover have "distinct (timedOutQueue s')" using ww by (simp add: wf_works_def fs)
    ultimately show ?thesis unfolding wf_works_def live by blast
  qed
  ultimately show ?thesis by (simp add: handler_core_def)
qed

lemma post_insert_ok:
  assumes "handler_ok s" "q \<in> live_queues s" "post_insert s q sz ts cb = Inr s'"
  shows "handler_ok s'"
  using assms(1) post_insert_core [OF _ assms(2,3)]
  by (fastforce simp: handler_ok_def wf_running_def post_insert_fields [OF assms(3)])

section \<open>Marking, blocking and unblocking\<close>

text \<open>Only the flags of one queue change; the counts and the priority are the caller's business.\<close>

lemma flags_upd_core:
  assumes ok: "handler_core s" and q: "q \<in> live_queues s" and sh: "same_shape s s'"
    and qs: "h_queues s' = (h_queues s)(q := wq')"
    and same: "q_queue wq' = q_queue (h_queues s q)" "q_size wq' = q_size (h_queues s q)"
      "h_works s' = h_works s" "next_wid s' = next_wid s" "timeoutQueue s' = timeoutQueue s"
      "timedOutQueue s' = timedOutQueue s" "total_size s' = total_size s"
      "total_work s' = total_work s" "queueIters s' = queueIters s"
    and ct: "wf_counts s'"
    and cp: "current_priority s' \<in> set (level_order s)" "current_priority s \<le> current_priority s'"
    and el: "queue_eligible wq' \<Longrightarrow> \<not> queue_eligible (h_queues s q) \<Longrightarrow>
               q_priority (h_queues s q) \<le> current_priority s'"
    and df: "q_marked wq' \<Longrightarrow> q_marked (h_queues s q) \<or> q_name (h_queues s q) \<noteq> ''''"
  shows "handler_core s'"
proof -
  note wf = handler_coreD [OF ok] and live = same_shape_live [OF sh]
  have pr: "q_priority wq' = q_priority (h_queues s q)"
  proof -
    have "q_priority (h_queues s' q) = q_priority (h_queues s q)"
      using sh by (simp add: same_shape_def)
    then show ?thesis by (simp add: qs)
  qed
  have qq: "q_queue (h_queues s' q') = q_queue (h_queues s q')"
    "q_size (h_queues s' q') = q_size (h_queues s q')" for q'
    using same by (auto simp: qs)
  have "wf_levels s'" using same_shape_levels [OF sh wf(1) cp(1)] .
  moreover have "wf_names s'" using same_shape_names [OF sh wf(2)] .
  moreover have "wf_default s'"
  proof -
    from wf(3) obtain d where d: "queue_map s '''' = Some d" "\<not> q_marked (h_queues s d)"
      by (auto simp: wf_default_def)
    with df mapped_live [OF wf(2) d(1)] have "\<not> q_marked (h_queues s' d)" by (auto simp: qs)
    with d(1) sh show ?thesis by (auto simp: wf_default_def same_shape_def)
  qed
  moreover have "wf_iters s'" using same_shape_iters [OF sh wf(4) same(9)] .
  moreover have "wf_priority s'"
    unfolding wf_priority_def live
  proof (intro ballI impI)
    fix r assume r: "r \<in> live_queues s" "q_priority (h_queues s' r) > current_priority s'"
    then have "q_priority (h_queues s r) > current_priority s" using cp(2) pr
      by (auto simp: qs split: if_splits)
    with wf(6) r have "\<not> queue_eligible (h_queues s r)" by (simp add: wf_priority_def)
    with el pr r show "\<not> queue_eligible (h_queues s' r)" by (auto simp: qs split: if_splits)
  qed
  moreover have "wf_sizes s'" using wf(7) by (simp add: wf_sizes_def live qq same)
  moreover have "wf_works s'" using wf(8) by (simp add: wf_works_def live qq same queued_def)
  ultimately show ?thesis using ct by (simp add: handler_core_def)
qed

lemma remove_queue_core:
  assumes ok: "handler_core s" and rm: "remove_queue s name = Inr s'"
    and fresh: "\<And>q. queue_map s name = Some q \<Longrightarrow> \<not> q_marked (h_queues s q)"
  shows "handler_core s'"
proof -
  note wf = handler_coreD [OF ok]
  from rm obtain q where nm: "name \<noteq> ''''" "queue_map s name = Some q"
    by (auto simp: remove_queue_def split: if_splits option.splits)
  from nm wf(2) have q: "q \<in> live_queues s" "q_name (h_queues s q) = name" by (auto simp: mapped_live)
  note lp = live_priority [OF wf(1) q(1)]
  have s': "s' = (let wq = (h_queues s q)\<lparr>q_marked := True\<rparr>; p = q_priority wq; l = h_levels s p;
                  s1 = s\<lparr>h_queues := (h_queues s)(q := wq)\<rparr>
              in if q_blocked wq then s1
                 else s1\<lparr>h_levels := (h_levels s)(p := l\<lparr>marked_count := marked_count l + 1\<rparr>),
                         total_marked := total_marked s + 1,
                         current_priority := max p (current_priority s)\<rparr>)"
    using rm nm lp by (auto simp: remove_queue_def Let_def raise_priority_Inr split: if_splits)
  have sh: "same_shape s s'" by (auto simp: s' Let_def same_shape_def)
  have qs: "h_queues s' = (h_queues s)(q := (h_queues s q)\<lparr>q_marked := True\<rparr>)"
    by (simp add: s' Let_def)
  have ct: "wf_counts s'"
    by (rule wf_counts_upd [OF wf(1,5) q(1) sh qs refl])
      (use fresh nm in \<open>simp_all (no_asm_simp) add: s' Let_def unblocked_of_def marked_of_def\<close>)
  show ?thesis
    by (rule flags_upd_core [OF ok q(1) sh qs _ _ _ _ _ _ _ _ _ ct])
      (use lp q nm wf_levels_current [OF wf(1)]
       in \<open>simp_all add: s' Let_def max_def queue_eligible_def\<close>)
qed

lemma unblock_queue_internal_total:
  assumes "handler_core s"
  shows "\<exists>s'. unblock_queue_internal name s = Inr s'"
proof (cases "queue_map s name")
  case (Some q)
  with mapped_live [OF handler_coreD(2) [OF assms] Some] live_priority [OF handler_coreD(1) [OF assms]]
  show ?thesis by (auto simp: unblock_queue_internal_def Let_def raise_priority_Inr)
qed (simp add: unblock_queue_internal_def)

lemma unblock_queue_internal_fields:
  assumes "unblock_queue_internal name s = Inr s'"
  shows "h_running s' = h_running s" "queueIters s' = queueIters s" "h_works s' = h_works s"
    "q_queue (h_queues s' q) = q_queue (h_queues s q)" "h_state s' = h_state s"
    "timedOutQueue s' = timedOutQueue s" "h_log s' = h_log s" "next_wid s' = next_wid s"
    "max_queue_size s' = max_queue_size s" "max_total_size s' = max_total_size s"
    "total_size s' = total_size s" "q_size (h_queues s' q) = q_size (h_queues s q)"
    "q_blocked (h_queues s' q) \<Longrightarrow> q_blocked (h_queues s q)" "same_shape s s'"
  using assms
  by (auto simp: unblock_queue_internal_def Let_def same_shape_def dest!: raise_priority_frame
      split: option.splits if_splits)

lemma unblock_queue_internal_core:
  assumes ok: "handler_core s" and ub: "unblock_queue_internal name s = Inr s'"
  shows "handler_core s'"
proof (cases "\<exists>q. queue_map s name = Some q \<and> q_blocked (h_queues s q)")
  case False
  with ub have "s' = s" by (auto simp: unblock_queue_internal_def Let_def split: option.splits)
  with ok show ?thesis by simp
next
  case True
  then obtain q where nm: "queue_map s name = Some q" "q_blocked (h_queues s q)" by auto
  note wf = handler_coreD [OF ok]
  have q: "q \<in> live_queues s" using mapped_live [OF wf(2) nm(1)] by simp
  note lp = live_priority [OF wf(1) q]
  have s': "s' = (let wq = h_queues s q; p = q_priority wq; l = h_levels s p;
                      n = of_nat (length (q_queue wq)) :: u64;
                      l1 = l\<lparr>unblocked_work_count := unblocked_work_count l + n\<rparr>;
                      l2 = (if q_marked wq then l1\<lparr>marked_count := marked_count l1 + 1\<rparr> else l1)
                  in s\<lparr>h_queues := (h_queues s)(q := wq\<lparr>q_blocked := False\<rparr>),
                       h_levels := (h_levels s)(p := l2),
                       unblocked_work := unblocked_work s + n,
                       total_marked := total_marked s + (if q_marked wq then 1 else 0),
                       current_priority := max p (current_priority s)\<rparr>)"
    using ub nm lp by (auto simp: unblock_queue_internal_def Let_def raise_priority_Inr)
  have sh: "same_shape s s'" by (auto simp: s' Let_def same_shape_def)
  have qs: "h_queues s' = (h_queues s)(q := (h_queues s q)\<lparr>q_blocked := False\<rparr>)"
    by (simp add: s' Let_def)
  have ct: "wf_counts s'"
    by (rule wf_counts_upd [OF wf(1,5) q(1) sh qs refl])
      (use nm in \<open>simp_all (no_asm_simp) add: s' Let_def unblocked_of_def marked_of_def\<close>)
  show ?thesis
    by (rule flags_upd_core [OF ok q(1) sh qs _ _ _ _ _ _ _ _ _ ct])
      (use lp wf_levels_current [OF wf(1)] in \<open>simp_all add: s' Let_def max_def\<close>)
qed

lemma block_queue_internal_core:
  assumes ok: "handler_core s" and q: "q \<in> live_queues s" and nb: "\<not> q_blocked (h_queues s q)"
  shows "handler_core (block_queue_internal q s)"
proof -
  note wf = handler_coreD [OF ok] and d = block_queue_internal_def Let_def
  have sh: "same_shape s (block_queue_internal q s)" by (auto simp: d same_shape_def)
  have qs: "h_queues (block_queue_internal q s) = (h_queues s)(q := (h_queues s q)\<lparr>q_blocked := True\<rparr>)"
    by (simp add: d)
  have ct: "wf_counts (block_queue_internal q s)"
    by (rule wf_counts_upd [OF wf(1,5) q(1) sh qs refl])
      (use nb in \<open>simp_all (no_asm_simp) add: d unblocked_of_def marked_of_def\<close>)
  show ?thesis
    by (rule flags_upd_core [OF ok q(1) sh qs _ _ _ _ _ _ _ _ _ ct])
      (use wf_levels_current [OF wf(1)] in \<open>simp_all add: d queue_eligible_def\<close>)
qed

section \<open>Removing work\<close>

text \<open>
  Both removals assume that the queue is not blocked: the code decrements the unblocked counters
  without looking.
\<close>

lemma sum_remove1:
  fixes f :: "work_id \<Rightarrow> 'c::ab_group_add"
  assumes "w \<in> set xs" "distinct xs"
  shows "(\<Sum>x\<in>set (remove1 w xs). f x) = (\<Sum>x\<in>set xs. f x) - f w"
  using assms by (simp add: sum.remove [of "set xs" w])

lemma uncount_work_core:
  assumes ok: "handler_core s" and q: "q \<in> live_queues s"
    and w: "w \<in> set (q_queue (h_queues s q))" and nb: "\<not> q_blocked (h_queues s q)"
    and rest: "rest = remove1 w (q_queue (h_queues s q))"
  shows "handler_core (uncount_work w q rest s)"
proof -
  let ?s = "uncount_work w q rest s"
  note wf = handler_coreD [OF ok] and d = uncount_work_def Let_def
  have sh: "same_shape s ?s" by (auto simp: d same_shape_def)
  note live = same_shape_live [OF sh]
  have eqs: "h_works ?s = h_works s" "next_wid ?s = next_wid s"
    "current_priority ?s = current_priority s" "total_size ?s = total_size s - w_size (h_works s w)"
    "total_work ?s = total_work s - 1" by (simp_all add: d)
  have qs: "h_queues ?s = (h_queues s)(q := (h_queues s q)\<lparr>q_queue := rest,
      q_size := q_size (h_queues s q) - w_size (h_works s w)\<rparr>)" by (simp add: d)
  have srt: "sorted_wrt (<) (q_queue (h_queues s q'))"
    "\<And>x. x \<in> set (q_queue (h_queues s q')) \<Longrightarrow> x < next_wid s \<and> w_queue (h_works s x) = q'"
    if "q' \<in> live_queues s" for q' using wf(8) that by (simp_all add: wf_works_def)
  have dist: "distinct (q_queue (h_queues s q))" using srt(1) [OF q] by (simp add: strict_sorted_iff)
  have set_rest: "set rest = set (q_queue (h_queues s q)) - {w}" using dist by (simp add: rest)
  have len: "length (q_queue (h_queues s q)) = Suc (length rest)"
    using w by (simp add: rest length_remove1) (metis Suc_pred length_pos_if_in_set)
  have srest: "sorted_wrt (<) rest" using srt(1) [OF q]
    by (simp add: rest strict_sorted_iff sorted_remove1)
  have qd: "queued ?s x \<longleftrightarrow> queued s x \<and> x \<noteq> w" for x
  proof -
    have "w \<notin> set (q_queue (h_queues s q'))" if "q' \<in> live_queues s" "q' \<noteq> q" for q'
      using srt(2) [OF that(1)] srt(2) [OF q w] that(2) by auto
    then have "x \<in> set (q_queue (h_queues ?s q')) \<longleftrightarrow> x \<in> set (q_queue (h_queues s q')) \<and> x \<noteq> w"
      if "q' \<in> live_queues s" for q'
      using that set_rest by (cases "q' = q") (auto simp: qs)
    then show ?thesis by (auto simp: queued_def live)
  qed
  have "wf_levels ?s" using same_shape_levels [OF sh wf(1)] wf_levels_current [OF wf(1)] by (simp add: d)
  moreover have "wf_names ?s" using same_shape_names [OF sh wf(2)] .
  moreover have "wf_default ?s" using wf(3) by (auto simp: wf_default_def d)
  moreover have "wf_iters ?s" using same_shape_iters [OF sh wf(4)] by (simp add: d)
  moreover have "wf_counts ?s"
    by (rule wf_counts_upd [OF wf(1,5) q(1) sh qs refl])
      (use nb in \<open>simp_all (no_asm_simp) add: d unblocked_of_def marked_of_def len\<close>)
  moreover have "wf_priority ?s"
    using wf(6) q w by (auto simp: wf_priority_def live qs queue_eligible_def eqs)
  moreover have "wf_sizes ?s"
  proof -
    have "(\<Sum>x\<in>set rest. w_size (h_works s x))
        = (\<Sum>x\<in>set (q_queue (h_queues s q)). w_size (h_works s x)) - w_size (h_works s w)"
      unfolding rest by (rule sum_remove1 [OF w dist])
    with wf(7) q show ?thesis
      by (auto simp: wf_sizes_def live qs sum_heap_upd sum_length_upd len eqs)
  qed
  moreover have "wf_works ?s"
  proof -
    have tq: "timeoutQueue ?s = remove1 w (timeoutQueue s)"
      "timedOutQueue ?s = remove1 w (timedOutQueue s)"
      using wf(8) by (auto simp: d wf_works_def remove1_idem)
    have "sorted_wrt (<) (q_queue (h_queues ?s q')) \<and>
        (\<forall>x\<in>set (q_queue (h_queues ?s q')). x < next_wid s \<and> w_queue (h_works s x) = q')"
      if "q' \<in> live_queues s" for q'
      using srt [OF that] srest set_rest by (auto simp: qs)
    moreover have "sorted (map (\<lambda>w. w_timeout (h_works s w)) (remove1 w (timeoutQueue s)))"
      using wf(8) by (simp add: wf_works_def sorted_map_remove1)
    ultimately show ?thesis using wf(8) unfolding wf_works_def live tq eqs qd
      by (auto simp: set_remove1_eq distinct_remove1)
  qed
  ultimately show ?thesis by (simp add: handler_core_def)
qed

lemma pop_queue_internal_core:
  assumes "handler_core s" "q \<in> live_queues s" "q_queue (h_queues s q) \<noteq> []" "\<not> q_blocked (h_queues s q)"
  shows "handler_core (pop_queue_internal q s)"
  unfolding pop_queue_internal_def
  by (rule uncount_work_core [OF assms(1,2) _ assms(4)]) (use assms(3) in \<open>cases "q_queue (h_queues s q)"; simp\<close>)+

lemma remove_work_internal_core:
  assumes "handler_core s" "queued s w" "\<not> q_blocked (h_queues s (w_queue (h_works s w)))"
  shows "handler_core (remove_work_internal w s)"
proof -
  from assms(2) obtain q where q: "q \<in> live_queues s" "w \<in> set (q_queue (h_queues s q))"
    by (auto simp: queued_def)
  with handler_coreD(8) [OF assms(1)] have wq: "w_queue (h_works s w) = q" by (simp add: wf_works_def)
  show ?thesis unfolding remove_work_internal_def Let_def wq
    by (rule uncount_work_core [OF assms(1) q]) (use assms(3) wq in auto)
qed

lemma remove_work_internal_fields:
  "h_works (remove_work_internal w s) = h_works s"
  "q_blocked (h_queues (remove_work_internal w s) q) = q_blocked (h_queues s q)"
  "h_log (remove_work_internal w s) = h_log s" "h_running (remove_work_internal w s) = h_running s"
  "queueIters (remove_work_internal w s) = queueIters s"
  "next_wid (remove_work_internal w s) = next_wid s" "h_state (remove_work_internal w s) = h_state s"
  "unblock_list (remove_work_internal w s) = unblock_list s"
  "max_queue_size (remove_work_internal w s) = max_queue_size s"
  "max_total_size (remove_work_internal w s) = max_total_size s"
  "same_shape s (remove_work_internal w s)"
  by (auto simp: remove_work_internal_def uncount_work_def Let_def same_shape_def)

lemma remove_work_internal_queue:
  "q_queue (h_queues (remove_work_internal w s) q)
     = (if q = w_queue (h_works s w) then remove1 w (q_queue (h_queues s q)) else q_queue (h_queues s q))"
  by (simp add: remove_work_internal_def uncount_work_def Let_def)

text \<open>
  The loop over \<open>timedOutQueue\<close> removes its front until it is empty: the recursion over the list is
  the loop, because each removal erases exactly the front.
\<close>

lemma remove_work_internal_timed_out:
  assumes "handler_core s" "timedOutQueue s = w # ws"
  shows "timedOutQueue (remove_work_internal w s) = ws"
proof -
  from handler_coreD(8) [OF assms(1)] assms(2) have "w_in_timed_out (h_works s w)"
    by (simp add: wf_works_def) (metis list.set_intros(1))
  with assms(2) show ?thesis by (simp add: remove_work_internal_def uncount_work_def Let_def)
qed

lemma fold_remove_work_core:
  assumes "handler_core s" "timedOutQueue s = ws"
    "\<And>w. w \<in> set ws \<Longrightarrow> \<not> q_blocked (h_queues s (w_queue (h_works s w)))"
  shows "handler_core (fold remove_work_internal ws s) \<and>
         timedOutQueue (fold remove_work_internal ws s) = []"
  using assms
proof (induction ws arbitrary: s)
  case (Cons w ws)
  let ?s = "remove_work_internal w s"
  from handler_coreD(8) [OF Cons.prems(1)] Cons.prems(2) have "queued s w"
    by (simp add: wf_works_def) (metis list.set_intros(1))
  with Cons.prems have "handler_core ?s" by (auto intro: remove_work_internal_core)
  moreover have "timedOutQueue ?s = ws" using remove_work_internal_timed_out Cons.prems(1,2) by simp
  moreover have "\<not> q_blocked (h_queues ?s (w_queue (h_works ?s x)))" if "x \<in> set ws" for x
    using Cons.prems(3) [of x] that by (simp add: remove_work_internal_fields)
  ultimately show ?case using Cons.IH [of ?s] by simp
qed simp

section \<open>The timeout thread\<close>

definition time_out :: "work_id \<Rightarrow> work_id list \<Rightarrow> handler \<Rightarrow> handler" where
  "time_out w ws s =
     (let wk = h_works s w in
      s\<lparr>h_log := (if \<not> w_running wk \<and> w_has_timeout_callback wk
                 then h_log s @ [TimeoutCallback w] else h_log s),
        h_works := (h_works s)(w := wk\<lparr>w_in_timeout := False, w_in_timed_out := True\<rparr>),
        timedOutQueue := timedOutQueue s @ [w], timeoutQueue := ws\<rparr>)"

lemma move_timed_out_Cons:
  "move_timed_out now (w # ws) s =
     (if w_timeout (h_works s w) > now then s else move_timed_out now ws (time_out w ws s))"
  by (simp add: time_out_def Let_def)

declare move_timed_out.simps(2) [simp del]

lemma time_out_core:
  assumes ok: "handler_core s" and tq: "timeoutQueue s = w # ws"
  shows "handler_core (time_out w ws s)"
proof -
  let ?s = "time_out w ws s"
  note wf = handler_coreD [OF ok] and d = time_out_def Let_def
  have eqs: "level_order ?s = level_order s" "h_levels ?s = h_levels s" "h_queues ?s = h_queues s"
    "queue_map ?s = queue_map s" "next_qid ?s = next_qid s" "current_priority ?s = current_priority s"
    "queueIters ?s = queueIters s" "unblocked_work ?s = unblocked_work s"
    "total_marked ?s = total_marked s" "total_size ?s = total_size s" "total_work ?s = total_work s"
    "next_wid ?s = next_wid s" "timeoutQueue ?s = ws" "timedOutQueue ?s = timedOutQueue s @ [w]"
    "w_size (h_works ?s x) = w_size (h_works s x)" "w_queue (h_works ?s x) = w_queue (h_works s x)"
    "w_timeout (h_works ?s x) = w_timeout (h_works s x)"
    "w_in_timeout (h_works ?s x) = (x \<noteq> w \<and> w_in_timeout (h_works s x))"
    "w_in_timed_out (h_works ?s x) = (x = w \<or> w_in_timed_out (h_works s x))" for x
    by (auto simp: d)
  have live: "live_queues ?s = live_queues s" and qd: "queued ?s x = queued s x" for x
    by (simp_all add: live_queues_def queued_def eqs)
  from wf(8) tq have w: "queued s w" "w_in_timeout (h_works s w)" "w \<notin> set ws"
    by (simp_all add: wf_works_def) (metis list.set_intros(1))+
  have mem: "x \<in> set ws \<longleftrightarrow> x \<noteq> w \<and> queued s x \<and> w_in_timeout (h_works s x)"
    "x \<in> set (timedOutQueue s) \<longleftrightarrow> queued s x \<and> w_in_timed_out (h_works s x)"
    "queued s x \<Longrightarrow> w_in_timeout (h_works s x) \<noteq> w_in_timed_out (h_works s x)" for x
  proof -
    have "x \<in> set (w # ws) \<longleftrightarrow> queued s x \<and> w_in_timeout (h_works s x)"
      using wf(8) tq by (simp add: wf_works_def)
    with w(3) show "x \<in> set ws \<longleftrightarrow> x \<noteq> w \<and> queued s x \<and> w_in_timeout (h_works s x)" by auto
  qed (use wf(8) in \<open>simp_all add: wf_works_def\<close>)
  have "wf_works ?s"
    using wf(8) tq w mem unfolding wf_works_def live qd eqs by (auto simp: sorted_wrt_append)
  moreover have "wf_levels ?s" "wf_names ?s" "wf_default ?s" "wf_iters ?s" "wf_counts ?s"
    "wf_priority ?s" "wf_sizes ?s"
    using wf(1-7) by (simp_all add: wf_levels_def wf_names_def wf_default_def wf_iters_def
        wf_counts_def wf_priority_def wf_sizes_def live eqs)
  ultimately show ?thesis by (simp add: handler_core_def)
qed

lemma move_timed_out_core:
  "handler_core s \<Longrightarrow> timeoutQueue s = ws \<Longrightarrow> handler_core (move_timed_out now ws s)"
proof (induction ws arbitrary: s)
  case (Cons w ws)
  have "timeoutQueue (time_out w ws s) = ws" by (simp add: time_out_def Let_def)
  with Cons show ?case by (simp add: move_timed_out_Cons time_out_core)
qed simp

lemma move_timed_out_fields:
  "h_running (move_timed_out now ws s) = h_running s"
  "h_queues (move_timed_out now ws s) = h_queues s"
  "queueIters (move_timed_out now ws s) = queueIters s"
  "next_wid (move_timed_out now ws s) = next_wid s"
  "w_queue (h_works (move_timed_out now ws s) x) = w_queue (h_works s x)"
  "h_state (move_timed_out now ws s) = h_state s"
  "max_queue_size (move_timed_out now ws s) = max_queue_size s"
  "max_total_size (move_timed_out now ws s) = max_total_size s"
  "total_size (move_timed_out now ws s) = total_size s"
  by (induction ws arbitrary: s) (auto simp: move_timed_out_Cons time_out_def Let_def)

section \<open>Creating a queue\<close>

lemma set_insert_level [simp]: "set (insert_level p xs) = insert p (set xs)"
  by (induction xs) auto

lemma sorted_insert_level:
  "sorted_wrt (>) xs \<Longrightarrow> p \<notin> set xs \<Longrightarrow> sorted_wrt (>) (insert_level p xs)"
  by (induction xs) auto

lemma create_queue_fields:
  assumes "create_queue s name p = Inr s'"
  shows "set (level_order s') = insert p (set (level_order s))"
    "sorted_wrt (>) (level_order s) \<Longrightarrow> sorted_wrt (>) (level_order s')"
    "queue_map s' = (queue_map s)(name \<mapsto> next_qid s)" "queue_map s name = None"
    "h_queues s' = (h_queues s)(next_qid s := new_work_queue name p)"
    "next_qid s' = Suc (next_qid s)"
    "p' \<noteq> p \<Longrightarrow> h_levels s' p' = h_levels s p'"
    "p \<in> set (level_order s) \<Longrightarrow> h_levels s' p = (h_levels s p)
       \<lparr>work_queues := work_queues (h_levels s p) @ [next_qid s]\<rparr>"
    "p \<notin> set (level_order s) \<Longrightarrow> h_levels s' p = (new_priority_level p)\<lparr>work_queues := [next_qid s]\<rparr>"
    "current_priority s' = current_priority s" "queueIters s' = queueIters s"
    "unblocked_work s' = unblocked_work s" "total_marked s' = total_marked s"
    "total_size s' = total_size s" "total_work s' = total_work s" "h_works s' = h_works s"
    "next_wid s' = next_wid s" "timeoutQueue s' = timeoutQueue s" "timedOutQueue s' = timedOutQueue s"
    "h_running s' = h_running s" "h_log s' = h_log s" "h_state s' = h_state s"
    "max_queue_size s' = max_queue_size s" "max_total_size s' = max_total_size s"
  using assms
  by (auto simp: create_queue_def emplace_queue_def emplace_level_def Let_def sorted_insert_level
      new_priority_level_def split: if_splits)

lemma create_queue_wqs:
  assumes "create_queue s name p = Inr s'"
  shows "work_queues (h_levels s' p') =
      (if p' = p then (if p \<in> set (level_order s) then work_queues (h_levels s p) @ [next_qid s]
                       else [next_qid s])
       else work_queues (h_levels s p'))"
  using create_queue_fields(7-9) [OF assms] by auto

lemma create_queue_live:
  assumes "create_queue s name p = Inr s'"
  shows "live_queues s' = insert (next_qid s) (live_queues s)"
  unfolding live_queues_def create_queue_wqs [OF assms] create_queue_fields(1) [OF assms]
  by (auto split: if_splits)

lemma create_queue_core:
  assumes ok: "handler_core s" and cr: "create_queue s name p = Inr s'"
  shows "handler_core s'"
proof -
  note wf = handler_coreD [OF ok] and fs = create_queue_fields [OF cr]
  let ?q = "next_qid s"
  have fresh: "?q \<notin> live_queues s" using live_lt [OF wf(1)] by blast
  note wqs = create_queue_wqs [OF cr] and live = create_queue_live [OF cr]
  have lt: "q \<noteq> ?q" if "q \<in> live_queues s" for q using that fresh by auto
  have old: "h_queues s' q = h_queues s q" if "q \<in> live_queues s" for q
    using lt [OF that] by (simp add: fs(5))
  have level: "q \<in> live_queues s" if "p' \<in> set (level_order s)" "q \<in> set (work_queues (h_levels s p'))"
    for p' q using that by (auto simp: live_queues_def)
  have sums: "(\<Sum>q\<in>live_queues s'. f (h_queues s' q))
      = f (new_work_queue name p) + (\<Sum>q\<in>live_queues s. f (h_queues s q))" for f :: "work_queue \<Rightarrow> 'c::ab_group_add"
    using fresh old by (simp add: live fs(5))
  have lsums: "(\<Sum>q\<in>set (work_queues (h_levels s' p')). f (h_queues s' q)) =
      (if p' = p then f (new_work_queue name p) else 0) +
      (if p' \<in> set (level_order s) then (\<Sum>q\<in>set (work_queues (h_levels s p')). f (h_queues s q)) else 0)"
    if "p' \<in> set (level_order s')" for p' and f :: "work_queue \<Rightarrow> 'c::ab_group_add"
  proof -
    have "(\<Sum>q\<in>set (work_queues (h_levels s p')). f (h_queues s' q))
        = (\<Sum>q\<in>set (work_queues (h_levels s p')). f (h_queues s q))" if "p' \<in> set (level_order s)"
      using old level [OF that] by (intro sum.cong) auto
    moreover have "?q \<notin> set (work_queues (h_levels s p'))" if "p' \<in> set (level_order s)"
      using level [OF that] fresh by blast
    ultimately show ?thesis using that by (auto simp: wqs fs(1,5))
  qed
  have nil: "unblocked_of (new_work_queue name p) = 0" "(marked_of (new_work_queue name p) :: 'c::ring_1) = 0"
    by (simp_all add: unblocked_of_def marked_of_def new_work_queue_def)
  have "wf_levels s'"
    unfolding wf_levels_def
  proof (intro conjI ballI)
    show "sorted_wrt (>) (level_order s')" using wf(1) fs(2) by (simp add: wf_levels_def)
    show "current_priority s' \<in> set (level_order s')" using wf_levels_current [OF wf(1)] by (simp add: fs)
    fix p' assume p': "p' \<in> set (level_order s')"
    show "work_queues (h_levels s' p') \<noteq> []" using wf(1) p' by (auto simp: wqs fs(1) wf_levels_def)
    show "distinct (work_queues (h_levels s' p'))"
      using wf(1) p' fresh level by (auto simp: wqs fs(1) wf_levels_def)
    fix q assume "q \<in> set (work_queues (h_levels s' p'))"
    then have "q = ?q \<and> p' = p \<or> p' \<in> set (level_order s) \<and> q \<in> set (work_queues (h_levels s p'))"
      using p' by (auto simp: wqs fs(1) split: if_splits)
    then show "q_priority (h_queues s' q) = p'" "q < next_qid s'"
      using wf(1) by (auto simp: fs wf_levels_def new_work_queue_def less_Suc_eq)
  qed
  moreover have "wf_names s'"
  proof -
    have "q_name (h_queues s q) \<noteq> name" if "q \<in> live_queues s" for q
      using wf(2) that fs(4) by (metis not_None_eq wf_names_def)
    with wf(2) lt show ?thesis
      by (auto simp: wf_names_def live fs new_work_queue_def)
  qed
  moreover have "wf_default s'"
  proof -
    from wf(3) obtain d where d: "queue_map s '''' = Some d" "\<not> q_marked (h_queues s d)"
      by (auto simp: wf_default_def)
    with mapped_live [OF wf(2) d(1)] fs(4) have "name \<noteq> ''''" "d \<in> live_queues s" by auto
    with d old [of d] show ?thesis by (auto simp: wf_default_def fs(3))
  qed
  moreover have "wf_iters s'" using wf(4) by (auto simp: wf_iters_def fs(1,11) wqs)
  moreover have "wf_counts s'"
  proof -
    have "unblocked_work_count (h_levels s' p') =
            (\<Sum>q\<in>set (work_queues (h_levels s' p')). unblocked_of (h_queues s' q)) \<and>
          marked_count (h_levels s' p') =
            (\<Sum>q\<in>set (work_queues (h_levels s' p')). marked_of (h_queues s' q))"
      if "p' \<in> set (level_order s')" for p'
      unfolding lsums [OF that] nil using wf(5) that fs(7-9)
      by (cases "p' = p"; cases "p \<in> set (level_order s)")
        (auto simp: wf_counts_def fs(1) new_priority_level_def)
    moreover have "unblocked_work s' = (\<Sum>q\<in>live_queues s'. unblocked_of (h_queues s' q))"
      "total_marked s' = (\<Sum>q\<in>live_queues s'. marked_of (h_queues s' q))"
      unfolding sums nil fs(12,13) using wf(5) by (simp_all add: wf_counts_def)
    ultimately show ?thesis unfolding wf_counts_def by blast
  qed
  moreover have "wf_priority s'"
    using wf(6) old by (auto simp: wf_priority_def live fs(10)) (simp add: fs(5) queue_eligible_def new_work_queue_def)
  moreover have "wf_sizes s'"
  proof -
    have "(\<Sum>q\<in>live_queues s'. q_size (h_queues s' q)) = (\<Sum>q\<in>live_queues s. q_size (h_queues s q))"
      "(\<Sum>q\<in>live_queues s'. int (length (q_queue (h_queues s' q))))
        = (\<Sum>q\<in>live_queues s. int (length (q_queue (h_queues s q))))"
      using sums [of q_size] sums [of "\<lambda>wq. int (length (q_queue wq))"] by (simp_all add: new_work_queue_def)
    with wf(7) old show ?thesis
      by (simp add: wf_sizes_def live fs(14-16)) (simp add: fs(5) new_work_queue_def)
  qed
  moreover have "wf_works s'"
  proof -
    have qd: "queued s' w = queued s w" for w
      using old by (simp add: queued_def live) (simp add: fs(5) new_work_queue_def)
    have "sorted_wrt (<) (q_queue (h_queues s' q)) \<and>
        (\<forall>w\<in>set (q_queue (h_queues s' q)). w < next_wid s' \<and> w_queue (h_works s' w) = q)"
      if "q \<in> live_queues s'" for q
      using that wf(8) old by (auto simp: live wf_works_def fs(16,17)) (simp_all add: fs(5) new_work_queue_def)
    with wf(8) show ?thesis by (simp add: wf_works_def qd fs(16-19))
  qed
  ultimately show ?thesis by (simp add: handler_core_def)
qed

section \<open>Finding the next queue\<close>

text \<open>
  The counters are \<open>size_t\<close> and \<open>int\<close>. \<open>handler_small\<close> bounds the contents of a handler by what the
  C++ \<open>int\<close> counters can hold, so that no counter wraps around by sheer volume.
\<close>

definition handler_small :: "handler \<Rightarrow> bool" where
  "handler_small s \<longleftrightarrow> total_work s < 2 ^ 31 \<and> next_qid s < 2 ^ 31"

lemma unblocked_sum:
  "(\<Sum>q\<in>A. unblocked_of (h_queues s q))
     = of_nat (\<Sum>q\<in>A. if q_blocked (h_queues s q) then 0 else length (q_queue (h_queues s q)))"
  by (simp add: unblocked_of_def of_nat_sum) (intro sum.cong, auto)

lemma marked_sum:
  "(\<Sum>q\<in>A. marked_of (h_queues s q))
     = of_nat (\<Sum>q\<in>A. if q_marked (h_queues s q) \<and> \<not> q_blocked (h_queues s q) then 1 else 0)"
  by (simp add: marked_of_def of_nat_sum) (intro sum.cong, auto)

lemma of_nat_u64_eq_0: "n < 2 ^ 64 \<Longrightarrow> (of_nat n :: u64) = 0 \<longleftrightarrow> n = 0"
  by (auto simp: word_of_nat_eq_0_iff dest: nat_dvd_not_less [rotated])

lemma level_sub_live: "p \<in> set (level_order s) \<Longrightarrow> set (work_queues (h_levels s p)) \<subseteq> live_queues s"
  by (auto simp: live_queues_def)

lemma level_idle_iff:
  assumes ok: "handler_core s" and sm: "handler_small s" and p: "p \<in> set (level_order s)"
  shows "level_idle s p \<longleftrightarrow> (\<forall>q\<in>set (work_queues (h_levels s p)). \<not> queue_eligible (h_queues s q))"
proof -
  note wf = handler_coreD [OF ok] and sub = level_sub_live [OF p]
  let ?u = "\<lambda>q. if q_blocked (h_queues s q) then 0 else length (q_queue (h_queues s q))"
  let ?m = "\<lambda>q. if q_marked (h_queues s q) \<and> \<not> q_blocked (h_queues s q) then 1 else 0 :: nat"
  let ?L = "set (work_queues (h_levels s p))"
  have "(\<Sum>q\<in>?L. ?u q) \<le> (\<Sum>q\<in>live_queues s. length (q_queue (h_queues s q)))"
    by (rule order_trans [OF sum_mono2 [OF _ sub] sum_mono]) auto
  moreover have "(\<Sum>q\<in>live_queues s. length (q_queue (h_queues s q))) < 2 ^ 31"
  proof -
    have "int (\<Sum>q\<in>live_queues s. length (q_queue (h_queues s q))) < 2 ^ 31"
      using wf(7) sm by (simp add: wf_sizes_def handler_small_def)
    moreover have "n < 2 ^ 31" if "int n < 2 ^ 31" for n using that by simp
    ultimately show ?thesis by blast
  qed
  ultimately have u: "(\<Sum>q\<in>?L. ?u q) < 2 ^ 64" by simp
  have "live_queues s \<subseteq> {..<next_qid s}" using live_lt [OF wf(1)] by auto
  with sub have "card ?L \<le> next_qid s" by (metis card_lessThan card_mono finite_lessThan subset_trans)
  moreover have "(\<Sum>q\<in>?L. ?m q) \<le> (\<Sum>q\<in>?L. 1)" by (intro sum_mono) auto
  ultimately have m: "(\<Sum>q\<in>?L. ?m q) < 2 ^ 64" using sm by (simp add: handler_small_def)
  have "level_idle s p \<longleftrightarrow> (\<Sum>q\<in>?L. ?u q) = 0 \<and> (\<Sum>q\<in>?L. ?m q) = 0"
    using wf(5) p unfolding level_idle_def wf_counts_def unblocked_sum marked_sum
    by (simp only: of_nat_u64_eq_0 [OF u] of_nat_u64_eq_0 [OF m])
  also have "\<dots> \<longleftrightarrow> (\<forall>q\<in>?L. \<not> queue_eligible (h_queues s q))"
    by (auto simp: queue_eligible_def split: if_splits)
  finally show ?thesis .
qed

lemma busy_level:
  assumes ok: "handler_core s" and sm: "handler_small s"
    and work: "unblocked_work s > 0 \<or> total_marked s > 0"
  shows "\<exists>p\<in>set (level_order s). \<not> level_idle s p"
proof -
  note wf = handler_coreD [OF ok]
  have "(\<Sum>q\<in>live_queues s. unblocked_of (h_queues s q)) \<noteq> 0
      \<or> (\<Sum>q\<in>live_queues s. marked_of (h_queues s q) :: int) \<noteq> 0"
    using wf(5) work by (auto simp: wf_counts_def)
  then obtain q where q: "q \<in> live_queues s"
    "unblocked_of (h_queues s q) \<noteq> 0 \<or> (marked_of (h_queues s q) :: int) \<noteq> 0"
    by (meson sum.neutral)
  then have "queue_eligible (h_queues s q)"
    by (auto simp: queue_eligible_def unblocked_of_def marked_of_def split: if_splits)
  moreover from q(1) obtain p where "p \<in> set (level_order s)" "q \<in> set (work_queues (h_levels s p))"
    by (auto simp: live_queues_def)
  ultimately show ?thesis using level_idle_iff [OF ok sm] by blast
qed

lemma distinct_desc: "sorted_wrt (>) xs \<Longrightarrow> distinct (xs :: int list)"
  by (induction xs) auto

text \<open>The first loop: it stops at the highest level with work, because none above the start has any.\<close>

lemma find_level_correct:
  assumes ok: "handler_core s" and sm: "handler_small s"
    and busy: "\<exists>p\<in>set (level_order s). \<not> level_idle s p"
  shows "\<exists>p\<in>set (level_order s). find_level s = Some p \<and> \<not> level_idle s p \<and>
           (\<forall>p'\<in>set (level_order s). p' > p \<longrightarrow> level_idle s p')"
proof -
  note wf = handler_coreD [OF ok]
  let ?xs = "level_order s"
  have srt: "sorted_wrt (>) ?xs" using wf(1) by (simp add: wf_levels_def)
  then have dist: "distinct ?xs" by (rule distinct_desc)
  obtain i where i: "i < length ?xs" "current_priority s = ?xs ! i"
    using wf_levels_current [OF wf(1)] by (auto simp: in_set_conv_nth)
  have above: "level_idle s p" if "p \<in> set ?xs" "p > current_priority s" for p
  proof -
    have "\<not> queue_eligible (h_queues s q)" if "q \<in> set (work_queues (h_levels s p))" for q
    proof -
      have "q \<in> live_queues s" "q_priority (h_queues s q) = p"
        using that \<open>p \<in> set ?xs\<close> wf(1) by (auto simp: live_queues_def wf_levels_def)
      with wf(6) \<open>p > current_priority s\<close> show ?thesis by (simp add: wf_priority_def)
    qed
    with level_idle_iff [OF ok sm that(1)] show ?thesis by blast
  qed
  have fl: "find_level s = find (\<lambda>p. \<not> level_idle s p) (rotate i ?xs)"
    using cyclic_search_find [OF dist i(1), of "\<lambda>p. \<not> level_idle s p"] busy
    by (simp add: find_level_def i(2))
  have rot: "rotate i ?xs = drop i ?xs @ take i ?xs" using i(1) by (simp add: rotate_drop_take)
  have take: "level_idle s p" if "p \<in> set (take i ?xs)" for p
  proof -
    from that obtain j where "j < i" "p = ?xs ! j" using i(1) by (auto simp: in_set_conv_nth)
    with srt i have "p > current_priority s" "p \<in> set ?xs" by (auto simp: sorted_wrt_iff_nth_less)
    with above show ?thesis by simp
  qed
  from busy obtain p where p: "find (\<lambda>p. \<not> level_idle s p) (drop i ?xs) = Some p"
    using take by (metis (no_types, lifting) UnE append_take_drop_id find_None_iff not_None_eq set_append)
  then obtain k where k: "k < length (drop i ?xs)" "\<not> level_idle s p" "p = drop i ?xs ! k"
    "\<And>j. j < k \<Longrightarrow> level_idle s (drop i ?xs ! j)" by (auto simp: find_Some_iff)
  have "find_level s = Some p" using p by (simp add: fl rot find_append)
  moreover have "level_idle s p'" if p': "p' \<in> set ?xs" "p' > p" for p'
  proof -
    from p' obtain j where j: "j < length ?xs" "p' = ?xs ! j" by (auto simp: in_set_conv_nth)
    have "j < i + k"
    proof (rule ccontr)
      assume "\<not> j < i + k"
      then consider "j = i + k" | "i + k < j" by linarith
      then have "p' \<le> p" using srt j k(1,3) by cases (auto simp: sorted_wrt_iff_nth_less less_imp_le)
      with p'(2) show False by simp
    qed
    show ?thesis
    proof (cases "j < i")
      case True
      with j i(1) have "p' \<in> set (take i ?xs)" by (auto simp: in_set_conv_nth)
      with take show ?thesis by simp
    next
      case False
      with \<open>j < i + k\<close> j k(4) [of "j - i"] show ?thesis by auto
    qed
  qed
  moreover have "p \<in> set ?xs" using k(1,3) by simp
  ultimately show ?thesis using k(2) by blast
qed

lemma find_queue_correct:
  assumes ok: "handler_core s" and sm: "handler_small s" and p: "p \<in> set (level_order s)"
    and busy: "\<not> level_idle s p"
  shows "\<exists>q\<in>set (work_queues (h_levels s p)). find_queue s p = Some q \<and> queue_eligible (h_queues s q)"
proof -
  note wf = handler_coreD [OF ok]
  let ?wqs = "work_queues (h_levels s p)"
  have d: "distinct ?wqs" "?wqs \<noteq> []" using wf(1) p by (auto simp: wf_levels_def)
  have "(case queueIters s p of Some q \<Rightarrow> q | None \<Rightarrow> hd ?wqs) \<in> set ?wqs"
    using wf(4) d(2) by (auto simp: wf_iters_def split: option.splits)
  from cyclic_search_Some [OF d(1) this, of "\<lambda>q. queue_eligible (h_queues s q)"]
  show ?thesis using level_idle_iff [OF ok sm p] busy by (auto simp: find_queue_def Let_def)
qed

theorem get_next_correct:
  assumes ok: "handler_core s" and sm: "handler_small s"
    and work: "unblocked_work s > 0 \<or> total_marked s > 0"
  obtains s' q where "get_next_queue_with_work s = Some (s', q)" "handler_core s'"
    "s' = s\<lparr>current_priority := q_priority (h_queues s q),
            queueIters := (queueIters s)(q_priority (h_queues s q) \<mapsto> q)\<rparr>"
    "q \<in> live_queues s" "queue_eligible (h_queues s q)"
    "\<And>r. r \<in> live_queues s \<Longrightarrow> queue_eligible (h_queues s r) \<Longrightarrow>
       q_priority (h_queues s r) \<le> q_priority (h_queues s q)"
proof -
  note wf = handler_coreD [OF ok]
  from find_level_correct [OF ok sm busy_level [OF ok sm work]]
  obtain p where p: "p \<in> set (level_order s)" "find_level s = Some p" "\<not> level_idle s p"
    "\<forall>p'\<in>set (level_order s). p' > p \<longrightarrow> level_idle s p'" by auto
  from find_queue_correct [OF ok sm p(1,3)] obtain q where q: "q \<in> set (work_queues (h_levels s p))"
    "find_queue s p = Some q" "queue_eligible (h_queues s q)" by auto
  have qp: "q_priority (h_queues s q) = p" "q \<in> live_queues s"
    using wf(1) p(1) q(1) by (auto simp: wf_levels_def live_queues_def)
  have top: "q_priority (h_queues s r) \<le> p" if "r \<in> live_queues s" "queue_eligible (h_queues s r)" for r
    using live_priority [OF wf(1) that(1)] level_idle_iff [OF ok sm] p(4) that(2)
    by (metis not_le)
  let ?s = "s\<lparr>current_priority := p, queueIters := (queueIters s)(p \<mapsto> q)\<rparr>"
  have live: "live_queues ?s = live_queues s" and qd: "queued ?s = queued s"
    by (auto simp: live_queues_def queued_def)
  have "wf_levels ?s" using wf(1) p(1) by (simp add: wf_levels_def)
  moreover have "wf_names ?s" "wf_default ?s" "wf_counts ?s" "wf_sizes ?s" "wf_works ?s"
    using wf by (simp_all add: wf_names_def wf_default_def wf_counts_def wf_sizes_def wf_works_def live qd)
  moreover have "wf_iters ?s" using wf(4) p(1) q(1) by (auto simp: wf_iters_def)
  moreover have "wf_priority ?s" using top by (force simp: wf_priority_def live)
  ultimately have "handler_core ?s" by (simp add: handler_core_def)
  with p(2) q qp top show thesis
    by (intro that [of ?s q]) (auto simp: get_next_queue_with_work_def)
qed

section \<open>Removing a queue\<close>

lemma next_cycle_desc:
  assumes srt: "sorted_wrt (>) xs" and p: "p \<in> set xs" and r: "r \<in> set xs" "r \<noteq> (p::int)"
  shows "next_cycle p xs \<in> set xs \<and> next_cycle p xs \<noteq> p \<and>
         (\<forall>x\<in>set xs. x > next_cycle p xs \<longrightarrow> x \<ge> p)"
proof -
  have d: "distinct xs" using srt by (rule distinct_desc)
  from p obtain i where i: "i < length xs" "p = xs ! i" by (auto simp: in_set_conv_nth)
  from r obtain j where j: "j < length xs" "r = xs ! j" "j \<noteq> i" using i by (auto simp: in_set_conv_nth)
  then have len: "length xs > 1" using i by linarith
  let ?k = "Suc i mod length xs"
  have k: "?k < length xs" using len by (intro mod_less_divisor) auto
  have "?k \<noteq> i" using len i(1) by (cases "Suc i = length xs") auto
  then have ne: "xs ! ?k \<noteq> p" using d i k by (simp add: nth_eq_iff_index_eq)
  have top: "x \<ge> p" if "x \<in> set xs" "x > xs ! ?k" for x
  proof -
    from that(1) obtain m where m: "m < length xs" "x = xs ! m" by (auto simp: in_set_conv_nth)
    have "m < ?k"
    proof (rule ccontr)
      assume "\<not> m < ?k"
      then consider "m = ?k" | "?k < m" by linarith
      then have "x \<le> xs ! ?k" using srt m by cases (auto simp: sorted_wrt_iff_nth_less less_imp_le)
      with that(2) show False by simp
    qed
    then have "m \<le> i" by (metis less_Suc_eq_le mod_less_eq_dividend order_less_le_trans)
    then consider "m = i" | "m < i" by linarith
    then show ?thesis using srt i m by cases (auto simp: sorted_wrt_iff_nth_less less_imp_le)
  qed
  from next_cycle_nth [OF d i(1)] have nc: "next_cycle p xs = xs ! ?k" by (simp add: i(2))
  show ?thesis unfolding nc using k ne top by (auto simp: nth_mem)
qed

lemma sorted_wrt_remove1: "sorted_wrt P xs \<Longrightarrow> sorted_wrt P (remove1 x xs)"
  by (induction xs) (auto dest: notin_set_remove1)

lemma remove_queue_internal_core:
  assumes ok: "handler_core s" and q: "q \<in> live_queues s"
    and cur: "q_priority (h_queues s q) = current_priority s"
    and gone: "q_marked (h_queues s q)" "\<not> q_blocked (h_queues s q)" "q_queue (h_queues s q) = []"
  shows "handler_core (remove_queue_internal q s)"
proof -
  let ?s = "remove_queue_internal q s"
  note wf = handler_coreD [OF ok]
  define p where "p = current_priority s"
  define wqs where "wqs = work_queues (h_levels s p)"
  have p: "p \<in> set (level_order s)" "q \<in> set wqs"
    using live_priority [OF wf(1) q] cur by (simp_all add: p_def wqs_def)
  have dq: "distinct wqs" using wf(1) p(1) by (simp add: wf_levels_def wqs_def)
  have srt: "sorted_wrt (>) (level_order s)" using wf(1) by (simp add: wf_levels_def)
  have dl: "distinct (level_order s)" using distinct_desc [OF srt] .
  have mem: "q' \<in> set (work_queues (h_levels s p')) \<Longrightarrow> p' \<in> set (level_order s)
      \<Longrightarrow> q_priority (h_queues s q') = p'" for p' q'
    using wf(1) by (simp add: wf_levels_def)
  let ?last = "remove1 q wqs = []"
  have eqs: "h_queues ?s = h_queues s" "h_works ?s = h_works s" "next_qid ?s = next_qid s"
    "next_wid ?s = next_wid s" "timeoutQueue ?s = timeoutQueue s" "timedOutQueue ?s = timedOutQueue s"
    "total_size ?s = total_size s" "total_work ?s = total_work s" "unblocked_work ?s = unblocked_work s"
    "total_marked ?s = total_marked s - 1"
    "queue_map ?s = (queue_map s)(q_name (h_queues s q) := None)"
    "level_order ?s = (if ?last then remove1 p (level_order s) else level_order s)"
    "current_priority ?s = (if ?last then next_cycle p (level_order s) else p)"
    "h_levels ?s = (h_levels s)(p := (h_levels s p)\<lparr>work_queues := remove1 q wqs,
                       marked_count := marked_count (h_levels s p) - 1\<rparr>)"
    "queueIters ?s = (queueIters s)(p := (if ?last then None else Some (next_cycle q wqs)))"
    by (simp_all add: remove_queue_internal_def Let_def p_def wqs_def)
  have lv: "p' \<in> set (level_order ?s) \<longleftrightarrow> p' \<in> set (level_order s) \<and> (p' = p \<longrightarrow> \<not> ?last)" for p'
    using dl by (auto simp: eqs)
  have wq: "set (work_queues (h_levels ?s p')) = set (work_queues (h_levels s p')) - {q}"
    if "p' \<in> set (level_order s)" for p'
  proof (cases "p' = p")
    case True
    with dq show ?thesis by (simp add: eqs) (simp add: wqs_def)
  next
    case False
    with mem [OF _ that, of q] cur have "q \<notin> set (work_queues (h_levels s p'))"
      by (auto simp: p_def)
    with False show ?thesis by (simp add: eqs)
  qed
  have lastE: "set wqs = {q}" if "?last" using that p(2) dq
    by (metis empty_set insert_Diff set_remove1_eq)
  have live: "live_queues ?s = live_queues s - {q}"
  proof -
    have "live_queues ?s = (\<Union>p'\<in>set (level_order s) - (if ?last then {p} else {}).
            set (work_queues (h_levels s p')) - {q})"
      unfolding live_queues_def using lv wq by (intro SUP_cong) (auto split: if_splits)
    also have "\<dots> = live_queues s - {q}"
      unfolding live_queues_def using lastE by (auto simp: wqs_def split: if_splits)
    finally show ?thesis .
  qed
  have nil: "unblocked_of (h_queues s q) = 0" "marked_of (h_queues s q) = (1::'c::ring_1)"
    using gone by (simp_all add: unblocked_of_def marked_of_def)
  have sums: "(\<Sum>x\<in>live_queues ?s. f (h_queues ?s x)) = (\<Sum>x\<in>live_queues s. f (h_queues s x)) - f (h_queues s q)"
    for f :: "work_queue \<Rightarrow> 'c::ab_group_add"
    using q by (simp add: live eqs sum.remove [of _ q])
  have other: "\<exists>r\<in>set (level_order s). r \<noteq> p" if "?last"
  proof -
    from wf(3) obtain d where d: "queue_map s '''' = Some d" "\<not> q_marked (h_queues s d)"
      by (auto simp: wf_default_def)
    with gone have "d \<noteq> q" by auto
    with mapped_live [OF wf(2) d(1)] lastE [OF that] show ?thesis
      using live_priority [OF wf(1), of d] by (auto simp: wqs_def)
  qed
  have cp: "current_priority ?s \<in> set (level_order ?s)"
  proof (cases ?last)
    case True
    with other [OF True] obtain r where "r \<in> set (level_order s)" "r \<noteq> p" by auto
    from next_cycle_desc [OF srt p(1) this] True dl show ?thesis by (simp add: eqs)
  next
    case False
    with p(1) show ?thesis by (simp add: eqs)
  qed
  have "wf_levels ?s"
    unfolding wf_levels_def
  proof (intro conjI ballI cp)
    show "sorted_wrt (>) (level_order ?s)"
      using srt by (simp add: eqs sorted_wrt_remove1)
    fix p' assume p': "p' \<in> set (level_order ?s)"
    then have p0: "p' \<in> set (level_order s)" by (simp add: lv)
    show "distinct (work_queues (h_levels ?s p'))"
      using wf(1) p0 dq by (simp add: eqs wf_levels_def)
    show "work_queues (h_levels ?s p') \<noteq> []"
      using wf(1) p0 p' by (auto simp: lv) (auto simp: eqs wf_levels_def split: if_splits)
    fix q' assume "q' \<in> set (work_queues (h_levels ?s p'))"
    with wq [OF p0] have "q' \<in> set (work_queues (h_levels s p'))" by simp
    then show "q_priority (h_queues ?s q') = p'" "q' < next_qid ?s"
      using wf(1) p0 by (simp_all add: eqs wf_levels_def)
  qed
  moreover have "wf_names ?s"
  proof -
    have "q' = q" if "q' \<in> live_queues s" "q_name (h_queues s q') = q_name (h_queues s q)" for q'
      using wf(2) q that by (metis option.inject wf_names_def)
    with wf(2) q show ?thesis by (auto simp: wf_names_def live eqs)
  qed
  moreover have "wf_default ?s"
  proof -
    from wf(3) obtain d Q0 where d: "queue_map s Q0 = Some d" "\<not> q_marked (h_queues s d)" "Q0 = ''''"
      by (auto simp: wf_default_def)
    moreover have "queue_map s (q_name (h_queues s q)) = Some q" using wf(2) q by (simp add: wf_names_def)
    ultimately have "q_name (h_queues s q) \<noteq> Q0" using gone(1) by auto
    with d show ?thesis by (auto simp: wf_default_def eqs)
  qed
  moreover have "wf_iters ?s"
  proof -
    have "next_cycle q wqs \<in> set (remove1 q wqs)" if "\<not> ?last"
    proof -
      from that obtain r where "r \<in> set wqs" "r \<noteq> q" using dq
        by (metis Diff_iff insertI1 list.set_intros(1) neq_Nil_conv set_remove1_eq)
      from p(2) obtain i where i: "i < length wqs" "q = wqs ! i" by (auto simp: in_set_conv_nth)
      from \<open>r \<in> set wqs\<close> \<open>r \<noteq> q\<close> i have len: "length wqs > 1"
        by (auto simp: in_set_conv_nth) (metis One_nat_def less_one linorder_neqE_nat not_less_zero less_Suc_eq)
      then have "Suc i mod length wqs \<noteq> i" using i(1) by (cases "Suc i = length wqs") auto
      moreover have "Suc i mod length wqs < length wqs" using len by (intro mod_less_divisor) auto
      ultimately have "wqs ! (Suc i mod length wqs) \<noteq> q" using dq i by (simp add: nth_eq_iff_index_eq)
      then show ?thesis using next_cycle_in [OF dq p(2)] dq next_cycle_nth [OF dq i(1)] i(2)
        by (metis Diff_iff set_remove1_eq singletonD)
    qed
    moreover have "x \<in> set (work_queues (h_levels s p'))" "p' \<in> set (level_order s)"
      if "queueIters s p' = Some x" for p' x using wf(4) that by (simp_all add: wf_iters_def)
    ultimately show ?thesis using p(1) lv wq by (auto simp: wf_iters_def eqs split: if_splits)
  qed
  moreover have "wf_counts ?s"
  proof -
    have "unblocked_work_count (h_levels ?s p') =
            (\<Sum>x\<in>set (work_queues (h_levels ?s p')). unblocked_of (h_queues ?s x)) \<and>
          marked_count (h_levels ?s p') =
            (\<Sum>x\<in>set (work_queues (h_levels ?s p')). marked_of (h_queues ?s x))"
      if "p' \<in> set (level_order ?s)" for p'
    proof (cases "p' = p")
      case True
      have "(\<Sum>x\<in>set wqs - {q}. f (h_queues s x)) = (\<Sum>x\<in>set wqs. f (h_queues s x)) - f (h_queues s q)"
        for f :: "work_queue \<Rightarrow> u64" using p(2) by (simp add: sum.remove [of _ q])
      with wf(5) p(1) True dq nil show ?thesis by (simp add: wf_counts_def eqs) (simp add: wqs_def)
    next
      case False
      with wf(5) that show ?thesis by (simp add: wf_counts_def lv) (simp add: eqs)
    qed
    moreover have "unblocked_work ?s = (\<Sum>x\<in>live_queues ?s. unblocked_of (h_queues ?s x))"
      "total_marked ?s = (\<Sum>x\<in>live_queues ?s. marked_of (h_queues ?s x))"
      unfolding sums nil eqs(9,10) using wf(5) by (simp_all add: wf_counts_def)
    ultimately show ?thesis unfolding wf_counts_def by blast
  qed
  moreover have "wf_priority ?s"
    unfolding wf_priority_def
  proof (intro ballI impI)
    fix r assume "r \<in> live_queues ?s" "q_priority (h_queues ?s r) > current_priority ?s"
    then have r: "r \<in> live_queues s" "r \<noteq> q" "q_priority (h_queues s r) > current_priority ?s"
      by (auto simp: live eqs(1))
    note rp = live_priority [OF wf(1) r(1)]
    have "q_priority (h_queues s r) > p"
    proof (cases ?last)
      case True
      from other [OF True] obtain x where "x \<in> set (level_order s)" "x \<noteq> p" by auto
      from next_cycle_desc [OF srt p(1) this] rp r(3) True have "q_priority (h_queues s r) \<ge> p"
        by (auto simp: eqs)
      moreover have "q_priority (h_queues s r) \<noteq> p" using rp lastE [OF True] r(2) by (auto simp: wqs_def)
      ultimately show ?thesis by simp
    next
      case False
      with r(3) show ?thesis by (simp add: eqs)
    qed
    with wf(6) r(1) show "\<not> queue_eligible (h_queues ?s r)" by (simp add: wf_priority_def p_def eqs(1))
  qed
  moreover have "wf_sizes ?s"
  proof -
    have "q_size (h_queues s q) = 0" using wf(7) q gone by (simp add: wf_sizes_def)
    then have "(\<Sum>x\<in>live_queues ?s. q_size (h_queues ?s x)) = (\<Sum>x\<in>live_queues s. q_size (h_queues s x))"
      "(\<Sum>x\<in>live_queues ?s. int (length (q_queue (h_queues ?s x))))
        = (\<Sum>x\<in>live_queues s. int (length (q_queue (h_queues s x))))"
      using sums [of q_size] sums [of "\<lambda>wq. int (length (q_queue wq))"] gone by simp_all
    with wf(7) show ?thesis by (simp add: wf_sizes_def live) (simp add: eqs)
  qed
  moreover have "wf_works ?s"
  proof -
    have "queued ?s w = queued s w" for w using gone by (auto simp: queued_def live eqs(1))
    with wf(8) show ?thesis unfolding wf_works_def live eqs(1-6) by auto
  qed
  ultimately show ?thesis by (simp add: handler_core_def)
qed

end
