(* ===== verification/Handler_Props.thy ===== *)
theory Handler_Props
  imports Handler_Inv
begin

text \<open>
  The handler as a transition system: any thread may take any of its critical sections next.
  The properties: the invariant holds in every reachable state, the work thread finds the
  highest-priority work and never spins, work of one queue completes in the order it was
  posted, the size limits hold; and the two ways the counters go wrong.
\<close>

section \<open>The transition system\<close>

text \<open>
  A worker step needs the work thread, which start creates, between two iterations. The steps carry
  two side conditions on the clients, which the code does not check and whose failure the last
  section shows: a queue is removed once, and no work of a blocked queue times out.
\<close>

definition worker_idle :: "handler \<Rightarrow> bool" where
  "worker_idle s \<longleftrightarrow> h_running s = None \<and> h_state s \<noteq> PRESTART \<and> h_state s \<noteq> INVALID"

inductive handler_op :: "handler \<Rightarrow> handler \<Rightarrow> bool" where
  op_create: "create_queue s name p = Inr t \<Longrightarrow> handler_op s t"
| op_post: "post s name sz blocking now ts cb = Inr (t, r) \<Longrightarrow> handler_op s t"
| op_post_again: "post_locked s name sz blocking ts cb = Inr (t, r) \<Longrightarrow> sz \<le> max_queue_size s
     \<Longrightarrow> sz \<le> max_total_size s \<Longrightarrow> handler_op s t"
| op_remove: "remove_queue s name = Inr t
     \<Longrightarrow> (\<And>q. queue_map s name = Some q \<Longrightarrow> \<not> q_marked (h_queues s q)) \<Longrightarrow> handler_op s t"
| op_unblock: "handler_op s (unblock_queue s name)"
| op_timeout: "timeout_thread_step now s = (t, True) \<Longrightarrow> handler_op s t"
| op_next: "work_thread_begin s = Next t \<Longrightarrow> worker_idle s
     \<Longrightarrow> (\<And>w. w \<in> set (timedOutQueue s) \<Longrightarrow> \<not> q_blocked (h_queues s (w_queue (h_works s w))))
     \<Longrightarrow> handler_op s t"
| op_run: "work_thread_begin s = Run t \<Longrightarrow> worker_idle s \<Longrightarrow> handler_op s t"
| op_finish: "h_running s \<noteq> None \<Longrightarrow> handler_op s (work_thread_end success s)"
| op_start: "start s = Inr t \<Longrightarrow> handler_op s t"
| op_stop: "stop_begin s = (t, st) \<Longrightarrow> handler_op s t"
| op_stop_immediate: "stop_immediate_begin s = (t, st) \<Longrightarrow> handler_op s t"

definition handler_step :: "handler \<Rightarrow> handler \<Rightarrow> bool" where
  "handler_step s t \<longleftrightarrow> handler_op s t \<and> handler_small s \<and> handler_small t"

definition handler_start :: "handler \<Rightarrow> bool" where
  "handler_start s \<longleftrightarrow> (\<exists>mq mt. s = new_handler mq mt)"

definition limits_ok :: "handler \<Rightarrow> bool" where
  "limits_ok s \<longleftrightarrow> unat (max_queue_size s) < 2 ^ 63 \<and> unat (max_total_size s) < 2 ^ 63"

section \<open>Each operation keeps the invariant\<close>

lemma running_frame:
  assumes "wf_running s" "h_running t = h_running s"
    "\<And>p w q. h_running s = Some (p, w) \<Longrightarrow> queueIters s p = Some q \<Longrightarrow> queueIters t p = Some q
       \<and> (\<exists>ws. q_queue (h_queues t q) = q_queue (h_queues s q) @ ws)
       \<and> (q_blocked (h_queues t q) \<longrightarrow> q_blocked (h_queues s q))"
  shows "wf_running t"
  unfolding wf_running_def
proof (intro allI impI)
  fix p w assume "h_running t = Some (p, w)"
  with assms(2) have rs: "h_running s = Some (p, w)" by simp
  with assms(1) obtain q ws where q: "queueIters s p = Some q" "q_queue (h_queues s q) = w # ws"
    "\<not> q_blocked (h_queues s q)"
    unfolding wf_running_def by blast
  with assms(3) [OF rs] show "\<exists>q ws. queueIters t p = Some q \<and> q_queue (h_queues t q) = w # ws
      \<and> \<not> q_blocked (h_queues t q)" by fastforce
qed

lemma new_handler_ok: "handler_ok (new_handler mq mt)"
proof -
  have live: "live_queues (new_handler mq mt) = {0}"
    by (simp add: live_queues_def new_handler_def emplace_queue_def emplace_level_def Let_def
        new_priority_level_def)
  show ?thesis
    unfolding handler_ok_def handler_core_def wf_levels_def wf_names_def wf_default_def wf_iters_def
      wf_counts_def wf_priority_def wf_sizes_def wf_works_def wf_running_def queued_def live
    by (auto simp: new_handler_def emplace_queue_def emplace_level_def Let_def new_priority_level_def
        new_work_queue_def unblocked_of_def marked_of_def queue_eligible_def)
qed

lemma core_frame:
  assumes "handler_core s" "level_order t = level_order s" "h_levels t = h_levels s"
    "h_queues t = h_queues s" "queue_map t = queue_map s" "next_qid t = next_qid s"
    "current_priority t = current_priority s" "queueIters t = queueIters s"
    "unblocked_work t = unblocked_work s" "total_marked t = total_marked s"
    "total_size t = total_size s" "total_work t = total_work s" "next_wid t = next_wid s"
    "timeoutQueue t = timeoutQueue s" "timedOutQueue t = timedOutQueue s"
    "\<And>w. w_size (h_works t w) = w_size (h_works s w) \<and> w_queue (h_works t w) = w_queue (h_works s w)
      \<and> w_timeout (h_works t w) = w_timeout (h_works s w)
      \<and> w_in_timeout (h_works t w) = w_in_timeout (h_works s w)
      \<and> w_in_timed_out (h_works t w) = w_in_timed_out (h_works s w)"
  shows "handler_core t"
proof -
  have live: "live_queues t = live_queues s" and qd: "queued t w = queued s w" for w
    by (simp_all add: live_queues_def queued_def assms(2-15))
  have "wf_levels t = wf_levels s" "wf_names t = wf_names s" "wf_default t = wf_default s"
    "wf_iters t = wf_iters s" "wf_counts t = wf_counts s" "wf_priority t = wf_priority s"
    "wf_sizes t = wf_sizes s" "wf_works t = wf_works s"
    by (simp_all add: wf_levels_def wf_names_def wf_default_def wf_iters_def wf_counts_def
        wf_priority_def wf_sizes_def wf_works_def live qd assms(2-16))
  with assms(1) show ?thesis by (simp add: handler_core_def)
qed

lemma flag_ok:
  assumes "handler_ok s"
  shows "handler_ok (s\<lparr>h_state := st\<rparr>)" "handler_ok (s\<lparr>unblock_list := ns\<rparr>)"
    "handler_ok (s\<lparr>h_log := l\<rparr>)"
proof -
  have c: "handler_core s" and r: "wf_running s" using assms by (simp_all add: handler_ok_def)
  from r have "wf_running (s\<lparr>h_state := st\<rparr>)" "wf_running (s\<lparr>unblock_list := ns\<rparr>)"
    "wf_running (s\<lparr>h_log := l\<rparr>)" by (simp_all add: wf_running_def)
  then show "handler_ok (s\<lparr>h_state := st\<rparr>)" "handler_ok (s\<lparr>unblock_list := ns\<rparr>)"
    "handler_ok (s\<lparr>h_log := l\<rparr>)"
    unfolding handler_ok_def using c by (auto intro!: core_frame [OF c])
qed

lemma post_locked_ok:
  assumes "handler_ok s" "post_locked s name sz blocking ts cb = Inr (t, r)"
  shows "handler_ok t"
proof -
  have wn: "wf_names s" using assms(1) by (simp add: handler_ok_def handler_core_def)
  from assms(2) obtain q st where c: "post_cond s name sz = Inr (q, st)"
    by (auto simp: post_locked_def split: sum.splits)
  have "t = s \<or> post_insert s q sz ts cb = Inr t"
    using assms(2) c by (auto simp: post_locked_def split: if_splits sum.splits)
  with post_cond_OK [OF c wn] assms(1) show ?thesis by (auto intro: post_insert_ok)
qed

lemma post_ok:
  assumes "handler_ok s" "post s name sz blocking now ts cb = Inr (t, r)"
  shows "handler_ok t"
  using assms by (auto simp: post_def flag_ok split: if_splits intro: post_locked_ok)

lemma create_queue_ok:
  assumes "handler_ok s" "create_queue s name p = Inr t"
  shows "handler_ok t"
proof -
  have core: "handler_core s" and run: "wf_running s" using assms(1) by (simp_all add: handler_ok_def)
  have "wf_running t"
  proof (rule running_frame [OF run])
    fix p' w q assume "h_running s = Some (p', w)" "queueIters s p' = Some q"
    then have "q \<in> live_queues s" using handler_coreD(4) [OF core]
      by (auto simp: wf_iters_def live_queues_def)
    then have "q \<noteq> next_qid s" using live_lt [OF handler_coreD(1) [OF core]] by auto
    with \<open>queueIters s p' = Some q\<close> show "queueIters t p' = Some q
       \<and> (\<exists>ws. q_queue (h_queues t q) = q_queue (h_queues s q) @ ws)
       \<and> (q_blocked (h_queues t q) \<longrightarrow> q_blocked (h_queues s q))"
      by (simp add: create_queue_fields [OF assms(2)])
  qed (simp add: create_queue_fields [OF assms(2)])
  with create_queue_core [OF core assms(2)] show ?thesis by (simp add: handler_ok_def)
qed

lemma remove_queue_fields:
  assumes "remove_queue s name = Inr t"
  shows "h_running t = h_running s" "queueIters t = queueIters s"
    "q_queue (h_queues t q) = q_queue (h_queues s q)" "q_blocked (h_queues t q) = q_blocked (h_queues s q)"
    "h_log t = h_log s" "next_wid t = next_wid s" "h_works t = h_works s"
    "max_queue_size t = max_queue_size s" "max_total_size t = max_total_size s" "same_shape s t"
  using assms
  by (auto simp: remove_queue_def Let_def same_shape_def dest!: raise_priority_frame
      split: if_splits option.splits)

lemma remove_queue_ok:
  assumes "handler_ok s" "remove_queue s name = Inr t"
    "\<And>q. queue_map s name = Some q \<Longrightarrow> \<not> q_marked (h_queues s q)"
  shows "handler_ok t"
  using assms(1) remove_queue_core [OF _ assms(2,3)]
  by (auto simp: handler_ok_def remove_queue_fields [OF assms(2)] intro: running_frame)

lemma timeout_thread_ok:
  assumes "handler_ok s" "timeout_thread_step now s = (t, b)"
  shows "handler_ok t"
  using assms move_timed_out_core [of s]
  by (auto simp: handler_ok_def timeout_thread_step_def wf_running_def move_timed_out_fields
      split: if_splits)

lemma unblock_all_core:
  assumes "handler_core s"
  shows "\<exists>t. unblock_all ns s = Inr t \<and> handler_core t \<and> h_running t = h_running s \<and>
    same_shape s t \<and> h_works t = h_works s \<and> next_wid t = next_wid s \<and> h_log t = h_log s \<and>
    (\<forall>q. q_queue (h_queues t q) = q_queue (h_queues s q)) \<and>
    max_queue_size t = max_queue_size s \<and> max_total_size t = max_total_size s"
  using assms
proof (induction ns arbitrary: s)
  case (Cons n ns)
  from unblock_queue_internal_total [OF Cons.prems, of n] obtain u where
    u: "unblock_queue_internal n s = Inr u" by auto
  from Cons.IH [OF unblock_queue_internal_core [OF Cons.prems u]] u show ?case
    using same_shape_trans [OF unblock_queue_internal_fields(14) [OF u]]
    by (auto simp: unblock_queue_internal_fields(1-12) [OF u])
qed (simp add: same_shape_def)

lemma remove_queue_internal_fields:
  "h_running (remove_queue_internal q s) = h_running s" "h_log (remove_queue_internal q s) = h_log s"
  "h_works (remove_queue_internal q s) = h_works s" "next_wid (remove_queue_internal q s) = next_wid s"
  "h_queues (remove_queue_internal q s) = h_queues s"
  "max_queue_size (remove_queue_internal q s) = max_queue_size s"
  "max_total_size (remove_queue_internal q s) = max_total_size s"
  by (simp_all add: remove_queue_internal_def Let_def)

lemma remove_queue_internal_live:
  "live_queues (remove_queue_internal q s) \<subseteq> live_queues s"
  by (auto simp: live_queues_def remove_queue_internal_def Let_def split: if_splits
      dest!: notin_set_remove1 [rotated])
    (meson notin_set_remove1)+

text \<open>What one iteration of the worker does when it has to serve a queue.\<close>

lemma serve_queue_cases:
  assumes ok: "handler_ok s" and sm: "handler_small s"
    and busy: "unblocked_work s > 0 \<or> total_marked s > 0"
  obtains (serve) q w ws u where
    "serve_queue s = Run (u\<lparr>h_works := (h_works u)(w := (h_works u w)\<lparr>w_running := True\<rparr>),
                            h_running := Some (q_priority (h_queues s q), w)\<rparr>)"
    "u = s\<lparr>current_priority := q_priority (h_queues s q),
            queueIters := (queueIters s)(q_priority (h_queues s q) \<mapsto> q)\<rparr>"
    "handler_core u" "q \<in> live_queues s" "q_queue (h_queues s q) = w # ws"
    "\<not> q_blocked (h_queues s q)"
    "\<And>r. r \<in> live_queues s \<Longrightarrow> queue_eligible (h_queues s r) \<Longrightarrow>
       q_priority (h_queues s r) \<le> q_priority (h_queues s q)"
  | (remove) q u where "serve_queue s = Next (remove_queue_internal q u)"
    "u = s\<lparr>current_priority := q_priority (h_queues s q),
            queueIters := (queueIters s)(q_priority (h_queues s q) \<mapsto> q)\<rparr>"
    "handler_core (remove_queue_internal q u)" "q \<in> live_queues s"
    "q_queue (h_queues s q) = []" "q_marked (h_queues s q)"
proof -
  have core: "handler_core s" using ok by (simp add: handler_ok_def)
  from get_next_correct [OF core sm busy] obtain u q where
    n: "get_next_queue_with_work s = Some (u, q)" "handler_core u"
    "u = s\<lparr>current_priority := q_priority (h_queues s q),
            queueIters := (queueIters s)(q_priority (h_queues s q) \<mapsto> q)\<rparr>"
    "q \<in> live_queues s" "queue_eligible (h_queues s q)"
    "\<And>r. r \<in> live_queues s \<Longrightarrow> queue_eligible (h_queues s r) \<Longrightarrow>
       q_priority (h_queues s r) \<le> q_priority (h_queues s q)" by metis
  show thesis
  proof (cases "q_queue (h_queues s q)")
    case (Cons w ws)
    with n show thesis
      by (intro serve [where q = q and w = w and ws = ws and u = u]) (auto simp: serve_queue_def queue_eligible_def)
  next
    case Nil
    with n(5) have m: "q_marked (h_queues s q)" "\<not> q_blocked (h_queues s q)"
      by (auto simp: queue_eligible_def)
    have "q \<in> live_queues u" using n(3,4) by (simp add: live_queues_def)
    with n(2,3) Nil m have "handler_core (remove_queue_internal q u)"
      by (intro remove_queue_internal_core) auto
    with n Nil m show thesis by (intro remove [where q = q and u = u]) (auto simp: serve_queue_def)
  qed
qed

lemma worker_has_work:
  assumes "work_thread_ready s" "unblock_list s = []" "timedOutQueue s = []" "worker_idle s"
    "\<not> (h_state s = STOPPED \<or> (h_state s = STOPPING \<and> unblocked_work s = 0))"
  shows "unblocked_work s > 0 \<or> total_marked s > 0"
  using assms by (cases "h_state s") (auto simp: work_thread_ready_def worker_idle_def word_greater_zero_iff)

lemma work_next_ok:
  assumes ok: "handler_ok s" and sm: "handler_small s" and idle: "worker_idle s"
    and nb: "\<And>w. w \<in> set (timedOutQueue s) \<Longrightarrow> \<not> q_blocked (h_queues s (w_queue (h_works s w)))"
    and nx: "work_thread_begin s = Next t"
  shows "handler_ok t \<and> h_running t = None"
proof -
  have core: "handler_core s" using ok by (simp add: handler_ok_def)
  have run: "h_running s = None" using idle by (simp add: worker_idle_def)
  have "handler_core t \<and> h_running t = None"
  proof (cases "unblock_list s = []")
    case False
    from unblock_all_core [OF core, of "unblock_list s"] obtain u where
      u: "unblock_all (unblock_list s) s = Inr u" "handler_core u" "h_running u = None"
      using run by auto
    with nx False have "t = u\<lparr>unblock_list := []\<rparr>"
      by (auto simp: work_thread_begin_def unblock_queues_internal_def split: if_splits)
    with u show ?thesis by (auto intro: core_frame [OF u(2)])
  next
    case no_unblock: True
    show ?thesis
    proof (cases "timedOutQueue s = []")
      case False
      with nx no_unblock have "t = fold remove_work_internal (timedOutQueue s) s"
        by (auto simp: work_thread_begin_def split: if_splits)
      moreover have "h_running (fold remove_work_internal ws u) = h_running u" for ws u
        by (induction ws arbitrary: u) (simp_all add: remove_work_internal_fields)
      ultimately show ?thesis using fold_remove_work_core [OF core refl nb] run by simp
    next
      case True
      with nx no_unblock have sv: "serve_queue s = Next t" and w: "work_thread_ready s"
        "\<not> (h_state s = STOPPED \<or> (h_state s = STOPPING \<and> unblocked_work s = 0))"
        by (auto simp: work_thread_begin_def split: if_splits)
      from serve_queue_cases [OF ok sm worker_has_work [OF w(1) no_unblock True idle w(2)]]
      show ?thesis using sv run by cases (auto simp: remove_queue_internal_fields)
    qed
  qed
  then show ?thesis by (simp add: handler_ok_def wf_running_def)
qed

lemma work_run_cases:
  assumes ok: "handler_ok s" and sm: "handler_small s" and idle: "worker_idle s"
    and rn: "work_thread_begin s = Run t"
  obtains q w ws s1 where
    "t = s1\<lparr>h_works := (h_works s1)(w := (h_works s1 w)\<lparr>w_running := True\<rparr>),
            h_running := Some (q_priority (h_queues s q), w)\<rparr>"
    "s1 = s\<lparr>current_priority := q_priority (h_queues s q),
            queueIters := (queueIters s)(q_priority (h_queues s q) \<mapsto> q)\<rparr>"
    "handler_core s1" "q \<in> live_queues s" "q_queue (h_queues s q) = w # ws"
    "\<not> q_blocked (h_queues s q)"
    "\<And>r. r \<in> live_queues s \<Longrightarrow> queue_eligible (h_queues s r) \<Longrightarrow>
       q_priority (h_queues s r) \<le> q_priority (h_queues s q)"
proof -
  from rn have sv: "serve_queue s = Run t" and w: "work_thread_ready s" "unblock_list s = []"
    "timedOutQueue s = []"
    "\<not> (h_state s = STOPPED \<or> (h_state s = STOPPING \<and> unblocked_work s = 0))"
    by (auto simp: work_thread_begin_def split: if_splits sum.splits)
  from serve_queue_cases [OF ok sm worker_has_work [OF w(1-3) idle w(4)]] sv that
  show thesis by cases auto
qed

lemma work_run_ok:
  assumes "handler_ok s" "handler_small s" "worker_idle s" "work_thread_begin s = Run t"
  shows "handler_ok t"
proof -
  from work_run_cases [OF assms] obtain q w ws s1 where
    t: "t = s1\<lparr>h_works := (h_works s1)(w := (h_works s1 w)\<lparr>w_running := True\<rparr>),
            h_running := Some (q_priority (h_queues s q), w)\<rparr>"
    "s1 = s\<lparr>current_priority := q_priority (h_queues s q),
            queueIters := (queueIters s)(q_priority (h_queues s q) \<mapsto> q)\<rparr>"
    "handler_core s1" "q_queue (h_queues s q) = w # ws" "\<not> q_blocked (h_queues s q)" by metis
  have "handler_core t" unfolding t(1) by (rule core_frame [OF t(3)]) simp_all
  moreover have "wf_running t" using t by (simp add: wf_running_def)
  ultimately show ?thesis by (simp add: handler_ok_def)
qed

lemma work_end_cases:
  assumes ok: "handler_ok s" and run: "h_running s = Some (p, w)"
  obtains q ws s1 where "queueIters s p = Some q" "q_queue (h_queues s q) = w # ws"
    "\<not> q_blocked (h_queues s q)" "q \<in> live_queues s"
    "s1 = (if success then pop_queue_internal q s else block_queue_internal q s)" "handler_core s1"
    "work_thread_end success s = s1\<lparr>
       queueIters := (queueIters s1)(p \<mapsto> next_cycle q (work_queues (h_levels s p))),
       h_running := None, h_log := h_log s1 @ [Ran w success]\<rparr>" "q_priority (h_queues s q) = p"
proof -
  have core: "handler_core s" using ok by (simp add: handler_ok_def)
  note wf = handler_coreD [OF core]
  from ok run obtain q ws where q: "queueIters s p = Some q" "q_queue (h_queues s q) = w # ws"
    "\<not> q_blocked (h_queues s q)" by (auto simp: handler_ok_def wf_running_def)
  with wf(4) have lv: "q \<in> live_queues s" "p \<in> set (level_order s)"
    "q \<in> set (work_queues (h_levels s p))" by (auto simp: wf_iters_def live_queues_def)
  with wf(1) have pr: "q_priority (h_queues s q) = p" by (simp add: wf_levels_def)
  define s1 where "s1 = (if success then pop_queue_internal q s else block_queue_internal q s)"
  have "handler_core s1" using core lv q
    by (auto simp: s1_def intro: pop_queue_internal_core block_queue_internal_core)
  moreover have "same_shape s s1"
    by (auto simp: s1_def pop_queue_internal_def uncount_work_def block_queue_internal_def Let_def same_shape_def)
  then have "work_queues (h_levels s1 (q_priority (h_queues s1 q))) = work_queues (h_levels s p)"
    using pr by (simp add: same_shape_def)
  then have "work_thread_end success s = s1\<lparr>
       queueIters := (queueIters s1)(p \<mapsto> next_cycle q (work_queues (h_levels s p))),
       h_running := None, h_log := h_log s1 @ [Ran w success]\<rparr>"
    unfolding work_thread_end_def run q(1) by (simp add: s1_def Let_def q(1))
  ultimately show thesis using that q lv pr s1_def by blast
qed

lemma work_end_ok:
  assumes ok: "handler_ok s" and run: "h_running s \<noteq> None"
  shows "handler_ok (work_thread_end success s)"
proof -
  from run obtain p w where r: "h_running s = Some (p, w)" by auto
  have core: "handler_core s" using ok by (simp add: handler_ok_def)
  from work_end_cases [OF ok r, of success] obtain q ws s1 where
    e: "queueIters s p = Some q" "q \<in> live_queues s"
    "s1 = (if success then pop_queue_internal q s else block_queue_internal q s)" "handler_core s1"
    "work_thread_end success s = s1\<lparr>
       queueIters := (queueIters s1)(p \<mapsto> next_cycle q (work_queues (h_levels s p))),
       h_running := None, h_log := h_log s1 @ [Ran w success]\<rparr>" by metis
  let ?t = "work_thread_end success s" and ?q = "next_cycle q (work_queues (h_levels s p))"
  have shape: "same_shape s s1" "queueIters s1 = queueIters s"
    by (auto simp: e(3) pop_queue_internal_def uncount_work_def block_queue_internal_def Let_def same_shape_def)
  have live: "live_queues ?t = live_queues s1" and qd: "queued ?t x = queued s1 x" for x
    by (simp_all add: live_queues_def queued_def e(5))
  note wf = handler_coreD [OF e(4)] and wf0 = handler_coreD [OF core]
  have "p \<in> set (level_order s)" "q \<in> set (work_queues (h_levels s p))" "distinct (work_queues (h_levels s p))"
    using wf0(1,4) e(1) by (auto simp: wf_iters_def wf_levels_def)
  then have "p \<in> set (level_order s1) \<and> ?q \<in> set (work_queues (h_levels s1 p))"
    using next_cycle_in [of "work_queues (h_levels s p)" q] shape(1) by (simp add: same_shape_def)
  then have "wf_iters ?t" using wf(4) by (auto simp: wf_iters_def e(5))
  moreover have "wf_levels ?t" "wf_names ?t" "wf_default ?t" "wf_counts ?t" "wf_priority ?t"
    "wf_sizes ?t" "wf_works ?t"
    using wf by (simp_all add: wf_levels_def wf_names_def wf_default_def wf_counts_def
        wf_priority_def wf_sizes_def wf_works_def live qd) (simp_all add: e(5))
  moreover have "wf_running ?t" by (simp add: wf_running_def e(5))
  ultimately show ?thesis by (simp add: handler_ok_def handler_core_def)
qed

lemma handler_op_ok:
  assumes "handler_op s t" "handler_ok s" "handler_small s"
  shows "handler_ok t"
  using assms
proof (induction rule: handler_op.induct)
  case (op_post s name sz blocking now ts cb t r)
  then show ?case by (blast intro: post_ok)
next
  case (op_post_again s name sz blocking ts cb t r)
  then show ?case by (blast intro: post_locked_ok)
next
  case (op_next s t)
  then show ?case by (blast dest: work_next_ok)
next
  case (op_finish s success)
  then show ?case by (blast intro: work_end_ok)
next
  case (op_timeout now s t)
  then show ?case by (blast intro: timeout_thread_ok)
qed (auto intro: create_queue_ok remove_queue_ok work_run_ok
      simp: unblock_queue_def start_def stop_begin_def stop_immediate_begin_def flag_ok split: if_splits)

interpretation handler_sys: invariant_system handler_start handler_step handler_ok
  by unfold_locales (auto simp: handler_start_def new_handler_ok handler_step_def intro: handler_op_ok)

section \<open>Order of completion\<close>

text \<open>Work in the order its callbacks finished, all of it and per queue.\<close>

fun done_of :: "handler_event list \<Rightarrow> work_id list" where
  "done_of [] = []"
| "done_of (Ran w True # es) = w # done_of es"
| "done_of (_ # es) = done_of es"

lemma done_of_append [simp]: "done_of (xs @ ys) = done_of xs @ done_of ys"
  by (induction xs rule: done_of.induct) auto

definition completed :: "handler \<Rightarrow> queue_id \<Rightarrow> work_id list" where
  "completed s q = filter (\<lambda>w. w_queue (h_works s w) = q) (done_of (h_log s))"

definition fifo_ok :: "handler \<Rightarrow> bool" where
  "fifo_ok s \<longleftrightarrow>
     (\<forall>w\<in>set (done_of (h_log s)). w < next_wid s) \<and>
     (\<forall>q. sorted_wrt (<) (completed s q)) \<and>
     (\<forall>q\<in>live_queues s. \<forall>w\<in>set (completed s q). \<forall>x\<in>set (q_queue (h_queues s q)). w < x)"

lemma fifo_frame:
  assumes ff: "fifo_ok s" and log: "done_of (h_log t) = done_of (h_log s)"
    and nx: "next_wid s \<le> next_wid t"
    and wq: "\<And>w. w < next_wid s \<Longrightarrow> w_queue (h_works t w) = w_queue (h_works s w)"
    and qs: "\<And>q x. q \<in> live_queues t \<Longrightarrow> x \<in> set (q_queue (h_queues t q)) \<Longrightarrow>
        q \<in> live_queues s \<and> x \<in> set (q_queue (h_queues s q)) \<or> x \<ge> next_wid s"
  shows "fifo_ok t"
proof -
  have lt: "w < next_wid s" if "w \<in> set (done_of (h_log s))" for w using ff that by (simp add: fifo_ok_def)
  then have "completed t q = completed s q" for q
    unfolding completed_def log using wq by (auto intro: filter_cong)
  moreover have "w < x" if "q \<in> live_queues t" "w \<in> set (completed s q)" "x \<in> set (q_queue (h_queues t q))"
    for q w x
  proof -
    from that(2) lt have "w < next_wid s" by (simp add: completed_def)
    with qs [OF that(1,3)] ff that(2) show ?thesis by (fastforce simp: fifo_ok_def)
  qed
  ultimately show ?thesis using ff lt nx
    by (fastforce simp: fifo_ok_def log)
qed

lemma same_queues_fifo:
  assumes "fifo_ok s" "same_shape s t" "done_of (h_log t) = done_of (h_log s)"
    "next_wid t = next_wid s" "\<And>w. w_queue (h_works t w) = w_queue (h_works s w)"
    "\<And>q. set (q_queue (h_queues t q)) \<subseteq> set (q_queue (h_queues s q))"
  shows "fifo_ok t"
  by (rule fifo_frame [OF assms(1,3)]) (use assms same_shape_live [OF assms(2)] in auto)

lemma post_insert_fifo:
  assumes "post_insert s q sz ts cb = Inr t" "fifo_ok s"
  shows "fifo_ok t"
  using same_shape_live [OF post_insert_shape [OF assms(1)]]
  by (intro fifo_frame [OF assms(2)]) (auto simp: post_insert_fields [OF assms(1)] split: if_splits)

lemma post_locked_fifo:
  assumes "post_locked s name sz blocking ts cb = Inr (t, r)" "fifo_ok s"
  shows "fifo_ok t"
  using assms by (auto simp: post_locked_def split: sum.splits if_splits intro: post_insert_fifo)

lemma fold_remove_fields:
  "h_log (fold remove_work_internal ws s) = h_log s \<and> next_wid (fold remove_work_internal ws s) = next_wid s
   \<and> h_works (fold remove_work_internal ws s) = h_works s \<and> same_shape s (fold remove_work_internal ws s)
   \<and> max_queue_size (fold remove_work_internal ws s) = max_queue_size s
   \<and> max_total_size (fold remove_work_internal ws s) = max_total_size s
   \<and> set (q_queue (h_queues (fold remove_work_internal ws s) q)) \<subseteq> set (q_queue (h_queues s q))"
proof (induction ws arbitrary: s)
  case (Cons w ws)
  have "set (q_queue (h_queues (remove_work_internal w s) q)) \<subseteq> set (q_queue (h_queues s q))"
    by (simp add: remove_work_internal_queue set_remove1_subset)
  with Cons [of "remove_work_internal w s"] same_shape_trans [OF remove_work_internal_fields(11)]
  show ?case by (auto simp: remove_work_internal_fields(1-10))
qed (simp add: same_shape_def)

text \<open>What a worker step that is not the end of a callback leaves alone.\<close>

lemma work_next_fields:
  assumes ok: "handler_ok s" and sm: "handler_small s" and idle: "worker_idle s"
    and nx: "work_thread_begin s = Next t"
  shows "h_log t = h_log s \<and> next_wid t = next_wid s \<and> h_works t = h_works s
    \<and> max_queue_size t = max_queue_size s \<and> max_total_size t = max_total_size s
    \<and> live_queues t \<subseteq> live_queues s
    \<and> set (q_queue (h_queues t q)) \<subseteq> set (q_queue (h_queues s q))"
proof (cases "unblock_list s = []")
  case False
  have core: "handler_core s" using ok by (simp add: handler_ok_def)
  from unblock_all_core [OF core, of "unblock_list s"] obtain u where
    u: "unblock_all (unblock_list s) s = Inr u" "same_shape s u" "h_works u = h_works s"
    "next_wid u = next_wid s" "h_log u = h_log s" "\<forall>q. q_queue (h_queues u q) = q_queue (h_queues s q)"
    "max_queue_size u = max_queue_size s" "max_total_size u = max_total_size s" by auto
  with nx False have "t = u\<lparr>unblock_list := []\<rparr>"
    by (auto simp: work_thread_begin_def unblock_queues_internal_def split: if_splits)
  with u same_shape_live [OF u(2)] show ?thesis by (simp add: live_queues_def)
next
  case no_unblock: True
  show ?thesis
  proof (cases "timedOutQueue s = []")
    case False
    with nx no_unblock have "t = fold remove_work_internal (timedOutQueue s) s"
      by (auto simp: work_thread_begin_def split: if_splits)
    with fold_remove_fields [of "timedOutQueue s" s q] show ?thesis
      using same_shape_live by blast
  next
    case True
    with nx no_unblock have sv: "serve_queue s = Next t" and w: "work_thread_ready s"
      "\<not> (h_state s = STOPPED \<or> (h_state s = STOPPING \<and> unblocked_work s = 0))"
      by (auto simp: work_thread_begin_def split: if_splits)
    show ?thesis
    proof (cases rule: serve_queue_cases [OF ok sm worker_has_work [OF w(1) no_unblock True idle w(2)]])
      case (2 q s1)
      then have "live_queues s1 = live_queues s" by (simp add: live_queues_def)
      with 2 sv remove_queue_internal_live [of q s1] show ?thesis
        by (auto simp: remove_queue_internal_fields)
    qed (use sv in auto)
  qed
qed

lemma work_end_fifo:
  assumes ok: "handler_ok s" and run: "h_running s \<noteq> None" and ff: "fifo_ok s"
  shows "fifo_ok (work_thread_end success s)"
proof -
  from run obtain p w where r: "h_running s = Some (p, w)" by auto
  from work_end_cases [OF ok r, of success] obtain q ws s1 where
    e: "q_queue (h_queues s q) = w # ws" "q \<in> live_queues s"
    "s1 = (if success then pop_queue_internal q s else block_queue_internal q s)"
    "work_thread_end success s = s1\<lparr>
       queueIters := (queueIters s1)(p \<mapsto> next_cycle q (work_queues (h_levels s p))),
       h_running := None, h_log := h_log s1 @ [Ran w success]\<rparr>" by metis
  let ?t = "work_thread_end success s"
  note d = pop_queue_internal_def uncount_work_def block_queue_internal_def Let_def
  have sh: "same_shape s ?t" by (auto simp: e(3,4) d same_shape_def)
  have eqs: "h_works ?t = h_works s" "next_wid ?t = next_wid s" "h_log ?t = h_log s @ [Ran w success]"
    "q_queue (h_queues ?t x) = (if success \<and> x = q then ws else q_queue (h_queues s x))" for x
    by (auto simp: e d)
  show ?thesis
  proof (cases success)
    case False
    with eqs show ?thesis by (intro same_queues_fifo [OF ff sh]) auto
  next
    case True
    have wf: "wf_works s" using ok by (simp add: handler_ok_def handler_core_def)
    with e(1,2) have w: "w < next_wid s" "w_queue (h_works s w) = q" "\<forall>x\<in>set ws. w < x"
      by (auto simp: wf_works_def)
    have cm: "completed ?t x = completed s x @ (if x = q then [w] else [])" for x
      unfolding completed_def eqs using True w(2) by simp
    have "\<forall>y\<in>set (completed s q). y < w" using ff e(1,2) by (simp add: fifo_ok_def)
    with ff w e(1) True show ?thesis
      unfolding fifo_ok_def same_shape_live [OF sh] cm eqs
      by (auto simp: sorted_wrt_append split: if_splits)
  qed
qed

lemma move_timed_out_done: "done_of (h_log (move_timed_out now ws s)) = done_of (h_log s)"
  by (induction ws arbitrary: s) (auto simp: move_timed_out_Cons time_out_def Let_def)

lemma move_timed_out_shape: "same_shape s (move_timed_out now ws s)"
proof (induction ws arbitrary: s)
  case (Cons w ws)
  have "same_shape s (time_out w ws s)" by (simp add: time_out_def Let_def same_shape_def)
  with Cons show ?case by (auto simp: move_timed_out_Cons same_shape_def intro: same_shape_trans)
qed (simp add: same_shape_def)

lemma handler_op_fifo:
  assumes "handler_op s t" "handler_ok s" "handler_small s" "fifo_ok s"
  shows "fifo_ok t"
  using assms
proof (induction rule: handler_op.induct)
  case (op_create s name p t)
  have "q \<in> live_queues s \<and> x \<in> set (q_queue (h_queues s q))"
    if "q \<in> live_queues t" "x \<in> set (q_queue (h_queues t q))" for q x
  proof -
    have "live_queues t = insert (next_qid s) (live_queues s)" by (rule create_queue_live [OF op_create(1)])
    with that show ?thesis
      by (auto simp: create_queue_fields [OF op_create(1)] new_work_queue_def split: if_splits)
  qed
  then show ?case using op_create
    by (intro fifo_frame [OF op_create(4)]) (auto simp: create_queue_fields [OF op_create(1)])
next
  case (op_post s name sz blocking now ts cb t r)
  have "fifo_ok (s\<lparr>h_log := h_log s @ [TimeoutCallbackAtPost]\<rparr>)"
    by (rule same_queues_fifo [OF op_post(4)]) (auto simp: same_shape_def)
  with op_post show ?case by (auto simp: post_def split: if_splits intro: post_locked_fifo)
next
  case (op_post_again s name sz blocking ts cb t r)
  then show ?case by (blast intro: post_locked_fifo)
next
  case (op_remove s name t)
  show ?case by (rule same_queues_fifo [OF op_remove(5)])
      (simp_all add: remove_queue_fields [OF op_remove(1)])
next
  case (op_timeout now s t)
  then have "t = move_timed_out now (timeoutQueue s) s" by (auto simp: timeout_thread_step_def split: if_splits)
  with op_timeout show ?case
    by (auto intro!: same_queues_fifo [OF op_timeout(4)]
        simp: move_timed_out_fields move_timed_out_done move_timed_out_shape)
next
  case (op_next s t)
  show ?case
    by (rule fifo_frame [OF op_next(6)]) (use work_next_fields [OF op_next(4,5,2,1)] in auto)
next
  case (op_run s t)
  from work_run_cases [OF op_run(3,4,2,1)] obtain q w s1 where
    t: "t = s1\<lparr>h_works := (h_works s1)(w := (h_works s1 w)\<lparr>w_running := True\<rparr>),
            h_running := Some (q_priority (h_queues s q), w)\<rparr>"
    "s1 = s\<lparr>current_priority := q_priority (h_queues s q),
            queueIters := (queueIters s)(q_priority (h_queues s q) \<mapsto> q)\<rparr>" by metis
  then show ?case by (intro same_queues_fifo [OF op_run(5)]) (auto simp: same_shape_def)
next
  case (op_finish s success)
  then show ?case by (blast intro: work_end_fifo)
qed (auto elim!: same_queues_fifo
      simp: unblock_queue_def start_def stop_begin_def stop_immediate_begin_def same_shape_def
      split: if_splits)

lemma new_handler_fields:
  "h_log (new_handler mq mt) = []" "q_queue (h_queues (new_handler mq mt) q) = []"
  "max_queue_size (new_handler mq mt) = mq" "max_total_size (new_handler mq mt) = mt"
  by (simp_all add: new_handler_def emplace_queue_def emplace_level_def Let_def new_work_queue_def)

lemma new_handler_fifo: "fifo_ok (new_handler mq mt)"
  by (simp add: fifo_ok_def completed_def new_handler_fields)

interpretation handler_fifo_sys:
  invariant_system handler_start handler_step "\<lambda>s. handler_ok s \<and> fifo_ok s"
  by unfold_locales
    (auto simp: handler_start_def new_handler_ok handler_step_def new_handler_fifo
      intro: handler_op_ok handler_op_fifo)

section \<open>Size limits\<close>

definition bytes_in :: "handler \<Rightarrow> queue_id \<Rightarrow> nat" where
  "bytes_in s q = (\<Sum>w\<in>set (q_queue (h_queues s q)). unat (w_size (h_works s w)))"

definition cap_ok :: "handler \<Rightarrow> bool" where
  "cap_ok s \<longleftrightarrow> limits_ok s \<and>
     (\<forall>q\<in>live_queues s. bytes_in s q \<le> unat (max_queue_size s)) \<and>
     (\<Sum>q\<in>live_queues s. bytes_in s q) \<le> unat (max_total_size s)"

lemma cap_frame:
  assumes cap: "cap_ok s" and mx: "max_queue_size t = max_queue_size s" "max_total_size t = max_total_size s"
    and lv: "live_queues t \<subseteq> live_queues s"
    and qs: "\<And>q. q \<in> live_queues t \<Longrightarrow> set (q_queue (h_queues t q)) \<subseteq> set (q_queue (h_queues s q))"
    and sz: "\<And>w. w_size (h_works t w) = w_size (h_works s w)"
  shows "cap_ok t"
proof -
  have le: "bytes_in t q \<le> bytes_in s q" if "q \<in> live_queues t" for q
    unfolding bytes_in_def sz using qs [OF that] by (intro sum_mono2) auto
  have "(\<Sum>q\<in>live_queues t. bytes_in t q) \<le> (\<Sum>q\<in>live_queues t. bytes_in s q)"
    using le by (rule sum_mono)
  also have "\<dots> \<le> (\<Sum>q\<in>live_queues s. bytes_in s q)" using lv by (intro sum_mono2) auto
  also have "\<dots> \<le> unat (max_total_size t)" using cap by (simp add: cap_ok_def mx)
  finally have "(\<Sum>q\<in>live_queues t. bytes_in t q) \<le> unat (max_total_size t)" .
  moreover have "bytes_in t q \<le> unat (max_queue_size t)" if "q \<in> live_queues t" for q
  proof -
    have "q \<in> live_queues s" using lv that by auto
    with cap le [OF that] show ?thesis by (auto simp: cap_ok_def mx intro: order_trans)
  qed
  moreover have "limits_ok t" using cap by (simp add: cap_ok_def limits_ok_def mx)
  ultimately show ?thesis by (simp add: cap_ok_def)
qed

lemma unat_sum_words:
  assumes "(\<Sum>x\<in>A. unat (f x :: u64)) < 2 ^ 64"
  shows "unat (\<Sum>x\<in>A. f x) = (\<Sum>x\<in>A. unat (f x))"
proof -
  have "(\<Sum>x\<in>A. f x) = of_nat (\<Sum>x\<in>A. unat (f x))" by simp
  then have "unat (\<Sum>x\<in>A. f x) = (\<Sum>x\<in>A. unat (f x)) mod 2 ^ 64"
    by (simp only: unsigned_of_nat take_bit_eq_mod) simp
  with assms show ?thesis by simp
qed

lemma bytes_in_words:
  assumes "wf_sizes s" "q \<in> live_queues s" "bytes_in s q < 2 ^ 64"
  shows "unat (q_size (h_queues s q)) = bytes_in s q"
  using assms unat_sum_words [of "\<lambda>w. w_size (h_works s w)"] by (simp add: wf_sizes_def bytes_in_def)

lemma total_words:
  assumes wz: "wf_sizes s" and lt: "(\<Sum>q\<in>live_queues s. bytes_in s q) < 2 ^ 64"
  shows "unat (total_size s) = (\<Sum>q\<in>live_queues s. bytes_in s q)"
proof -
  have each: "unat (q_size (h_queues s q)) = bytes_in s q" if "q \<in> live_queues s" for q
  proof (rule bytes_in_words [OF wz that])
    have "bytes_in s q \<le> (\<Sum>q\<in>live_queues s. bytes_in s q)"
      using that by (intro member_le_sum) auto
    with lt show "bytes_in s q < 2 ^ 64" by simp
  qed
  then have sums: "(\<Sum>q\<in>live_queues s. unat (q_size (h_queues s q))) = (\<Sum>q\<in>live_queues s. bytes_in s q)"
    by simp
  have "total_size s = (\<Sum>q\<in>live_queues s. q_size (h_queues s q))" using wz by (simp add: wf_sizes_def)
  with unat_sum_words [of "\<lambda>q. q_size (h_queues s q)" "live_queues s"] sums lt show ?thesis by simp
qed

lemma post_insert_cap:
  assumes ins: "post_insert s q sz ts cb = Inr t" and core: "handler_core s" and cap: "cap_ok s"
    and q: "q \<in> live_queues s" and sz: "sz \<le> max_queue_size s" "sz \<le> max_total_size s"
    and fit: "\<not> q_size (h_queues s q) + sz > max_queue_size s" "\<not> total_size s + sz > max_total_size s"
  shows "cap_ok t"
proof -
  note fs = post_insert_fields [OF ins] and wz = handler_coreD(7) [OF core] and ww = handler_coreD(8) [OF core]
  have lim: "unat (max_queue_size s) < 2 ^ 63" "unat (max_total_size s) < 2 ^ 63"
    using cap by (simp_all add: cap_ok_def limits_ok_def)
  have new: "next_wid s \<noteq> w" if "w \<in> set (q_queue (h_queues s q'))" "q' \<in> live_queues s" for w q'
    using ww that by (auto simp: wf_works_def)
  have old: "bytes_in t q' = bytes_in s q' + (if q' = q then unat sz else 0)" if "q' \<in> live_queues s" for q'
  proof -
    have "(\<Sum>w\<in>set (q_queue (h_queues s q')). unat (w_size (h_works t w))) = bytes_in s q'"
      unfolding bytes_in_def using new [OF _ that] by (intro sum.cong) (auto simp: fs)
    moreover have "next_wid s \<notin> set (q_queue (h_queues s q'))" using new [OF _ that] by blast
    ultimately show ?thesis unfolding bytes_in_def by (auto simp: fs)
  qed
  have qb: "bytes_in s q \<le> unat (max_queue_size s)" "(\<Sum>q\<in>live_queues s. bytes_in s q) \<le> unat (max_total_size s)"
    using cap q by (simp_all add: cap_ok_def)
  have szl: "unat sz \<le> unat (max_queue_size s)" "unat sz \<le> unat (max_total_size s)"
    using sz by (simp_all add: word_le_nat_alt)
  have "unat (q_size (h_queues s q) + sz) = bytes_in s q + unat sz"
    using bytes_in_words [OF wz q] qb(1) lim(1) szl(1) by (simp add: unat_word_ariths)
  with fit(1) have "bytes_in s q + unat sz \<le> unat (max_queue_size s)"
    by (simp add: word_less_nat_alt)
  moreover have "unat (total_size s + sz) = (\<Sum>q\<in>live_queues s. bytes_in s q) + unat sz"
    using total_words [OF wz] qb(2) lim(2) szl(2) by (simp add: unat_word_ariths)
  with fit(2) have "(\<Sum>q\<in>live_queues s. bytes_in s q) + unat sz \<le> unat (max_total_size s)"
    by (simp add: word_less_nat_alt)
  moreover have "(\<Sum>q'\<in>live_queues s. bytes_in t q') = (\<Sum>q\<in>live_queues s. bytes_in s q) + unat sz"
    using old q by (simp add: sum.distrib)
  ultimately show ?thesis using cap old lim
    unfolding cap_ok_def limits_ok_def same_shape_live [OF post_insert_shape [OF ins]] fs(15,16) by auto
qed

lemma post_locked_cap:
  assumes "post_locked s name sz blocking ts cb = Inr (t, r)" "handler_core s" "cap_ok s"
    "sz \<le> max_queue_size s" "sz \<le> max_total_size s"
  shows "cap_ok t"
proof -
  from assms(1) obtain q st where c: "post_cond s name sz = Inr (q, st)"
    by (auto simp: post_locked_def split: sum.splits)
  have q: "q \<in> live_queues s" using post_cond_OK [OF c handler_coreD(2) [OF assms(2)]] by simp
  show ?thesis
  proof (cases "st = OK")
    case True
    with c have "\<not> q_size (h_queues s q) + sz > max_queue_size s" "\<not> total_size s + sz > max_total_size s"
      by (auto simp: post_cond_def split: option.splits if_splits)
    moreover have "post_insert s q sz ts cb = Inr t"
      using assms(1) c True by (auto simp: post_locked_def split: sum.splits)
    ultimately show ?thesis using post_insert_cap assms(2-5) q by blast
  next
    case False
    with assms(1,3) c show ?thesis by (auto simp: post_locked_def split: if_splits)
  qed
qed

lemma work_end_cap:
  assumes ok: "handler_ok s" and run: "h_running s \<noteq> None" and cap: "cap_ok s"
  shows "cap_ok (work_thread_end success s)"
proof -
  from run obtain p w where r: "h_running s = Some (p, w)" by auto
  from work_end_cases [OF ok r, of success] obtain q ws s1 where
    e: "q_queue (h_queues s q) = w # ws"
    "s1 = (if success then pop_queue_internal q s else block_queue_internal q s)"
    "work_thread_end success s = s1\<lparr>
       queueIters := (queueIters s1)(p \<mapsto> next_cycle q (work_queues (h_levels s p))),
       h_running := None, h_log := h_log s1 @ [Ran w success]\<rparr>" by metis
  note d = pop_queue_internal_def uncount_work_def block_queue_internal_def Let_def
  have sh: "same_shape s (work_thread_end success s)" by (auto simp: e(2,3) d same_shape_def)
  show ?thesis
    by (rule cap_frame [OF cap]) (use e same_shape_live [OF sh] in \<open>auto simp: d split: if_splits\<close>)
qed

lemma handler_op_cap:
  assumes "handler_op s t" "handler_ok s" "handler_small s" "cap_ok s"
  shows "cap_ok t"
  using assms
proof (induction rule: handler_op.induct)
  case (op_create s name p t)
  note fs = create_queue_fields [OF op_create(1)] and live = create_queue_live [OF op_create(1)]
  have core: "handler_core s" using op_create by (simp add: handler_ok_def)
  have fresh: "next_qid s \<notin> live_queues s" using live_lt [OF handler_coreD(1) [OF core]] by blast
  have b: "bytes_in t q = (if q = next_qid s then 0 else bytes_in s q)" for q
    by (simp add: bytes_in_def fs new_work_queue_def)
  have "(\<Sum>q\<in>live_queues t. bytes_in t q) = (\<Sum>q\<in>live_queues s. bytes_in s q)"
    using fresh by (simp add: live b) (intro sum.cong, auto)
  with op_create show ?case by (auto simp: cap_ok_def limits_ok_def live b fs(23,24))
next
  case (op_post s name sz blocking now ts cb t r)
  have "cap_ok (s\<lparr>h_log := h_log s @ [TimeoutCallbackAtPost]\<rparr>)"
    by (rule cap_frame [OF op_post(4)]) (auto simp: live_queues_def)
  with op_post show ?case
    by (auto simp: post_def handler_ok_def split: if_splits intro: post_locked_cap)
next
  case (op_post_again s name sz blocking ts cb t r)
  then show ?case by (auto simp: handler_ok_def intro: post_locked_cap)
next
  case (op_remove s name t)
  note fs = remove_queue_fields [OF op_remove(1)]
  show ?case by (rule cap_frame [OF op_remove(5)]) (auto simp: fs same_shape_live [OF fs(10)])
next
  case (op_timeout now s t)
  then have "t = move_timed_out now (timeoutQueue s) s" by (auto simp: timeout_thread_step_def split: if_splits)
  moreover have "w_size (h_works (move_timed_out now ws u) w) = w_size (h_works u w)" for ws u w
    by (induction ws arbitrary: u) (auto simp: move_timed_out_Cons time_out_def Let_def)
  ultimately show ?case
    by (auto intro!: cap_frame [OF op_timeout(4)] simp: move_timed_out_fields
        same_shape_live [OF move_timed_out_shape])
next
  case (op_next s t)
  show ?case
    by (rule cap_frame [OF op_next(6)]) (use work_next_fields [OF op_next(4,5,2,1)] in auto)
next
  case (op_run s t)
  from work_run_cases [OF op_run(3,4,2,1)] obtain q w s1 where
    t: "t = s1\<lparr>h_works := (h_works s1)(w := (h_works s1 w)\<lparr>w_running := True\<rparr>),
            h_running := Some (q_priority (h_queues s q), w)\<rparr>"
    "s1 = s\<lparr>current_priority := q_priority (h_queues s q),
            queueIters := (queueIters s)(q_priority (h_queues s q) \<mapsto> q)\<rparr>" by metis
  then show ?case by (intro cap_frame [OF op_run(5)]) (auto simp: live_queues_def)
next
  case (op_finish s success)
  then show ?case by (blast intro: work_end_cap)
qed (auto elim!: cap_frame
      simp: unblock_queue_def start_def stop_begin_def stop_immediate_begin_def live_queues_def
      split: if_splits)

lemma new_handler_cap: "limits_ok (new_handler mq mt) \<Longrightarrow> cap_ok (new_handler mq mt)"
  by (simp add: cap_ok_def bytes_in_def new_handler_fields)

interpretation handler_cap_sys:
  invariant_system "\<lambda>s. handler_start s \<and> limits_ok s" handler_step "\<lambda>s. handler_ok s \<and> cap_ok s"
  by unfold_locales
    (auto simp: handler_start_def new_handler_ok handler_step_def new_handler_cap
      intro: handler_op_ok handler_op_cap)

section \<open>Properties\<close>

lemma reachable_small: "handler_step\<^sup>*\<^sup>* (new_handler mq mt) s \<Longrightarrow> handler_small s"
proof (induction rule: rtranclp_induct)
  case base
  show ?case by (simp add: handler_small_def new_handler_def emplace_queue_def emplace_level_def Let_def)
qed (simp add: handler_step_def)

lemma reachable_ok: "handler_step\<^sup>*\<^sup>* (new_handler mq mt) s \<Longrightarrow> handler_ok s"
  by (rule handler_sys.reachable_inv) (auto simp: handler_start_def)




lemma reachable_fifo_ok: "handler_step\<^sup>*\<^sup>* (new_handler mq mt) s \<Longrightarrow> handler_ok s \<and> fifo_ok s"
  by (rule handler_fifo_sys.reachable_inv) (auto simp: handler_start_def)

lemma reachable_fifo_sorted: "handler_step\<^sup>*\<^sup>* (new_handler mq mt) s \<Longrightarrow> sorted_wrt (<) (completed s q)"
  using reachable_fifo_ok by (simp add: fifo_ok_def)

text \<open>
  C4: First in, first out per queue: the work of a queue completes in the order it was posted,
  and nothing still in the queue was posted before something that has completed.
\<close>

theorem handler_fifo:
  assumes "handler_step\<^sup>*\<^sup>* (new_handler mq mt) s"
  shows "sorted_wrt (<) (completed s q) \<and>
    (q \<in> live_queues s \<longrightarrow> sorted_wrt (<) (completed s q @ q_queue (h_queues s q)))"
  using reachable_fifo_ok [OF assms]
  by (auto simp: fifo_ok_def handler_ok_def handler_core_def wf_works_def sorted_wrt_append)

text \<open>
  C16: The limits hold: with limits below 2^63, the bytes in a queue never exceed \<open>max_queue_size\<close>
  and the bytes in all queues never exceed \<open>max_total_size\<close>, and the \<open>size_t\<close> counters are exact.
\<close>

theorem handler_capacity:
  assumes reach: "handler_step\<^sup>*\<^sup>* (new_handler mq mt) s" and lim: "unat mq < 2 ^ 63" "unat mt < 2 ^ 63"
  shows "(\<forall>q\<in>live_queues s. bytes_in s q \<le> unat (max_queue_size s)
            \<and> unat (q_size (h_queues s q)) = bytes_in s q)
    \<and> (\<Sum>q\<in>live_queues s. bytes_in s q) \<le> unat (max_total_size s)
    \<and> unat (total_size s) = (\<Sum>q\<in>live_queues s. bytes_in s q)"
proof -
  have "handler_ok s \<and> cap_ok s"
    by (rule handler_cap_sys.reachable_inv [OF _ reach])
      (use lim in \<open>auto simp: handler_start_def limits_ok_def new_handler_fields\<close>)
  then have wz: "wf_sizes s" and cap: "cap_ok s" by (simp_all add: handler_ok_def handler_core_def)
  have "bytes_in s q < 2 ^ 64" if "q \<in> live_queues s" for q using cap that by (force simp: cap_ok_def limits_ok_def)
  moreover have "(\<Sum>q\<in>live_queues s. bytes_in s q) < 2 ^ 64" using cap by (auto simp: cap_ok_def limits_ok_def)
  ultimately show ?thesis using cap bytes_in_words [OF wz] total_words [OF wz] by (auto simp: cap_ok_def)
qed

end
