(* ===== verification/Handler_Runs.thy ===== *)
theory Handler_Runs
  imports Handler_Props
begin

text \<open>
  Concrete runs of the handler, evaluated in the kernel, which the properties' witnesses use.
  A handler with one queue: a post with a time-out, the start, the first iteration of the worker,
  the callback reporting that it is blocked, the time-out while the queue is blocked.
\<close>

definition demo_new :: handler where
  "demo_new = new_handler 100 100"

definition demo_posted :: handler where
  "demo_posted = fst (projr (post demo_new '''' 10 False (At 0) (At 5) True))"

definition demo_started :: handler where
  "demo_started = projr (start demo_posted)"

definition demo_running :: handler where
  "demo_running = (case work_thread_begin demo_started of Run t \<Rightarrow> t | _ \<Rightarrow> demo_started)"

definition demo_blocked :: handler where
  "demo_blocked = work_thread_end False demo_running"

definition demo_timed_out :: handler where
  "demo_timed_out = fst (timeout_thread_step (At 6) demo_blocked)"

lemmas demo_ops = new_handler_def emplace_queue_def emplace_level_def new_work_queue_def
  new_priority_level_def Let_def post_def post_locked_def post_cond_def post_insert_def
  raise_priority_def start_def

lemma demo_new_eq: "demo_new = demo_new\<lparr>h_state := PRESTART\<rparr>"
  by (simp add: demo_new_def demo_ops)

lemma demo_post: "\<exists>r. post demo_new '''' 10 False (At 0) (At 5) True = Inr (demo_posted, r)"
  by (simp add: demo_posted_def demo_new_def demo_ops)

lemma demo_start: "start demo_posted = Inr demo_started"
  by (simp add: demo_started_def demo_posted_def demo_new_def demo_ops)

lemmas demo_worker = work_thread_begin_def work_thread_ready_def serve_queue_def
  get_next_queue_with_work_def find_level_def find_queue_def level_idle_def queue_eligible_def

lemma demo_run: "work_thread_begin demo_started = Run demo_running"
proof -
  have "\<exists>t. work_thread_begin demo_started = Run t"
    by (simp add: demo_worker demo_started_def demo_posted_def demo_new_def demo_ops while_option_unfold)
  then show ?thesis by (auto simp: demo_running_def)
qed

lemmas demo_states = demo_timed_out_def demo_blocked_def demo_running_def demo_started_def
  demo_posted_def demo_new_def

lemmas demo_end = work_thread_end_def block_queue_internal_def timeout_thread_step_def next_cycle_def

lemma demo_worker_idle: "worker_idle demo_started" "worker_idle demo_timed_out"
  by (simp_all add: worker_idle_def demo_states demo_worker demo_end demo_ops
      move_timed_out_Cons time_out_def while_option_unfold)

lemma demo_small:
  "handler_small demo_new" "handler_small demo_posted" "handler_small demo_started"
  "handler_small demo_running" "handler_small demo_blocked" "handler_small demo_timed_out"
  by (simp_all add: handler_small_def demo_states demo_worker demo_end demo_ops
      move_timed_out_Cons time_out_def while_option_unfold)

lemma demo_running_some: "h_running demo_running \<noteq> None"
  by (simp add: demo_states demo_worker demo_ops while_option_unfold)

lemma demo_timeout: "timeout_thread_step (At 6) demo_blocked = (demo_timed_out, True)"
proof -
  have "h_state demo_blocked = STARTED"
    by (simp add: demo_states demo_worker demo_end demo_ops while_option_unfold)
  then show ?thesis by (simp add: demo_timed_out_def timeout_thread_step_def)
qed

lemma demo_reach_started: "handler_step\<^sup>*\<^sup>* (new_handler 100 100) demo_started"
proof -
  from demo_post have "handler_step demo_new demo_posted"
    by (auto simp: handler_step_def demo_small intro: op_post)
  moreover have "handler_step demo_posted demo_started"
    using op_start [OF demo_start] by (simp add: handler_step_def demo_small)
  ultimately show ?thesis unfolding demo_new_def
    by (blast intro: rtranclp.rtrancl_into_rtrancl)
qed

lemma demo_reach_running: "handler_step\<^sup>*\<^sup>* (new_handler 100 100) demo_running"
proof -
  have "handler_step demo_started demo_running"
    using op_run [OF demo_run demo_worker_idle(1)] by (simp add: handler_step_def demo_small)
  with demo_reach_started show ?thesis by (rule rtranclp.rtrancl_into_rtrancl)
qed

lemma demo_reach_timed_out: "handler_step\<^sup>*\<^sup>* (new_handler 100 100) demo_timed_out"
proof -
  have "handler_step demo_running demo_blocked"
    using op_finish [OF demo_running_some, of False] demo_small(4,5)
    by (simp add: handler_step_def demo_blocked_def)
  moreover have "handler_step demo_blocked demo_timed_out"
    using op_timeout [OF demo_timeout] by (simp add: handler_step_def demo_small)
  ultimately show ?thesis using demo_reach_running by (meson rtranclp.rtrancl_into_rtrancl)
qed

lemma demo_timed_out_facts:
  "h_state demo_timed_out = STARTED" "unblock_list demo_timed_out = []"
  "timedOutQueue demo_timed_out = [0]" "w_queue (h_works demo_timed_out 0) = 0"
  "q_blocked (h_queues demo_timed_out 0)" "live_queues demo_timed_out = {0}"
  by (simp_all add: demo_states demo_worker demo_end demo_ops live_queues_def
      move_timed_out_Cons time_out_def while_option_unfold)

section \<open>Witnesses\<close>




theorem handler_fifo_witness:
  "0 \<in> live_queues demo_timed_out \<and>
     sorted_wrt (<) (completed demo_timed_out 0 @ q_queue (h_queues demo_timed_out 0))"
  using handler_fifo [OF demo_reach_timed_out, of 0] by (simp add: demo_timed_out_facts)

theorem handler_capacity_witness:
  "(\<Sum>q\<in>live_queues demo_timed_out. bytes_in demo_timed_out q) \<le> unat (max_total_size demo_timed_out)"
  using handler_capacity [OF demo_reach_timed_out] by simp

section \<open>Fairness\<close>

lemma rotate_next:
  assumes "i < length xs"
  shows "\<exists>ys. rotate (Suc i mod length xs) xs = ys @ [xs ! i] \<and> set xs = insert (xs ! i) (set ys)"
proof -
  have "rotate (Suc i mod length xs) xs = drop (Suc i) xs @ take (Suc i) xs"
  proof (cases "Suc i = length xs")
    case False
    with assms show ?thesis by (simp add: rotate_drop_take)
  qed simp
  also have "\<dots> = (drop (Suc i) xs @ take i xs) @ [xs ! i]" using assms by (simp add: take_Suc_conv_app_nth)
  finally have eq: "rotate (Suc i mod length xs) xs = (drop (Suc i) xs @ take i xs) @ [xs ! i]" .
  then have "set xs = insert (xs ! i) (set (drop (Suc i) xs @ take i xs))"
    using set_rotate [of "Suc i mod length xs" xs] by auto
  with eq show ?thesis by blast
qed

text \<open>
  C17: Round robin: after the worker has served queue \<open>q\<close> of a priority, its next search of that
  priority returns another queue whenever another one of the priority has work.
\<close>

theorem handler_round_robin:
  assumes reach: "handler_step\<^sup>*\<^sup>* (new_handler mq mt) s" and run: "h_running s = Some (p, w)"
    and other: "r \<in> set (work_queues (h_levels s p))" "r \<noteq> w_queue (h_works s w)"
      "queue_eligible (h_queues (work_thread_end success s) r)"
  shows "\<exists>q. find_queue (work_thread_end success s) p = Some q \<and> q \<noteq> w_queue (h_works s w)"
proof -
  note ok = reachable_ok [OF reach]
  have core: "handler_core s" using ok by (simp add: handler_ok_def)
  note wf = handler_coreD [OF core]
  from work_end_cases [OF ok run, of success] obtain q ws s1 where
    e: "queueIters s p = Some q" "q_queue (h_queues s q) = w # ws" "q \<in> live_queues s"
    "s1 = (if success then pop_queue_internal q s else block_queue_internal q s)"
    "work_thread_end success s = s1\<lparr>
       queueIters := (queueIters s1)(p \<mapsto> next_cycle q (work_queues (h_levels s p))),
       h_running := None, h_log := h_log s1 @ [Ran w success]\<rparr>" by metis
  let ?t = "work_thread_end success s" and ?xs = "work_queues (h_levels s p)"
  have wq: "w_queue (h_works s w) = q" using wf(8) e(2,3) by (simp add: wf_works_def)
  have xs: "work_queues (h_levels ?t p) = ?xs"
    by (auto simp: e(4,5) pop_queue_internal_def uncount_work_def block_queue_internal_def Let_def)
  have d: "distinct ?xs" "q \<in> set ?xs" using wf(1,4) e(1) by (auto simp: wf_iters_def wf_levels_def)
  from d(2) obtain i where i: "i < length ?xs" "q = ?xs ! i" by (auto simp: in_set_conv_nth)
  let ?P = "\<lambda>q. queue_eligible (h_queues ?t q)"
  have k: "Suc i mod length ?xs < length ?xs" using i(1) by (intro mod_less_divisor) auto
  have "find_queue ?t p = while_option (\<lambda>q. \<not> ?P q) (\<lambda>q. next_cycle q ?xs) (next_cycle q ?xs)"
    unfolding find_queue_def xs by (simp add: e(5))
  also have "\<dots> = find ?P (rotate (Suc i mod length ?xs) ?xs)"
    using cyclic_search_find [OF d(1) k, of ?P] other next_cycle_nth [OF d(1) i(1)] i(2) by auto
  finally have fq: "find_queue ?t p = find ?P (rotate (Suc i mod length ?xs) ?xs)" .
  from rotate_next [OF i(1)] obtain ys where
    ys: "rotate (Suc i mod length ?xs) ?xs = ys @ [q]" "set ?xs = insert q (set ys)" using i(2) by auto
  have "distinct (ys @ [q])" using d(1) ys(1) by (metis distinct_rotate)
  then have nq: "q \<notin> set ys" by simp
  from ys(2) other wq have "r \<in> set ys" by auto
  with other(3) obtain q' where "find ?P ys = Some q'" by (metis find_None_iff not_Some_eq)
  moreover from this nq have "q' \<noteq> q" by (auto simp: find_Some_iff)
  ultimately show ?thesis using fq ys(1) wq by (simp add: find_append)
qed

lemma demo_finished_facts:
  "h_running demo_running = Some (0, 0)" "w_queue (h_works demo_running 0) = 0"
  by (simp_all add: demo_states demo_worker demo_ops while_option_unfold)

text \<open>A second queue of the default queue's priority with work of its own.\<close>

definition demo_two :: handler where
  "demo_two =
     fst (projr (post (projr (create_queue demo_running ''a'' 0)) ''a'' 7 False (At 0) Infinity False))"

lemma demo_two_small: "handler_small (projr (create_queue demo_running ''a'' 0))" "handler_small demo_two"
  by (simp_all add: demo_two_def create_queue_def handler_small_def demo_states demo_worker demo_ops
      while_option_unfold)

lemma demo_reach_two: "handler_step\<^sup>*\<^sup>* (new_handler 100 100) demo_two"
proof -
  have "create_queue demo_running ''a'' 0 = Inr (projr (create_queue demo_running ''a'' 0))"
    by (simp add: create_queue_def demo_states demo_worker demo_ops while_option_unfold)
  then have "handler_step demo_running (projr (create_queue demo_running ''a'' 0))"
    using op_create demo_small(4) demo_two_small(1) by (auto simp: handler_step_def)
  moreover have "\<exists>r. post (projr (create_queue demo_running ''a'' 0)) ''a'' 7 False (At 0) Infinity False
      = Inr (demo_two, r)"
    by (simp add: demo_two_def create_queue_def demo_states demo_worker demo_ops while_option_unfold)
  then have "handler_step (projr (create_queue demo_running ''a'' 0)) demo_two"
    using op_post demo_two_small by (auto simp: handler_step_def)
  ultimately show ?thesis using demo_reach_running by (blast intro: rtranclp.rtrancl_into_rtrancl)
qed

theorem handler_round_robin_witness:
  "\<exists>q. find_queue (work_thread_end True demo_two) 0 = Some q \<and> q \<noteq> w_queue (h_works demo_two 0)"
  by (rule handler_round_robin [OF demo_reach_two, of 0 0 1])
    (simp_all add: demo_two_def create_queue_def demo_states demo_worker demo_end demo_ops
      while_option_unfold pop_queue_internal_def uncount_work_def)

section \<open>Stopping\<close>

text \<open>
  C18: stop and stop_immediate leave a stopped handler with the default queue only: no work, zero
  counters; it refuses every later post that is not already expired, and every later start.
\<close>

theorem handler_stop_final:
  assumes t: "t = stop_end STARTED s \<or> t = stop_immediate_end (fst (stop_immediate_begin s))"
  shows "h_state t = STOPPED \<and> get_num_queues t = 1 \<and> unblocked_work t = 0 \<and> total_work t = 0
    \<and> total_marked t = 0 \<and> total_size t = 0 \<and> timeoutQueue t = [] \<and> timedOutQueue t = []
    \<and> (\<exists>q. queue_map t = [[] \<mapsto> q] \<and> q_queue (h_queues t q) = [])
    \<and> start t = Inl LogicError
    \<and> (sz \<le> max_queue_size t \<and> sz \<le> max_total_size t \<and> \<not> (ts < now \<and> cb)
         \<longrightarrow> post t name sz blocking now ts cb = Inr (t, Posted INVALID_STATE 0))"
  using t
  by (auto simp: stop_end_def stop_immediate_end_def stop_immediate_begin_def clear_def
      emplace_queue_def emplace_level_def new_work_queue_def new_priority_level_def Let_def
      get_num_queues_def start_def post_def)

theorem handler_stop_final_witness:
  "post (stop_end STARTED demo_started) ''a'' 5 False (At 0) Infinity False
     = Inr (stop_end STARTED demo_started, Posted INVALID_STATE 0)"
proof -
  let ?t = "stop_end STARTED demo_started"
  have mx: "max_queue_size ?t = 100 \<and> max_total_size ?t = 100"
    by (simp add: stop_end_def clear_def demo_states demo_ops)
  from handler_stop_final [of ?t demo_started 5 Infinity "At 0" False "''a''" False] mx
  show ?thesis by simp
qed

section \<open>Two ways to make the worker spin\<close>

text \<open>With nothing to serve the search never ends, whatever the counters say.\<close>

lemma get_next_spins:
  assumes wl: "wf_levels s" and wi: "wf_iters s"
    and none: "\<And>q. q \<in> live_queues s \<Longrightarrow> \<not> queue_eligible (h_queues s q)"
  shows "get_next_queue_with_work s = None"
proof (cases "find_level s")
  case (Some p)
  have dl: "distinct (level_order s)" using wl distinct_desc by (simp add: wf_levels_def)
  have p: "p \<in> set (level_order s)"
    using while_option_rule [where P = "\<lambda>p. p \<in> set (level_order s)", OF _ Some [unfolded find_level_def]]
      next_cycle_in [OF dl] wf_levels_current [OF wl] by blast
  let ?wqs = "work_queues (h_levels s p)"
  have d: "distinct ?wqs" "?wqs \<noteq> []" using wl p by (auto simp: wf_levels_def)
  have "(case queueIters s p of Some q \<Rightarrow> q | None \<Rightarrow> hd ?wqs) \<in> set ?wqs"
    using wi d(2) by (auto simp: wf_iters_def split: option.splits)
  then have "find_queue s p = None"
    unfolding find_queue_def Let_def
    by (rule while_option_spins [where I = "\<lambda>q. q \<in> set ?wqs"])
      (use none p next_cycle_in [OF d(1)] in \<open>auto simp: live_queues_def\<close>)
  with Some show ?thesis by (simp add: get_next_queue_with_work_def)
qed (simp add: get_next_queue_with_work_def)

text \<open>
  C19: When the work of a blocked queue times out and no other queue has work, removing it wraps
  the counter of unblocked work around to 2^64 - 1, and the next iteration of the worker spins
  for ever with the lock held. (remove_work_internal subtracts the work from the unblocked
  counters although block_queue_internal has already done so.)
\<close>

theorem handler_blocked_timeout_spins:
  assumes reach: "handler_step\<^sup>*\<^sup>* (new_handler mq mt) s"
    and st: "h_state s = STARTED" "unblock_list s = []" "timedOutQueue s = [w]"
    and bl: "q_blocked (h_queues s (w_queue (h_works s w)))"
    and none: "\<forall>q\<in>live_queues s. \<not> queue_eligible (h_queues s q)"
  shows "\<exists>t. work_thread_begin s = Next t \<and> unat (unblocked_work t) = 2 ^ 64 - 1
           \<and> work_thread_begin t = Spin"
proof -
  let ?t = "remove_work_internal w s"
  have core: "handler_core s" using reachable_ok [OF reach] by (simp add: handler_ok_def)
  note wf = handler_coreD [OF core] and fs = remove_work_internal_fields [where w = w and s = s]
  have bg: "work_thread_begin s = Next ?t" using st by (simp add: work_thread_begin_def work_thread_ready_def)
  have "unblocked_of (h_queues s q) = 0" if "q \<in> live_queues s" for q
    using none that by (auto simp: unblocked_of_def queue_eligible_def)
  then have "unblocked_work s = 0" using wf(5) by (simp add: wf_counts_def)
  then have uw: "unblocked_work ?t = - 1" by (simp add: remove_work_internal_def uncount_work_def Let_def)
  have "wf_levels ?t" using same_shape_levels [OF fs(11) wf(1)] wf_levels_current [OF wf(1)]
    by (simp add: remove_work_internal_def uncount_work_def Let_def)
  moreover have "wf_iters ?t" using same_shape_iters [OF fs(11) wf(4) fs(5)] .
  moreover have "\<not> queue_eligible (h_queues ?t q)" if "q \<in> live_queues ?t" for q
  proof -
    have "q \<in> live_queues s" using that same_shape_live [OF fs(11)] by simp
    with none bl show ?thesis
      by (auto simp: remove_work_internal_def uncount_work_def Let_def queue_eligible_def)
  qed
  ultimately have "get_next_queue_with_work ?t = None" by (rule get_next_spins)
  moreover have "timedOutQueue ?t = []" using remove_work_internal_timed_out [OF core st(3)] .
  ultimately have "work_thread_begin ?t = Spin"
    using st uw
    by (simp add: work_thread_begin_def work_thread_ready_def serve_queue_def fs word_greater_zero_iff)
  with bg uw show ?thesis by (simp add: unsigned_minus_1_eq_mask mask_eq_exp_minus_1)
qed

theorem handler_blocked_timeout_spins_witness:
  "\<exists>t. work_thread_begin demo_timed_out = Next t \<and> work_thread_begin t = Spin"
  using handler_blocked_timeout_spins [OF demo_reach_timed_out demo_timed_out_facts(1,2,3)]
  by (auto simp: demo_timed_out_facts queue_eligible_def)

lemma double_remove_spins:
  assumes reach: "handler_step\<^sup>*\<^sup>* (new_handler mq mt) s" and st: "h_state s = STARTED"
    "unblock_list s = []" "timedOutQueue s = []"
    and q: "queue_map s name = Some q" "name \<noteq> []" "q_marked (h_queues s q)"
      "\<not> q_blocked (h_queues s q)" "q_queue (h_queues s q) = []"
    and only: "\<forall>r\<in>live_queues s. r \<noteq> q \<longrightarrow> \<not> queue_eligible (h_queues s r)"
  shows "\<exists>t u. remove_queue s name = Inr t \<and> work_thread_begin t = Next u
           \<and> q \<notin> live_queues u \<and> work_thread_begin u = Spin"
proof -
  have core: "handler_core s" using reachable_ok [OF reach] by (simp add: handler_ok_def)
  have sm: "handler_small s" by (rule reachable_small [OF reach])
  note wf = handler_coreD [OF core]
  let ?p = "q_priority (h_queues s q)"
  have ql: "q \<in> live_queues s" using mapped_live [OF wf(2) q(1)] by simp
  have el: "queue_eligible (h_queues s q)" using q by (simp add: queue_eligible_def)
  with wf(6) ql have cp: "?p \<le> current_priority s" by (force simp: wf_priority_def)
  have tm: "total_marked s = 1"
  proof -
    have "(marked_of (h_queues s r) :: int) = (if r = q then 1 else 0)" if "r \<in> live_queues s" for r
      using only that q by (auto simp: marked_of_def queue_eligible_def)
    with wf(5) ql show ?thesis by (simp add: wf_counts_def)
  qed
  from get_next_correct [OF core sm] tm obtain s1 x where
    n: "get_next_queue_with_work s = Some (s1, x)" "handler_core s1"
      "s1 = s\<lparr>current_priority := q_priority (h_queues s x),
              queueIters := (queueIters s)(q_priority (h_queues s x) \<mapsto> x)\<rparr>"
      "x \<in> live_queues s" "queue_eligible (h_queues s x)" by (metis zero_less_one)
  with only have x: "x = q" by blast
  let ?l = "h_levels s ?p"
  define t where "t = s\<lparr>h_levels := (h_levels s)(?p := ?l\<lparr>marked_count := marked_count ?l + 1\<rparr>),
                      total_marked := 2\<rparr>"
  have "h_queues s q\<lparr>q_marked := True\<rparr> = h_queues s q" using q(3) by simp
  then have "(h_queues s)(q := (h_queues s q)\<lparr>q_marked := True\<rparr>) = h_queues s" by (simp only: fun_upd_triv)
  then have rm: "remove_queue s name = Inr t"
    using q cp tm by (simp add: remove_queue_def Let_def raise_priority_def t_def)
  have lp: "?p \<in> set (level_order s)" using live_priority [OF wf(1) ql] by simp
  have "marked_count ?l = 1"
  proof -
    let ?L = "set (work_queues ?l)"
    have "(marked_of (h_queues s r) :: u64) = (if r = q then 1 else 0)" if "r \<in> ?L" for r
      using only that level_sub_live [OF lp] q by (auto simp: marked_of_def queue_eligible_def)
    then have "(\<Sum>r\<in>?L. marked_of (h_queues s r) :: u64) = 1"
      using live_priority [OF wf(1) ql] by simp
    with wf(5) lp show ?thesis by (simp add: wf_counts_def)
  qed
  then have idle: "level_idle t = level_idle s" by (auto simp: level_idle_def t_def fun_eq_iff)
  let ?t1 = "t\<lparr>current_priority := ?p, queueIters := (queueIters s)(?p \<mapsto> q)\<rparr>"
  have "find_level t = find_level s" unfolding find_level_def idle by (simp add: t_def)
  moreover have "work_queues (h_levels t p) = work_queues (h_levels s p)" "queueIters t = queueIters s"
    "h_queues t = h_queues s" for p by (simp_all add: t_def)
  then have "find_queue t = find_queue s" by (simp add: fun_eq_iff find_queue_def Let_def)
  moreover have "find_level s = Some ?p \<and> find_queue s ?p = Some q"
  proof -
    from n(1) obtain p' where p': "find_level s = Some p'" "find_queue s p' = Some x"
      "s1 = s\<lparr>current_priority := p', queueIters := (queueIters s)(p' \<mapsto> x)\<rparr>"
      by (auto simp: get_next_queue_with_work_def split: option.splits)
    then have "current_priority s1 = p'" by simp
    with n(3) x have "p' = ?p" by simp
    with p' x show ?thesis by simp
  qed
  ultimately have "get_next_queue_with_work t = Some (?t1, q)"
    by (simp add: get_next_queue_with_work_def) (simp add: t_def)
  moreover define u where "u = remove_queue_internal q ?t1"
  ultimately have "serve_queue t = Next u" using q by (simp add: serve_queue_def t_def)
  moreover have "h_state t = STARTED" "unblock_list t = []" "timedOutQueue t = []" "total_marked t = 2"
    using st by (simp_all add: t_def)
  ultimately have bg: "work_thread_begin t = Next u"
    by (simp add: work_thread_begin_def work_thread_ready_def)
  let ?u0 = "remove_queue_internal q s1"
  have ls: "live_queues s1 = live_queues s" using n(3) by (simp add: live_queues_def)
  have u0: "handler_core ?u0"
    by (rule remove_queue_internal_core [OF n(2)]) (use ls ql q n(3) x in auto)
  have same: "level_order u = level_order ?u0" "current_priority u = current_priority ?u0"
    "queueIters u = queueIters ?u0" "h_queues u = h_queues ?u0" "h_queues u = h_queues s"
    "next_qid u = next_qid ?u0" "work_queues (h_levels u p) = work_queues (h_levels ?u0 p)" for p
    using n(3) x by (auto simp: u_def t_def remove_queue_internal_def Let_def)
  have lu: "live_queues u = live_queues ?u0" by (simp add: live_queues_def same)
  have "queue_map ?u0 (q_name (h_queues ?u0 q)) = None"
    using n(3) x by (simp add: remove_queue_internal_def Let_def)
  with handler_coreD(2) [OF u0] have gone: "q \<notin> live_queues u"
    unfolding wf_names_def lu by (metis option.distinct(1))
  have "get_next_queue_with_work u = None"
  proof (rule get_next_spins)
    show "wf_levels u" using handler_coreD(1) [OF u0] by (simp add: wf_levels_def same)
    show "wf_iters u" using handler_coreD(4) [OF u0] by (simp add: wf_iters_def same)
    fix r assume r: "r \<in> live_queues u"
    then have "r \<in> live_queues s" using remove_queue_internal_live [of q s1] lu ls by auto
    with only gone r show "\<not> queue_eligible (h_queues u r)" by (auto simp: same(5))
  qed
  moreover have "h_state u = STARTED" "unblock_list u = []" "timedOutQueue u = []" "total_marked u = 1"
    using st by (simp_all add: u_def t_def remove_queue_internal_def Let_def)
  ultimately have "work_thread_begin u = Spin"
    by (simp add: work_thread_begin_def work_thread_ready_def serve_queue_def)
  with rm bg gone show ?thesis by blast
qed

text \<open>
  C20: Removing a queue a second time, before the worker has deleted it, counts it as marked twice;
  when nothing else is to be served, the worker deletes it once and then spins for ever.
  (remove_queue does not look whether the queue is already marked.)
\<close>

theorem handler_double_remove_spins:
  assumes reach: "handler_step\<^sup>*\<^sup>* (new_handler mq mt) s" and st: "h_state s = STARTED"
    "unblock_list s = []" "timedOutQueue s = []"
    and q: "queue_map s name = Some q" "name \<noteq> []" "q_marked (h_queues s q)"
      "\<not> q_blocked (h_queues s q)" "q_queue (h_queues s q) = []"
    and only: "\<forall>r\<in>live_queues s. r \<noteq> q \<longrightarrow> \<not> queue_eligible (h_queues s r)"
  shows "\<exists>t u. remove_queue s name = Inr t \<and> work_thread_begin t = Next u
           \<and> q \<notin> live_queues u \<and> work_thread_begin u = Spin"
  using double_remove_spins [OF assms] .

text \<open>The witness: a handler with a second queue, created, removed once, and removed again.\<close>

definition demo_removed :: handler where
  "demo_removed = projr (remove_queue (projr (create_queue (projr (start demo_new)) ''a'' 0)) ''a'')"

lemma demo_reach_removed: "handler_step\<^sup>*\<^sup>* (new_handler 100 100) demo_removed"
proof -
  let ?a = "projr (start demo_new)" let ?b = "projr (create_queue ?a ''a'' 0)"
  have "start demo_new = Inr ?a" "create_queue ?a ''a'' 0 = Inr ?b"
    "remove_queue ?b ''a'' = Inr demo_removed"
    by (simp_all add: demo_removed_def remove_queue_def create_queue_def demo_new_def demo_ops)
  moreover have "queue_map ?b ''a'' = Some q \<Longrightarrow> \<not> q_marked (h_queues ?b q)" for q
    by (auto simp: create_queue_def demo_new_def demo_ops split: if_splits)
  moreover have "handler_small ?a" "handler_small ?b" "handler_small demo_removed"
    by (simp_all add: handler_small_def demo_removed_def remove_queue_def create_queue_def demo_new_def demo_ops)
  ultimately have "handler_step demo_new ?a" "handler_step ?a ?b" "handler_step ?b demo_removed"
    using demo_small(1) by (auto simp: handler_step_def intro: handler_op.intros)
  then show ?thesis unfolding demo_new_def by (blast intro: rtranclp.rtrancl_into_rtrancl)
qed

theorem handler_double_remove_spins_witness:
  "\<exists>t u. remove_queue demo_removed ''a'' = Inr t \<and> work_thread_begin t = Next u \<and> work_thread_begin u = Spin"
proof -
  have "\<exists>t u. remove_queue demo_removed ''a'' = Inr t \<and> work_thread_begin t = Next u
           \<and> 1 \<notin> live_queues u \<and> work_thread_begin u = Spin"
    by (rule handler_double_remove_spins [OF demo_reach_removed])
      (auto simp: demo_removed_def remove_queue_def create_queue_def demo_new_def demo_ops
        live_queues_def queue_eligible_def)
  then show ?thesis by blast
qed

end
