(* ===== verification/Race_Bytes.thy ===== *)
theory Race_Bytes
  imports Race_Prelude
begin

text \<open>
  Byte buffers: the little-endian object representation that \<open>memcpy\<close> and
  \<open>reinterpret_cast<uint8_t *>\<close> expose on the targets of the SDK (x86_64 and arm64), and reading
  a value at an offset with the bounds check of \<open>readFromBuffer\<close>
  (racesdk/core/source/decomposed-comms/ComponentReceivePackageManager.cpp).
\<close>

type_synonym bytes = "u8 list"

fun nat_bytes :: "nat \<Rightarrow> nat \<Rightarrow> bytes" where
  "nat_bytes 0 x = []"
| "nat_bytes (Suc n) x = word_of_nat (x mod 256) # nat_bytes n (x div 256)"

fun bytes_nat :: "bytes \<Rightarrow> nat" where
  "bytes_nat [] = 0"
| "bytes_nat (b # bs) = unat b + 256 * bytes_nat bs"

definition le_bytes :: "'a::len word \<Rightarrow> bytes" where
  "le_bytes w = nat_bytes (LENGTH('a) div 8) (unat w)"

definition le_word :: "bytes \<Rightarrow> 'a::len word" where
  "le_word bs = word_of_nat (bytes_nat bs)"

lemma unat_u8_less: "unat (b :: u8) < 256"
  using unsigned_less [of b] by simp

lemma length_nat_bytes [simp]: "length (nat_bytes n x) = n"
  by (induction n arbitrary: x) auto

lemma bytes_nat_nat_bytes: "bytes_nat (nat_bytes n x) = x mod 256 ^ n"
proof (induction n arbitrary: x)
  case 0
  then show ?case by simp
next
  case (Suc n)
  have "x mod 256 + 256 * (x div 256 mod 256 ^ n) = x mod (256 * 256 ^ n)"
    by (simp add: mod_mult2_eq)
  then show ?case by (simp add: Suc unat_of_nat)
qed

lemma nat_bytes_bytes_nat: "nat_bytes (length bs) (bytes_nat bs) = bs"
proof (induction bs)
  case (Cons b bs)
  have "unat b < 256" by (rule unat_u8_less)
  with Cons show ?case by simp
qed simp

lemma length_le_bytes [simp]: "length (le_bytes (w :: 'a::len word)) = LENGTH('a) div 8"
  by (simp add: le_bytes_def)

lemma le_word_le_bytes:
  assumes "8 dvd LENGTH('a)"
  shows "le_word (le_bytes w) = (w :: 'a::len word)"
proof -
  have "(256::nat) ^ (LENGTH('a) div 8) = (2 ^ 8) ^ (LENGTH('a) div 8)" by simp
  also have "\<dots> = 2 ^ LENGTH('a)" using assms by (simp only: power_mult [symmetric] dvd_mult_div_cancel)
  finally have "(256::nat) ^ (LENGTH('a) div 8) = 2 ^ LENGTH('a)" .
  then show ?thesis by (simp add: le_word_def le_bytes_def bytes_nat_nat_bytes)
qed

lemma le_word_le_bytes_u32 [simp]: "le_word (le_bytes (w :: u32)) = w"
  by (rule le_word_le_bytes) simp

lemma le_word_le_bytes_u64 [simp]: "le_word (le_bytes (w :: u64)) = w"
  by (rule le_word_le_bytes) simp

lemma le_word_le_bytes_u8 [simp]: "le_word (le_bytes (w :: u8)) = w"
  by (rule le_word_le_bytes) simp

lemma le_bytes_u8 [simp]: "le_bytes (w :: u8) = [w]"
proof -
  have "unat w < 256" by (rule unat_u8_less)
  then show ?thesis by (simp add: le_bytes_def)
qed

lemma le_word_single_u8 [simp]: "le_word [b :: u8] = (b :: u8)"
  using le_word_le_bytes_u8 [of b] by (simp only: le_bytes_u8)

lemma le_bytes_le_word:
  assumes "LENGTH('a) = 8 * length bs"
  shows "le_bytes (le_word bs :: 'a::len word) = bs"
proof -
  have "bytes_nat bs < 256 ^ length bs"
    by (metis bytes_nat_nat_bytes nat_bytes_bytes_nat mod_less_divisor zero_less_power zero_less_numeral)
  also have "(256::nat) ^ length bs = 2 ^ LENGTH('a)" by (simp add: assms power_mult)
  finally show ?thesis
    by (simp add: le_bytes_def le_word_def unat_of_nat assms nat_bytes_bytes_nat)
qed

section \<open>Bounds-checked reads\<close>

definition readFromBuffer :: "nat \<Rightarrow> bytes \<Rightarrow> nat \<Rightarrow> exn + bytes \<times> nat" where
  "readFromBuffer n buffer offset =
     (if offset + n > length buffer then Inl OutOfRange
      else Inr (take n (drop offset buffer), offset + n))"

lemma readFromBuffer_append [simp]:
  "n = length xs \<Longrightarrow> readFromBuffer n (pre @ xs @ post) (length pre) = Inr (xs, length pre + n)"
  by (simp add: readFromBuffer_def)

lemma readFromBuffer_advances:
  "readFromBuffer n b off = Inr (bs, off') \<Longrightarrow>
     off' = off + n \<and> off' \<le> length b \<and> length bs = n \<and> bs = take n (drop off b)"
  by (auto simp: readFromBuffer_def split: if_splits)

end
