(* ===== verification/Enc_Pkg.thy ===== *)
theory Enc_Pkg
  imports Race_Bytes
begin

text \<open>
  The encrypted package of the SDK API: racesdk/common/source/EncPkg.cpp. A package is a trace
  id, a span id, a package type byte and the cipher text; its raw form is their concatenation.
\<close>

record enc_pkg =
  traceId :: u64
  spanId :: u64
  packageType :: u8
  cipherText :: bytes

datatype package_type = PKG_TYPE_UNDEF | PKG_TYPE_NM | PKG_TYPE_TEST_HARNESS | PKG_TYPE_SDK

fun package_type_code :: "package_type \<Rightarrow> u8" where
  "package_type_code PKG_TYPE_UNDEF = 0"
| "package_type_code PKG_TYPE_NM = 1"
| "package_type_code PKG_TYPE_TEST_HARNESS = 2"
| "package_type_code PKG_TYPE_SDK = 3"

definition enc_pkg_new :: "u64 \<Rightarrow> u64 \<Rightarrow> bytes \<Rightarrow> enc_pkg" where
  "enc_pkg_new t sp c = \<lparr>traceId = t, spanId = sp,
     packageType = package_type_code PKG_TYPE_UNDEF, cipherText = c\<rparr>"

text \<open>The constructor from raw data: anything shorter than the header yields the empty package.\<close>

definition enc_pkg_of_raw :: "bytes \<Rightarrow> enc_pkg" where
  "enc_pkg_of_raw raw =
     (if length raw \<ge> 8 + 8 + 1 then
        \<lparr>traceId = le_word (take 8 raw), spanId = le_word (take 8 (drop 8 raw)),
         packageType = le_word (take 1 (drop 16 raw)), cipherText = drop 17 raw\<rparr>
      else \<lparr>traceId = 0, spanId = 0, packageType = package_type_code PKG_TYPE_UNDEF,
            cipherText = []\<rparr>)"

definition getRawData :: "enc_pkg \<Rightarrow> bytes" where
  "getRawData p = le_bytes (traceId p) @ le_bytes (spanId p) @ le_bytes (packageType p) @
     cipherText p"

definition getSize :: "enc_pkg \<Rightarrow> nat" where
  "getSize p = length (cipherText p) + 8 + 8 + 1"

definition getPackageType :: "enc_pkg \<Rightarrow> package_type" where
  "getPackageType p =
     (if packageType p = package_type_code PKG_TYPE_NM then PKG_TYPE_NM
      else if packageType p = package_type_code PKG_TYPE_TEST_HARNESS then PKG_TYPE_TEST_HARNESS
      else if packageType p = package_type_code PKG_TYPE_SDK then PKG_TYPE_SDK
      else PKG_TYPE_UNDEF)"

text \<open>\<open>setTraceId\<close> as the code has it: it writes the span id.\<close>

definition setTraceId :: "u64 \<Rightarrow> enc_pkg \<Rightarrow> enc_pkg" where
  "setTraceId v p = p\<lparr>spanId := v\<rparr>"

definition setSpanId :: "u64 \<Rightarrow> enc_pkg \<Rightarrow> enc_pkg" where
  "setSpanId v p = p\<lparr>spanId := v\<rparr>"

definition setPackageType :: "package_type \<Rightarrow> enc_pkg \<Rightarrow> enc_pkg" where
  "setPackageType v p = p\<lparr>packageType := package_type_code v\<rparr>"

lemma length_getRawData [simp]: "length (getRawData p) = getSize p"
  by (simp add: getRawData_def getSize_def)

lemma getSize_pos [simp]: "0 < getSize p" "17 \<le> getSize p"
  by (simp_all add: getSize_def)

lemma enc_pkg_roundtrip_lemma [simp]: "enc_pkg_of_raw (getRawData p) = p"
proof -
  have "length (le_bytes (traceId p)) = 8" "length (le_bytes (spanId p)) = 8" by simp_all
  then show ?thesis
    by (simp add: enc_pkg_of_raw_def getRawData_def del: length_le_bytes)
qed

lemma getRawData_of_raw:
  assumes "17 \<le> length raw"
  shows "getRawData (enc_pkg_of_raw raw) = raw"
proof -
  have 1: "le_bytes (le_word (take 8 raw) :: u64) = take 8 raw"
    using assms by (intro le_bytes_le_word) simp
  have 2: "le_bytes (le_word (take 8 (drop 8 raw)) :: u64) = take 8 (drop 8 raw)"
    using assms by (intro le_bytes_le_word) simp
  have 3: "le_bytes (le_word (take 1 (drop 16 raw)) :: u8) = take 1 (drop 16 raw)"
    using assms by (intro le_bytes_le_word) simp
  have "take 1 (drop 16 raw) @ drop 17 raw = drop 16 raw"
    using append_take_drop_id [of 1 "drop 16 raw"] by simp
  moreover have "take 8 (drop 8 raw) @ drop 16 raw = drop 8 raw"
    using append_take_drop_id [of 8 "drop 8 raw"] by simp
  ultimately have "take 8 raw @ take 8 (drop 8 raw) @ take 1 (drop 16 raw) @ drop 17 raw = raw"
    by (simp only: append_take_drop_id)
  with 1 2 3 assms show ?thesis
    by (simp add: enc_pkg_of_raw_def getRawData_def del: le_bytes_u8)
qed

end
