(* ===== verification/Race_Types.thy ===== *)
theory Race_Types
  imports Race_Prelude
begin

text \<open>
  The types the SDK and its plugins exchange (racesdk/common): the enumerations with the strings
  they are written and read as, the properties of links and channels with their comparisons, and
  the responses of the SDK.
\<close>

section \<open>Enumerations\<close>

type_synonym i32 = "32 word"
type_synonym link_id = string
type_synonym conn_id = string

datatype package_status = PACKAGE_INVALID | PACKAGE_SENT | PACKAGE_RECEIVED
  | PACKAGE_FAILED_GENERIC | PACKAGE_FAILED_NETWORK_ERROR | PACKAGE_FAILED_TIMEOUT

datatype link_status = LINK_UNDEF | LINK_CREATED | LINK_LOADED | LINK_DESTROYED

datatype connection_status = CONNECTION_INVALID | CONNECTION_OPEN | CONNECTION_CLOSED
  | CONNECTION_AWAITING_CONTACT | CONNECTION_INIT_FAILED | CONNECTION_AVAILABLE
  | CONNECTION_UNAVAILABLE

datatype channel_status = CHANNEL_UNDEF | CHANNEL_AVAILABLE | CHANNEL_UNAVAILABLE
  | CHANNEL_ENABLED | CHANNEL_DISABLED | CHANNEL_STARTING | CHANNEL_FAILED | CHANNEL_UNSUPPORTED

datatype link_type = LT_UNDEF | LT_SEND | LT_RECV | LT_BIDI

datatype link_side = LS_UNDEF | LS_CREATOR | LS_LOADER | LS_BOTH

datatype link_direction = LD_UNDEF | LD_CREATOR_TO_LOADER | LD_LOADER_TO_CREATOR | LD_BIDI

datatype connection_type = CT_UNDEF | CT_DIRECT | CT_INDIRECT | CT_MIXED | CT_LOCAL

datatype send_type = ST_UNDEF | ST_STORED_ASYNC | ST_EPHEM_SYNC

datatype transmission_type = TT_UNDEF | TT_UNICAST | TT_MULTICAST

datatype sdk_status = SDK_INVALID | SDK_OK | SDK_SHUTTING_DOWN | SDK_PLUGIN_MISSING
  | SDK_INVALID_ARGUMENT | SDK_QUEUE_FULL

datatype plugin_response = PLUGIN_INVALID | PLUGIN_OK | PLUGIN_TEMP_ERROR | PLUGIN_ERROR
  | PLUGIN_FATAL

text \<open>
  The \<open>toString\<close> functions. The sources also answer for integers that are no enumerator; a value
  of a datatype always is one.
\<close>

fun packageStatusToString :: "package_status \<Rightarrow> string" where
  "packageStatusToString PACKAGE_INVALID = ''PACKAGE_INVALID''"
| "packageStatusToString PACKAGE_SENT = ''PACKAGE_SENT''"
| "packageStatusToString PACKAGE_RECEIVED = ''PACKAGE_RECEIVED''"
| "packageStatusToString PACKAGE_FAILED_GENERIC = ''PACKAGE_FAILED_GENERIC''"
| "packageStatusToString PACKAGE_FAILED_NETWORK_ERROR = ''PACKAGE_FAILED_NETWORK_ERROR''"
| "packageStatusToString PACKAGE_FAILED_TIMEOUT = ''PACKAGE_FAILED_TIMEOUT''"

fun linkStatusToString :: "link_status \<Rightarrow> string" where
  "linkStatusToString LINK_UNDEF = ''LINK_UNDEF''"
| "linkStatusToString LINK_CREATED = ''LINK_CREATED''"
| "linkStatusToString LINK_LOADED = ''LINK_LOADED''"
| "linkStatusToString LINK_DESTROYED = ''LINK_DESTROYED''"

fun connectionStatusToString :: "connection_status \<Rightarrow> string" where
  "connectionStatusToString CONNECTION_INVALID = ''CONNECTION_INVALID''"
| "connectionStatusToString CONNECTION_OPEN = ''CONNECTION_OPEN''"
| "connectionStatusToString CONNECTION_CLOSED = ''CONNECTION_CLOSED''"
| "connectionStatusToString CONNECTION_AWAITING_CONTACT = ''CONNECTION_AWAITING_CONTACT''"
| "connectionStatusToString CONNECTION_INIT_FAILED = ''CONNECTION_INIT_FAILED''"
| "connectionStatusToString CONNECTION_AVAILABLE = ''CONNECTION_AVAILABLE''"
| "connectionStatusToString CONNECTION_UNAVAILABLE = ''CONNECTION_UNAVAILABLE''"

fun channelStatusToString :: "channel_status \<Rightarrow> string" where
  "channelStatusToString CHANNEL_UNDEF = ''CHANNEL_UNDEF''"
| "channelStatusToString CHANNEL_AVAILABLE = ''CHANNEL_AVAILABLE''"
| "channelStatusToString CHANNEL_UNAVAILABLE = ''CHANNEL_UNAVAILABLE''"
| "channelStatusToString CHANNEL_ENABLED = ''CHANNEL_ENABLED''"
| "channelStatusToString CHANNEL_DISABLED = ''CHANNEL_DISABLED''"
| "channelStatusToString CHANNEL_STARTING = ''CHANNEL_STARTING''"
| "channelStatusToString CHANNEL_FAILED = ''CHANNEL_FAILED''"
| "channelStatusToString CHANNEL_UNSUPPORTED = ''CHANNEL_UNSUPPORTED''"

fun linkTypeToString :: "link_type \<Rightarrow> string" where
  "linkTypeToString LT_UNDEF = ''LT_UNDEF''"
| "linkTypeToString LT_SEND = ''LT_SEND''"
| "linkTypeToString LT_RECV = ''LT_RECV''"
| "linkTypeToString LT_BIDI = ''LT_BIDI''"

fun linkSideToString :: "link_side \<Rightarrow> string" where
  "linkSideToString LS_UNDEF = ''LS_UNDEF''"
| "linkSideToString LS_CREATOR = ''LS_CREATOR''"
| "linkSideToString LS_LOADER = ''LS_LOADER''"
| "linkSideToString LS_BOTH = ''LS_BOTH''"

fun linkDirectionToString :: "link_direction \<Rightarrow> string" where
  "linkDirectionToString LD_UNDEF = ''LD_UNDEF''"
| "linkDirectionToString LD_CREATOR_TO_LOADER = ''LD_CREATOR_TO_LOADER''"
| "linkDirectionToString LD_LOADER_TO_CREATOR = ''LD_LOADER_TO_CREATOR''"
| "linkDirectionToString LD_BIDI = ''LD_BIDI''"

fun connectionTypeToString :: "connection_type \<Rightarrow> string" where
  "connectionTypeToString CT_UNDEF = ''CT_UNDEF''"
| "connectionTypeToString CT_DIRECT = ''CT_DIRECT''"
| "connectionTypeToString CT_INDIRECT = ''CT_INDIRECT''"
| "connectionTypeToString CT_MIXED = ''CT_MIXED''"
| "connectionTypeToString CT_LOCAL = ''CT_LOCAL''"

fun sendTypeToString :: "send_type \<Rightarrow> string" where
  "sendTypeToString ST_UNDEF = ''ST_UNDEF''"
| "sendTypeToString ST_STORED_ASYNC = ''ST_STORED_ASYNC''"
| "sendTypeToString ST_EPHEM_SYNC = ''ST_EPHEM_SYNC''"

fun transmissionTypeToString :: "transmission_type \<Rightarrow> string" where
  "transmissionTypeToString TT_UNDEF = ''TT_UNDEF''"
| "transmissionTypeToString TT_UNICAST = ''TT_UNICAST''"
| "transmissionTypeToString TT_MULTICAST = ''TT_MULTICAST''"

fun sdkStatusToString :: "sdk_status \<Rightarrow> string" where
  "sdkStatusToString SDK_INVALID = ''SDK_INVALID''"
| "sdkStatusToString SDK_OK = ''SDK_OK''"
| "sdkStatusToString SDK_SHUTTING_DOWN = ''SDK_SHUTTING_DOWN''"
| "sdkStatusToString SDK_PLUGIN_MISSING = ''SDK_PLUGIN_MISSING''"
| "sdkStatusToString SDK_INVALID_ARGUMENT = ''SDK_INVALID_ARGUMENT''"
| "sdkStatusToString SDK_QUEUE_FULL = ''SDK_QUEUE_FULL''"

text \<open>The \<open>fromString\<close> functions, which throw \<open>std::invalid_argument\<close>.\<close>

definition linkSideFromString :: "string \<Rightarrow> exn + link_side" where
  "linkSideFromString s =
     (if s = ''LS_UNDEF'' then Inr LS_UNDEF
      else if s = ''LS_CREATOR'' then Inr LS_CREATOR
      else if s = ''LS_LOADER'' then Inr LS_LOADER
      else if s = ''LS_BOTH'' then Inr LS_BOTH
      else Inl InvalidArgument)"

definition linkDirectionFromString :: "string \<Rightarrow> exn + link_direction" where
  "linkDirectionFromString s =
     (if s = ''LD_UNDEF'' then Inr LD_UNDEF
      else if s = ''LD_CREATOR_TO_LOADER'' then Inr LD_CREATOR_TO_LOADER
      else if s = ''LD_LOADER_TO_CREATOR'' then Inr LD_LOADER_TO_CREATOR
      else if s = ''LD_BIDI'' then Inr LD_BIDI
      else Inl InvalidArgument)"

definition connectionTypeFromString :: "string \<Rightarrow> exn + connection_type" where
  "connectionTypeFromString s =
     (if s = ''CT_UNDEF'' then Inr CT_UNDEF
      else if s = ''CT_DIRECT'' then Inr CT_DIRECT
      else if s = ''CT_INDIRECT'' then Inr CT_INDIRECT
      else if s = ''CT_MIXED'' then Inr CT_MIXED
      else if s = ''CT_LOCAL'' then Inr CT_LOCAL
      else Inl InvalidArgument)"

definition sendTypeFromString :: "string \<Rightarrow> exn + send_type" where
  "sendTypeFromString s =
     (if s = ''ST_UNDEF'' then Inr ST_UNDEF
      else if s = ''ST_STORED_ASYNC'' then Inr ST_STORED_ASYNC
      else if s = ''ST_EPHEM_SYNC'' then Inr ST_EPHEM_SYNC
      else Inl InvalidArgument)"

definition transmissionTypeFromString :: "string \<Rightarrow> exn + transmission_type" where
  "transmissionTypeFromString s =
     (if s = ''TT_UNDEF'' then Inr TT_UNDEF
      else if s = ''TT_UNICAST'' then Inr TT_UNICAST
      else if s = ''TT_MULTICAST'' then Inr TT_MULTICAST
      else Inl InvalidArgument)"

text \<open>
  The interface of a textual enumeration: a printer, and a parser that reads exactly what the
  printer writes.
\<close>

locale enum_strings =
  fixes print :: "'a \<Rightarrow> string" and parse :: "string \<Rightarrow> exn + 'a"
  assumes parse_print: "parse (print x) = Inr x"
    and print_parse: "parse s = Inr x \<Longrightarrow> print x = s"
    and parse_error: "parse s = Inl e \<Longrightarrow> e = InvalidArgument"
begin

lemma parse_iff: "parse s = Inr x \<longleftrightarrow> s = print x"
  using parse_print print_parse by blast

lemma print_inj: "print x = print y \<longleftrightarrow> x = y"
  by (metis parse_print sum.inject(2))

lemma parse_fails: "parse s = Inl e \<longleftrightarrow> e = InvalidArgument \<and> s \<notin> range print"
proof (cases "parse s")
  case (Inl f)
  then have "s \<noteq> print x" for x using parse_print [of x] by auto
  then show ?thesis using Inl parse_error by auto
next
  case (Inr x)
  then have "s = print x" using print_parse by simp
  then show ?thesis using parse_print [of x] by auto
qed

end

interpretation link_sides: enum_strings linkSideToString linkSideFromString
proof
  show "linkSideFromString (linkSideToString x) = Inr x" for x by (cases x) (simp_all add: linkSideFromString_def)
qed (auto simp: linkSideFromString_def split: if_splits)

interpretation link_directions: enum_strings linkDirectionToString linkDirectionFromString
proof
  show "linkDirectionFromString (linkDirectionToString x) = Inr x" for x
    by (cases x) (simp_all add: linkDirectionFromString_def)
qed (auto simp: linkDirectionFromString_def split: if_splits)

interpretation connection_types: enum_strings connectionTypeToString connectionTypeFromString
proof
  show "connectionTypeFromString (connectionTypeToString x) = Inr x" for x
    by (cases x) (simp_all add: connectionTypeFromString_def)
qed (auto simp: connectionTypeFromString_def split: if_splits)

interpretation send_types: enum_strings sendTypeToString sendTypeFromString
proof
  show "sendTypeFromString (sendTypeToString x) = Inr x" for x by (cases x) (simp_all add: sendTypeFromString_def)
qed (auto simp: sendTypeFromString_def split: if_splits)

interpretation transmission_types: enum_strings transmissionTypeToString transmissionTypeFromString
proof
  show "transmissionTypeFromString (transmissionTypeToString x) = Inr x" for x
    by (cases x) (simp_all add: transmissionTypeFromString_def)
qed (auto simp: transmissionTypeFromString_def split: if_splits)

text \<open>
  The textual enumerations of the configuration read back what they write, distinct values are
  written differently, and every other text is rejected with \<open>std::invalid_argument\<close>.
\<close>

theorem enums_roundtrip:
  "(linkSideFromString s = Inr a \<longleftrightarrow> s = linkSideToString a) \<and>
   (linkSideFromString s = Inl e \<longleftrightarrow> e = InvalidArgument \<and> s \<notin> range linkSideToString) \<and>
   (linkDirectionFromString s = Inr b \<longleftrightarrow> s = linkDirectionToString b) \<and>
   (linkDirectionFromString s = Inl e \<longleftrightarrow> e = InvalidArgument \<and> s \<notin> range linkDirectionToString) \<and>
   (connectionTypeFromString s = Inr c \<longleftrightarrow> s = connectionTypeToString c) \<and>
   (connectionTypeFromString s = Inl e \<longleftrightarrow> e = InvalidArgument \<and> s \<notin> range connectionTypeToString) \<and>
   (sendTypeFromString s = Inr d \<longleftrightarrow> s = sendTypeToString d) \<and>
   (sendTypeFromString s = Inl e \<longleftrightarrow> e = InvalidArgument \<and> s \<notin> range sendTypeToString) \<and>
   (transmissionTypeFromString s = Inr t \<longleftrightarrow> s = transmissionTypeToString t) \<and>
   (transmissionTypeFromString s = Inl e \<longleftrightarrow> e = InvalidArgument \<and> s \<notin> range transmissionTypeToString)"
  by (intro conjI link_sides.parse_iff link_directions.parse_iff connection_types.parse_iff
    send_types.parse_iff transmission_types.parse_iff link_sides.parse_fails link_directions.parse_fails
    connection_types.parse_fails send_types.parse_fails transmission_types.parse_fails)

section \<open>Properties of links and channels\<close>

text \<open>\<open>loss\<close> is a float of the sources; only equality of it is used.\<close>

record link_property_set =
  bandwidth_bps :: i32
  latency_ms :: i32
  loss :: real

record link_property_pair =
  prop_send :: link_property_set
  prop_receive :: link_property_set

record link_properties =
  lp_linkType :: link_type
  lp_transmissionType :: transmission_type
  lp_connectionType :: connection_type
  lp_sendType :: send_type
  lp_reliable :: bool
  lp_isFlushable :: bool
  lp_duration_s :: i32
  lp_period_s :: i32
  lp_mtu :: i32
  lp_worst :: link_property_pair
  lp_expected :: link_property_pair
  lp_best :: link_property_pair
  lp_supported_hints :: "string list"
  lp_channelGid :: string
  lp_linkAddress :: string

record channel_role =
  roleName :: string
  mechanicalTags :: "string list"
  behavioralTags :: "string list"
  linkSide :: link_side

record channel_properties =
  channelStatus :: channel_status
  linkDirection :: link_direction
  transmissionType :: transmission_type
  connectionType :: connection_type
  sendType :: send_type
  multiAddressable :: bool
  reliable :: bool
  bootstrap :: bool
  isFlushable :: bool
  duration_s :: i32
  period_s :: i32
  mtu :: i32
  creatorExpected :: link_property_pair
  loaderExpected :: link_property_pair
  supported_hints :: "string list"
  maxLinks :: i32
  creatorsPerLoader :: i32
  loadersPerCreator :: i32
  roles :: "channel_role list"
  currentRole :: channel_role
  maxSendsPerInterval :: i32
  secondsPerInterval :: i32
  intervalEndTime :: u64
  sendsRemainingInInterval :: i32
  channelGid :: string

definition default_property_set :: link_property_set where
  "default_property_set = \<lparr>bandwidth_bps = -1, latency_ms = -1, loss = -1\<rparr>"

definition default_property_pair :: link_property_pair where
  "default_property_pair = \<lparr>prop_send = default_property_set, prop_receive = default_property_set\<rparr>"

definition default_link_properties :: link_properties where
  "default_link_properties = \<lparr>lp_linkType = LT_UNDEF, lp_transmissionType = TT_UNDEF,
     lp_connectionType = CT_UNDEF, lp_sendType = ST_UNDEF, lp_reliable = False,
     lp_isFlushable = False, lp_duration_s = -1, lp_period_s = -1, lp_mtu = -1,
     lp_worst = default_property_pair, lp_expected = default_property_pair,
     lp_best = default_property_pair, lp_supported_hints = [], lp_channelGid = [],
     lp_linkAddress = []\<rparr>"

definition default_role :: channel_role where
  "default_role = \<lparr>roleName = [], mechanicalTags = [], behavioralTags = [], linkSide = LS_UNDEF\<rparr>"

definition default_channel_properties :: channel_properties where
  "default_channel_properties = \<lparr>channelStatus = CHANNEL_UNDEF, linkDirection = LD_UNDEF,
     transmissionType = TT_UNDEF, connectionType = CT_UNDEF, sendType = ST_UNDEF,
     multiAddressable = False, reliable = False, bootstrap = False, isFlushable = False,
     duration_s = -1, period_s = -1, mtu = -1, creatorExpected = default_property_pair,
     loaderExpected = default_property_pair, supported_hints = [], maxLinks = -1,
     creatorsPerLoader = -1, loadersPerCreator = -1, roles = [], currentRole = default_role,
     maxSendsPerInterval = -1, secondsPerInterval = -1, intervalEndTime = 0,
     sendsRemainingInInterval = -1, channelGid = []\<rparr>"

subsection \<open>Comparisons\<close>

text \<open>\<open>operator==\<close> of the classes. It leaves some members out.\<close>

definition link_properties_eq :: "link_properties \<Rightarrow> link_properties \<Rightarrow> bool" where
  "link_properties_eq a b \<longleftrightarrow>
     lp_linkType a = lp_linkType b \<and> lp_channelGid a = lp_channelGid b \<and>
     lp_sendType a = lp_sendType b \<and> lp_transmissionType a = lp_transmissionType b \<and>
     lp_connectionType a = lp_connectionType b \<and> lp_worst a = lp_worst b \<and>
     lp_expected a = lp_expected b \<and> lp_best a = lp_best b \<and> lp_mtu a = lp_mtu b \<and>
     lp_reliable a = lp_reliable b \<and> lp_duration_s a = lp_duration_s b \<and>
     lp_period_s a = lp_period_s b \<and> lp_supported_hints a = lp_supported_hints b \<and>
     lp_linkAddress a = lp_linkAddress b"

definition channel_properties_eq :: "channel_properties \<Rightarrow> channel_properties \<Rightarrow> bool" where
  "channel_properties_eq a b \<longleftrightarrow>
     linkDirection a = linkDirection b \<and> channelGid a = channelGid b \<and>
     sendType a = sendType b \<and> transmissionType a = transmissionType b \<and>
     connectionType a = connectionType b \<and> loaderExpected a = loaderExpected b \<and>
     creatorExpected a = creatorExpected b \<and> mtu a = mtu b \<and> reliable a = reliable b \<and>
     duration_s a = duration_s b \<and> period_s a = period_s b \<and>
     supported_hints a = supported_hints b \<and> multiAddressable a = multiAddressable b \<and>
     maxLinks a = maxLinks b \<and> creatorsPerLoader a = creatorsPerLoader b \<and>
     loadersPerCreator a = loadersPerCreator b \<and> roles a = roles b \<and>
     currentRole a = currentRole b \<and> maxSendsPerInterval a = maxSendsPerInterval b \<and>
     secondsPerInterval a = secondsPerInterval b \<and> intervalEndTime a = intervalEndTime b \<and>
     sendsRemainingInInterval a = sendsRemainingInInterval b"

definition channelStaticPropertiesEqual :: "channel_properties \<Rightarrow> channel_properties \<Rightarrow> bool" where
  "channelStaticPropertiesEqual a b \<longleftrightarrow>
     channelGid a = channelGid b \<and> linkDirection a = linkDirection b \<and>
     transmissionType a = transmissionType b \<and> connectionType a = connectionType b \<and>
     sendType a = sendType b \<and> multiAddressable a = multiAddressable b \<and>
     reliable a = reliable b \<and> bootstrap a = bootstrap b \<and>
     isFlushable a = isFlushable b \<and> duration_s a = duration_s b \<and>
     period_s a = period_s b \<and> supported_hints a = supported_hints b \<and> mtu a = mtu b \<and>
     creatorExpected a = creatorExpected b \<and> loaderExpected a = loaderExpected b \<and>
     maxLinks a = maxLinks b \<and> creatorsPerLoader a = creatorsPerLoader b \<and>
     loadersPerCreator a = loadersPerCreator b \<and> roles a = roles b"

text \<open>What is not static: the status, the current role and the accounting of sends.\<close>

lemma channelStaticPropertiesEqual_iff:
  "channelStaticPropertiesEqual a b \<longleftrightarrow>
   (\<exists>st role m sec t left. b = a\<lparr>channelStatus := st, currentRole := role, maxSendsPerInterval := m,
      secondsPerInterval := sec, intervalEndTime := t, sendsRemainingInInterval := left\<rparr>)"
  by (cases a; cases b) (auto simp: channelStaticPropertiesEqual_def)

section \<open>Responses of the SDK\<close>

record sdk_response =
  resp_status :: sdk_status
  queueUtilization :: real
  resp_handle :: u64

definition NULL_RACE_HANDLE :: u64 where "NULL_RACE_HANDLE = 0"

definition sdk_response_of :: "sdk_status \<Rightarrow> sdk_response" where
  "sdk_response_of st = \<lparr>resp_status = st, queueUtilization = 0, resp_handle = NULL_RACE_HANDLE\<rparr>"

end
