(* ===== verification/CM_Types.thy ===== *)
theory CM_Types
  imports Enc_Pkg Race_Types "HOL-Library.AList"
begin

text \<open>
  The data of the component manager, which runs a comms channel decomposed into a transport, a
  user model and encodings: racesdk/core/source/decomposed-comms/ComponentManagerTypes.h and the
  data members of the managers beside it.

  The objects the code links by raw pointers (\<open>ActionInfo\<close>, \<open>PackageInfo\<close>,
  \<open>PackageFragmentInfo\<close>) live in heaps indexed by references that are never reused; the containers
  that own them (\<open>actions\<close>, \<open>packageQueue\<close>, \<open>packageFragments\<close>) hold references. A pointer to an
  \<open>EncodingInfo\<close> is the reference of its action with its index in \<open>encoding\<close>. A \<open>Link\<close> is named by
  its link id. Sizes of buffers in memory are natural numbers; the widths of the casts the code
  makes are kept.
\<close>

section \<open>Enumerations\<close>

datatype cm_internal_status = OK | ERROR | FATAL

datatype cm_state = INITIALIZING | UNACTIVATED | CREATING_COMPONENTS | WAITING_FOR_COMPONENTS
  | ACTIVATED | SHUTTING_DOWN | FAILED

text \<open>The enumerators are powers of two, so that a set of states is a mask.\<close>

fun state_bit :: "cm_state \<Rightarrow> u32" where
  "state_bit INITIALIZING = push_bit 0 1"
| "state_bit UNACTIVATED = push_bit 1 1"
| "state_bit CREATING_COMPONENTS = push_bit 2 1"
| "state_bit WAITING_FOR_COMPONENTS = push_bit 3 1"
| "state_bit ACTIVATED = push_bit 4 1"
| "state_bit SHUTTING_DOWN = push_bit 5 1"
| "state_bit FAILED = push_bit 6 1"

datatype encoding_state = E_UNENCODED | E_ENCODING | E_ENQUEUED | E_DONE

datatype encoding_mode = SINGLE | BATCH | FRAGMENT_SINGLE_PRODUCER | FRAGMENT_MULTIPLE_PRODUCER

datatype fragment_state = F_UNENCODED | F_ENCODING | F_ENQUEUED | F_DONE | F_SENT | F_FAILED

datatype encoding_status = ENCODE_OK | ENCODE_FAILED

datatype component_state = COMPONENT_STATE_INIT | COMPONENT_STATE_STARTED | COMPONENT_STATE_FAILED

definition CONTINUE_LAST_PACKAGE :: u8 where "CONTINUE_LAST_PACKAGE = 1"

definition CONTINUE_NEXT_PACKAGE :: u8 where "CONTINUE_NEXT_PACKAGE = 2"

section \<open>Records\<close>

type_synonym frag_ref = nat
type_synonym pkg_ref = nat
type_synonym action_ref = nat

text \<open>
  The fields of \<open>LinkProperties\<close> and \<open>LinkParameters\<close> are only handed on, so a value of them is
  opaque.
\<close>

type_synonym link_props = string

record action =
  timestamp :: real
  actionId :: u64
  action_json :: string

record encoding_parameters =
  param_linkId :: link_id
  param_type :: string
  encodePackage :: bool
  param_json :: string

record encoding_info =
  enc_params :: encoding_parameters
  enc_maxBytes :: "32 word"
  pendingEncodeHandle :: u64
  enc_state :: encoding_state

record action_info =
  ai_action :: action
  wildcardLink :: bool
  ai_linkId :: link_id
  encoding :: "encoding_info list"
  ai_fragments :: "frag_ref list"
  toBeRemoved :: bool

record fragment_info =
  fr_handle :: u64
  fr_package :: pkg_ref
  fr_state :: fragment_state
  fr_action :: "action_ref option"
  fr_offset :: nat
  fr_len :: nat
  markForDeletion :: bool

record package_info =
  pk_link :: link_id
  pk_pkg :: enc_pkg
  pk_sdkHandle :: u64
  pk_pendingEncodeHandle :: u64
  packageFragments :: "frag_ref list"

record producer_queue =
  lastFragmentReceived :: u32
  pendingBytes :: bytes

record link =
  connections :: "conn_id list"
  actionQueue :: "action_ref list"
  packageQueue :: "pkg_ref list"
  link_properties :: link_props
  producerId :: bytes
  fragmentCount :: u32
  producerQueues :: "bytes \<Rightarrow> producer_queue option"

text \<open>\<open>ActionCompare\<close>: by time stamp, then by action id.\<close>

definition action_lt :: "action \<Rightarrow> action \<Rightarrow> bool" where
  "action_lt a b \<longleftrightarrow> timestamp a < timestamp b \<or>
     (timestamp a = timestamp b \<and> actionId a < actionId b)"

section \<open>Calls out of the manager\<close>

text \<open>
  What the manager tells the SDK, the transport, the user model and the encodings. The wrappers
  post each of these calls to a thread of the component, so they return nothing to the manager
  and the order of the calls is what can be observed.
\<close>

datatype cm_call =
    SdkOnPackageStatusChanged u64 package_status
  | SdkReceiveEncPkg enc_pkg "conn_id list"
  | SdkUnblockQueue conn_id
  | SdkOnLinkStatusChanged u64 link_id link_status link_props
  | SdkOnConnectionStatusChanged u64 conn_id connection_status link_props
  | SdkOnChannelStatusChanged u64 string channel_status
  | SdkAsyncError plugin_response
  | SdkRequestPluginUserInput string string bool
  | SdkRequestCommonUserInput string
  | TransportCreateLink u64 link_id
  | TransportLoadLinkAddress u64 link_id string
  | TransportLoadLinkAddresses u64 link_id "string list"
  | TransportCreateLinkFromAddress u64 link_id string
  | TransportDestroyLink u64 link_id
  | TransportEnqueueContent encoding_parameters action bytes
  | TransportDoAction "u64 list" action
  | UserModelAddLink link_id link_props
  | UserModelRemoveLink link_id
  | UserModelOnTransportEvent string
  | EncoderEncodeBytes string u64 encoding_parameters bytes
  | EncoderDecodeBytes string u64 encoding_parameters bytes
  | ComponentOnUserInputReceived string u64 bool string

text \<open>
  What the components and the SDK answer in one step of the manager: the composition, the
  factories of the plugins, the properties of the components, the timelines of the user model.
  None of them is under the control of the manager, so they are an argument of every operation
  that asks.
\<close>

record env =
  env_compositionId :: string
  env_transport :: string
  env_usermodel :: string
  env_encodings :: "string list"
  env_createTransport :: "string \<Rightarrow> bool"
  env_createUserModel :: "string \<Rightarrow> bool"
  env_createEncoding :: "string \<Rightarrow> string \<Rightarrow> bool"
  env_encodingType :: "string \<Rightarrow> string"
  env_encodingTime :: "string \<Rightarrow> real"
  env_maxBytes :: "string \<Rightarrow> encoding_parameters \<Rightarrow> 32 word"
  env_supportedActions :: "(string \<times> string list) list"
  env_timelineLength :: real
  env_timelineFetchPeriod :: real
  env_getActionParams :: "action \<Rightarrow> encoding_parameters list"
  env_getTimeline :: "real \<Rightarrow> real \<Rightarrow> action list"
  env_onSendPackage :: "link_id \<Rightarrow> nat \<Rightarrow> action list"
  env_getLinkProperties :: "link_id \<Rightarrow> link_props"
  env_getEntropy :: "nat \<Rightarrow> bytes"

section \<open>The state of the manager\<close>

text \<open>
  The members of \<open>ComponentManagerInternal\<close> and of its six managers. The iteration order of an
  unordered container is kept as a list beside it (\<open>link_order\<close>). The clock is what the calls of
  \<open>helper::currentTime\<close> return one after the other: \<open>clock_reads\<close> counts the calls made.
\<close>

record cm =
  mode :: encoding_mode
  clock :: "nat \<Rightarrow> real"
  clock_reads :: nat
  calls :: "cm_call list"
  frags :: "frag_ref \<Rightarrow> fragment_info"
  pkgs :: "pkg_ref \<Rightarrow> package_info"
  next_pkg :: pkg_ref
  acts :: "action_ref \<Rightarrow> action_info"
  next_act :: action_ref
  pendingEncodings :: "u64 \<Rightarrow> (action_ref \<times> nat) option"
  nextEncodingHandle :: u64
  nextFragmentHandle :: nat
  fragments :: "u64 \<Rightarrow> frag_ref option"
  pendingDecodings :: "u64 \<Rightarrow> link_id option"
  nextDecodingHandle :: u64
  link_order :: "link_id list"
  links :: "link_id \<Rightarrow> link option"
  conns :: "conn_id \<Rightarrow> link_id option"
  actions :: "action_ref list"
  maxEncodingTime :: real
  timelineLength :: real
  timelineFetchPeriod :: real
  nextFetchTime :: timestamp
  nextActionTime :: timestamp
  nextEncodeTime :: timestamp
  lastEncodeTime :: real
  action_thread :: bool
  state :: cm_state
  componentStates :: "(string \<times> component_state) list"
  activateHandle :: u64
  encodings :: "string list"
  has_transport :: bool
  has_usermodel :: bool
  wrappers :: "string list"
  encodingsByType :: "(string \<times> string) list"
  idComponentMap :: "string list"
  userInputMap :: "u64 \<Rightarrow> (u64 \<times> string) option"

definition call :: "cm_call \<Rightarrow> cm \<Rightarrow> cm" where
  "call c s = s\<lparr>calls := calls s @ [c]\<rparr>"

definition upd_frag :: "frag_ref \<Rightarrow> (fragment_info \<Rightarrow> fragment_info) \<Rightarrow> cm \<Rightarrow> cm" where
  "upd_frag r f s = s\<lparr>frags := (frags s)(r := f (frags s r))\<rparr>"

definition upd_pkg :: "pkg_ref \<Rightarrow> (package_info \<Rightarrow> package_info) \<Rightarrow> cm \<Rightarrow> cm" where
  "upd_pkg r f s = s\<lparr>pkgs := (pkgs s)(r := f (pkgs s r))\<rparr>"

definition upd_act :: "action_ref \<Rightarrow> (action_info \<Rightarrow> action_info) \<Rightarrow> cm \<Rightarrow> cm" where
  "upd_act r f s = s\<lparr>acts := (acts s)(r := f (acts s r))\<rparr>"

definition upd_link :: "link_id \<Rightarrow> (link \<Rightarrow> link) \<Rightarrow> cm \<Rightarrow> cm" where
  "upd_link l f s = s\<lparr>links := (links s)(l := map_option f (links s l))\<rparr>"

definition currentTime :: "cm \<Rightarrow> real \<times> cm" where
  "currentTime s = (clock s (clock_reads s), s\<lparr>clock_reads := Suc (clock_reads s)\<rparr>)"

text \<open>\<open>getLink\<close> and \<open>getConnection\<close> are \<open>unordered_map::at\<close>.\<close>

definition getLink :: "cm \<Rightarrow> link_id \<Rightarrow> exn + link" where
  "getLink s l = (case links s l of None \<Rightarrow> Inl OutOfRange | Some lk \<Rightarrow> Inr lk)"

definition getConnection :: "cm \<Rightarrow> conn_id \<Rightarrow> exn + link_id" where
  "getConnection s c = (case conns s c of None \<Rightarrow> Inl OutOfRange | Some l \<Rightarrow> Inr l)"

definition getLinks :: "cm \<Rightarrow> link_id list" where
  "getLinks s = link_order s"

section \<open>Matching MIME types\<close>

text \<open>
  \<open>mimeTypeMatches\<close> of MimeTypes.cpp, on C++ strings: \<open>find\<close> returns \<open>npos\<close>, the largest 64-bit
  value, when the character is absent, and the offsets are 64-bit sums that wrap around;
  \<open>substr\<close> throws when its start is beyond the end.
\<close>

definition str_find :: "string \<Rightarrow> char \<Rightarrow> u64" where
  "str_find s c = (let n = length (takeWhile (\<lambda>x. x \<noteq> c) s) in
     if n = length s then - 1 else word_of_nat n)"

definition str_substr :: "string \<Rightarrow> u64 \<Rightarrow> u64 \<Rightarrow> exn + string" where
  "str_substr s pos n = (if unat pos > length s then Inl OutOfRange
     else Inr (take (unat n) (drop (unat pos) s)))"

definition mimeTypeMatches :: "string \<Rightarrow> string \<Rightarrow> bool" where
  "mimeTypeMatches mimeType pat =
     (let mimeTypeEnd = str_find mimeType CHR ''/'';
          mimeSubTypeEnd = str_find mimeType CHR '';'';
          patternTypeEnd = str_find pat CHR ''/'';
          patternSubTypeEnd = str_find pat CHR '';''
      in case (str_substr mimeType 0 mimeTypeEnd,
               str_substr mimeType (mimeTypeEnd + 1) (mimeSubTypeEnd - mimeTypeEnd - 1),
               str_substr pat 0 patternTypeEnd,
               str_substr pat (patternTypeEnd + 1) (patternSubTypeEnd - patternTypeEnd - 1)) of
           (Inr mimeTypeType, Inr mimeTypeSubType, Inr patternType, Inr patternSubType) \<Rightarrow>
             (patternType = ''*'' \<or> patternType = mimeTypeType) \<and>
             (patternSubType = ''*'' \<or> patternSubType = mimeTypeSubType)
         | _ \<Rightarrow> False)"

text \<open>A count beyond the end of the string, such as \<open>npos\<close>, is not run down by the evaluator.\<close>

lemma str_substr_code [code]:
  "str_substr s pos n = (if int (length s) < uint pos then Inl OutOfRange
     else let rest = drop (nat (uint pos)) s in
       Inr (if int (length rest) \<le> uint n then rest else take (nat (uint n)) rest))"
proof -
  have u: "uint w = int (unat w)" for w :: u64 by simp
  show ?thesis unfolding u nat_int of_nat_less_iff of_nat_le_iff str_substr_def Let_def by auto
qed

text \<open>\<open>ComponentLifetimeManager::encodingComponentFromEncodingParams\<close>: the first match.\<close>

fun encoding_by_type :: "(string \<times> string) list \<Rightarrow> encoding_parameters \<Rightarrow> string option" where
  "encoding_by_type [] params = None"
| "encoding_by_type ((ty, name) # rest) params =
     (if mimeTypeMatches ty (param_type params) then Some name else encoding_by_type rest params)"

definition encodingComponentFromEncodingParams :: "cm \<Rightarrow> encoding_parameters \<Rightarrow> string option" where
  "encodingComponentFromEncodingParams s params = encoding_by_type (encodingsByType s) params"

section \<open>Lemmas\<close>

lemma getLink_simps [simp]:
  "getLink s l = Inr lk \<longleftrightarrow> links s l = Some lk"
  "getLink s l = Inl e \<longleftrightarrow> links s l = None \<and> e = OutOfRange"
  by (auto simp: getLink_def split: option.splits)

lemma getLink_eqs [simp]:
  "links s l = Some lk \<Longrightarrow> getLink s l = Inr lk"
  "links s l = None \<Longrightarrow> getLink s l = Inl OutOfRange"
  by (auto simp: getLink_def)

end
