(* ===== verification/CM_Package.thy ===== *)
theory CM_Package
  imports CM_Types
begin

unbundle bit_operations_syntax

text \<open>
  Sending packages: racesdk/core/source/decomposed-comms/ComponentPackageManager.cpp. A package is
  cut into fragments that are assigned to the coming actions of its link, each action as far as
  its encodings have room; the fragments of an action are serialised and encoded shortly before
  the action is due, and a package is reported when the transport has sent all of its fragments.
\<close>

section \<open>Room in an action\<close>

definition FRAGMENT_SINGLE_PRODUCER_OVERHEAD :: nat where
  "FRAGMENT_SINGLE_PRODUCER_OVERHEAD = 5"

definition FRAGMENT_MULTIPLE_PRODUCER_OVERHEAD :: nat where
  "FRAGMENT_MULTIPLE_PRODUCER_OVERHEAD = 21"

definition FRAGMENT_LEN_SIZE :: nat where
  "FRAGMENT_LEN_SIZE = 4"

definition pkg_of :: "cm \<Rightarrow> fragment_info \<Rightarrow> enc_pkg" where
  "pkg_of s f = pk_pkg (pkgs s (fr_package f))"

definition isLastFragment :: "cm \<Rightarrow> fragment_info \<Rightarrow> bool" where
  "isLastFragment s f \<longleftrightarrow> fr_offset f + fr_len f \<ge> getSize (pkg_of s f)"

definition isPackageFinished :: "cm \<Rightarrow> package_info \<Rightarrow> bool" where
  "isPackageFinished s p =
     (if \<exists>r \<in> set (packageFragments p). fr_state (frags s r) = F_FAILED then True
      else if packageFragments p = [] then False
      else if \<not> isLastFragment s (frags s (last (packageFragments p))) then False
      else \<forall>r \<in> set (packageFragments p). fr_state (frags s r) = F_SENT)"

definition perFragmentOverhead :: "encoding_mode \<Rightarrow> nat" where
  "perFragmentOverhead m = (if m = SINGLE then 0 else FRAGMENT_LEN_SIZE)"

definition perActionOverhead :: "encoding_mode \<Rightarrow> nat" where
  "perActionOverhead m =
     (if m = FRAGMENT_SINGLE_PRODUCER then FRAGMENT_SINGLE_PRODUCER_OVERHEAD
      else if m = FRAGMENT_MULTIPLE_PRODUCER then FRAGMENT_MULTIPLE_PRODUCER_OVERHEAD
      else 0)"

text \<open>\<open>maxBytes\<close> is an \<open>int32_t\<close> cast to \<open>size_t\<close>, and the sum wraps around.\<close>

definition sum_maxBytes :: "encoding_info list \<Rightarrow> u64" where
  "sum_maxBytes es = foldl (\<lambda>n e. n + word_of_int (sint (enc_maxBytes e))) 0 es"

definition filled_bytes :: "cm \<Rightarrow> action_info \<Rightarrow> nat" where
  "filled_bytes s a = perActionOverhead (mode s) +
     (\<Sum>r\<leftarrow>ai_fragments a. perFragmentOverhead (mode s) + fr_len (frags s r))"

definition spaceAvailableInAction :: "cm \<Rightarrow> action_info \<Rightarrow> nat" where
  "spaceAvailableInAction s a =
     (if toBeRemoved a then 0
      else if mode s = SINGLE \<and> ai_fragments a \<noteq> [] then 0
      else if \<exists>e \<in> set (encoding a). enc_state e \<noteq> E_UNENCODED then 0
      else let maxBytes = unat (sum_maxBytes (encoding a));
               filled = filled_bytes s a
           in if maxBytes > filled + perFragmentOverhead (mode s)
              then maxBytes - filled - perFragmentOverhead (mode s) else 0)"

definition isActionAbleToFit :: "cm \<Rightarrow> action_info \<Rightarrow> enc_pkg \<Rightarrow> bool" where
  "isActionAbleToFit s a p =
     (let spaceAvailable = spaceAvailableInAction s a; minFragmentSize = 1
      in if mode s = SINGLE \<or> mode s = BATCH then spaceAvailable > getSize p
         else spaceAvailable > minFragmentSize)"

definition isPackageAbleToFit :: "cm \<Rightarrow> link_id \<Rightarrow> link \<Rightarrow> enc_pkg \<Rightarrow> bool" where
  "isPackageAbleToFit s l lk p \<longleftrightarrow>
     (\<exists>a \<in> set (actionQueue lk).
        ((wildcardLink (acts s a) \<and> ai_linkId (acts s a) = []) \<or> ai_linkId (acts s a) = l) \<and>
        isActionAbleToFit s (acts s a) p)"

definition isTimeToEncode :: "cm \<Rightarrow> real \<Rightarrow> action_info \<Rightarrow> bool" where
  "isTimeToEncode s now a \<longleftrightarrow> now + maxEncodingTime s \<le> timestamp (ai_action a)"

section \<open>Assigning fragments to actions\<close>

text \<open>
  A new fragment: the counter \<open>nextFragmentHandle\<close> names the object, its handle is the 64-bit
  value of the counter.
\<close>

definition add_fragment ::
    "link_id \<Rightarrow> pkg_ref \<Rightarrow> action_ref \<Rightarrow> nat \<Rightarrow> nat \<Rightarrow> cm \<Rightarrow> cm" where
  "add_fragment l p a offset n s =
     (let r = nextFragmentHandle s; h = word_of_nat r
      in s\<lparr>nextFragmentHandle := Suc r,
           frags := (frags s)(r := \<lparr>fr_handle = h, fr_package = p, fr_state = F_UNENCODED,
             fr_action = Some a, fr_offset = offset, fr_len = n, markForDeletion = False\<rparr>),
           fragments := (fragments s)(h := Some r),
           acts := (acts s)(a := (acts s a)\<lparr>ai_fragments := ai_fragments (acts s a) @ [r],
             ai_linkId := l\<rparr>),
           pkgs := (pkgs s)(p := (pkgs s p)\<lparr>packageFragments := packageFragments (pkgs s p) @ [r]\<rparr>)\<rparr>)"

fun generate_loop ::
    "real \<Rightarrow> link_id \<Rightarrow> pkg_ref \<Rightarrow> action_ref list \<Rightarrow> nat \<Rightarrow> cm \<Rightarrow> bool \<times> cm" where
  "generate_loop now l p [] offset s = (False, s)"
| "generate_loop now l p (a # as) offset s =
     (let ai = acts s a; pkg = pk_pkg (pkgs s p) in
      if (ai_linkId ai = l \<or> ai_linkId ai = []) \<and> isActionAbleToFit s ai pkg \<and>
         isTimeToEncode s now ai then
        let bytesToEncode = min (spaceAvailableInAction s ai) (getSize pkg - offset);
            s1 = add_fragment l p a offset bytesToEncode s;
            offset1 = offset + bytesToEncode
        in if offset1 = getSize pkg then (True, s1)
           else generate_loop now l p as offset1 s1
      else generate_loop now l p as offset s)"

definition next_offset :: "cm \<Rightarrow> pkg_ref \<Rightarrow> nat" where
  "next_offset s p =
     (if packageFragments (pkgs s p) \<noteq> [] then
        let f = frags s (last (packageFragments (pkgs s p))) in fr_offset f + fr_len f
      else 0)"

definition generateFragmentsForPackage ::
    "real \<Rightarrow> link_id \<Rightarrow> link \<Rightarrow> pkg_ref \<Rightarrow> cm \<Rightarrow> bool \<times> cm" where
  "generateFragmentsForPackage now l lk p s =
     (let offset = next_offset s p in
      if offset = getSize (pk_pkg (pkgs s p)) then (True, s)
      else generate_loop now l p (actionQueue lk) offset s)"

definition sendPackage ::
    "real \<Rightarrow> u64 \<Rightarrow> conn_id \<Rightarrow> enc_pkg \<Rightarrow> cm \<Rightarrow> (exn + plugin_response) \<times> cm" where
  "sendPackage now h connId pkg s =
     (case getConnection s connId of
        Inl e \<Rightarrow> (Inl e, s)
      | Inr l \<Rightarrow>
     (case getLink s l of
        Inl e \<Rightarrow> (Inl e, s)
      | Inr lk \<Rightarrow>
          if \<not> isPackageAbleToFit s l lk pkg then (Inr PLUGIN_TEMP_ERROR, s)
          else
            let p = next_pkg s;
                s1 = s\<lparr>next_pkg := Suc p, pkgs := (pkgs s)(p := \<lparr>pk_link = l, pk_pkg = pkg,
                  pk_sdkHandle = h, pk_pendingEncodeHandle = 0, packageFragments = []\<rparr>)\<rparr>;
                (_, s2) = generateFragmentsForPackage now l lk p s1
            in (Inr PLUGIN_OK,
                upd_link l (\<lambda>lk. lk\<lparr>packageQueue := packageQueue lk @ [p]\<rparr>) s2)))"

text \<open>\<open>removeMarkedFragments\<close>: a package keeps the fragments before its first marked one.\<close>

definition erase_fragments :: "frag_ref list \<Rightarrow> cm \<Rightarrow> cm" where
  "erase_fragments rs s =
     s\<lparr>fragments := (\<lambda>h. if h \<in> set (map (\<lambda>r. fr_handle (frags s r)) rs) then None
                          else fragments s h)\<rparr>"

definition removeMarked_package :: "pkg_ref \<Rightarrow> cm \<Rightarrow> cm" where
  "removeMarked_package p s =
     (let fs = packageFragments (pkgs s p);
          keep = takeWhile (\<lambda>r. \<not> markForDeletion (frags s r)) fs;
          gone = dropWhile (\<lambda>r. \<not> markForDeletion (frags s r)) fs
      in upd_pkg p (\<lambda>pk. pk\<lparr>packageFragments := keep\<rparr>) (erase_fragments gone s))"

definition removeMarkedFragments :: "link_id \<Rightarrow> cm \<Rightarrow> cm" where
  "removeMarkedFragments l s =
     (case links s l of None \<Rightarrow> s | Some lk \<Rightarrow> fold removeMarked_package (packageQueue lk) s)"

text \<open>Marking the fragments of an action for deletion and taking them off it.\<close>

definition mark_fragment :: "frag_ref \<Rightarrow> cm \<Rightarrow> cm" where
  "mark_fragment r = upd_frag r (\<lambda>f. f\<lparr>markForDeletion := True, fr_action := None\<rparr>)"

definition unassign_action :: "action_ref \<Rightarrow> cm \<Rightarrow> cm" where
  "unassign_action a s =
     upd_act a (\<lambda>ai. ai\<lparr>ai_fragments := []\<rparr>) (fold mark_fragment (ai_fragments (acts s a)) s)"

text \<open>
  The first loop of \<open>generateFragmentsForAllPackages\<close> on one action. The \<open>continue\<close> in the loop
  over its encodings continues that inner loop, so the state of the encodings has no influence.
\<close>

definition reset_action :: "real \<Rightarrow> action_ref \<Rightarrow> cm \<Rightarrow> cm" where
  "reset_action now a s =
     (if \<not> isTimeToEncode s now (acts s a) then s
      else upd_act a (\<lambda>ai. if wildcardLink ai then ai\<lparr>ai_linkId := []\<rparr> else ai)
             (unassign_action a s))"

definition reset_link :: "real \<Rightarrow> link_id \<Rightarrow> cm \<Rightarrow> cm" where
  "reset_link now l s =
     (case links s l of None \<Rightarrow> s
      | Some lk \<Rightarrow> removeMarkedFragments l (fold (reset_action now) (actionQueue lk) s))"

text \<open>
  One step of the assignment loops: package \<open>i\<close> of link \<open>l\<close>; \<open>full\<close> are the links whose queue is
  full.
\<close>

definition assign_step ::
    "real \<Rightarrow> nat \<Rightarrow> link_id \<Rightarrow> link_id list \<times> cm \<Rightarrow> link_id list \<times> cm" where
  "assign_step now i l st =
     (let (full, s) = st in
      case links s l of None \<Rightarrow> (full, s)
      | Some lk \<Rightarrow>
         if length (packageQueue lk) \<le> i \<or> l \<in> set full then (full, s)
         else
           let p = packageQueue lk ! i; fs = packageFragments (pkgs s p) in
           if fs \<noteq> [] \<and> isLastFragment s (frags s (last fs)) then (full, s)
           else case generateFragmentsForPackage now l lk p s of
                  (True, s1) \<Rightarrow> (full, s1)
                | (False, s1) \<Rightarrow> (l # full, s1))"

definition maxPackages :: "cm \<Rightarrow> nat" where
  "maxPackages s = fold (\<lambda>l m. case links s l of None \<Rightarrow> m
     | Some lk \<Rightarrow> max m (length (packageQueue lk))) (getLinks s) 0"

definition assign_packages :: "real \<Rightarrow> cm \<Rightarrow> link_id list \<times> cm" where
  "assign_packages now s =
     fold (\<lambda>i st. fold (assign_step now i) (getLinks s) st) [0..<maxPackages s] ([], s)"

definition unblock_connections :: "link_id list \<Rightarrow> link_id \<Rightarrow> cm \<Rightarrow> cm" where
  "unblock_connections full l s =
     (if l \<in> set full then s
      else case links s l of None \<Rightarrow> s
           | Some lk \<Rightarrow> fold (\<lambda>c. call (SdkUnblockQueue c)) (connections lk) s)"

definition generateFragmentsForAllPackages :: "cm \<Rightarrow> cm" where
  "generateFragmentsForAllPackages s0 =
     (let (now, s) = currentTime s0;
          s1 = fold (reset_link now) (getLinks s) s;
          (full, s2) = assign_packages now s1
      in fold (unblock_connections full) (getLinks s2) s2)"

definition updatedActions :: "cm \<Rightarrow> cm" where
  "updatedActions s = generateFragmentsForAllPackages s"

section \<open>Encoding an action\<close>

text \<open>The bytes of one fragment; offset and length are truncated to 32 bits.\<close>

definition fragment_payload :: "cm \<Rightarrow> frag_ref \<Rightarrow> bytes" where
  "fragment_payload s r =
     (let f = frags s r; data = getRawData (pkg_of s f);
          offset = (word_of_nat (fr_offset f) :: u32); len = (word_of_nat (fr_len f) :: u32);
          body = take (unat len) (drop (unat offset) data)
      in if mode s \<noteq> SINGLE then le_bytes len @ body else body)"

definition fragment_flags :: "cm \<Rightarrow> frag_ref list \<Rightarrow> u8" where
  "fragment_flags s rs =
     (if fr_offset (frags s (hd rs)) \<noteq> 0 then CONTINUE_LAST_PACKAGE else 0) OR
     (if \<not> isLastFragment s (frags s (last rs)) then CONTINUE_NEXT_PACKAGE else 0)"

definition content_header :: "cm \<Rightarrow> link \<Rightarrow> frag_ref list \<Rightarrow> bytes" where
  "content_header s lk rs =
     (if mode s = FRAGMENT_MULTIPLE_PRODUCER then producerId lk else []) @
     (if mode s = FRAGMENT_MULTIPLE_PRODUCER \<or> mode s = FRAGMENT_SINGLE_PRODUCER
      then le_bytes (fragmentCount lk) @ [fragment_flags s rs] else [])"

definition bump_fragmentCount :: "link_id \<Rightarrow> cm \<Rightarrow> cm" where
  "bump_fragmentCount l s =
     (if mode s = FRAGMENT_MULTIPLE_PRODUCER \<or> mode s = FRAGMENT_SINGLE_PRODUCER
      then upd_link l (\<lambda>lk. lk\<lparr>fragmentCount := fragmentCount lk + 1\<rparr>) s else s)"

definition set_fragment_state :: "fragment_state \<Rightarrow> frag_ref \<Rightarrow> cm \<Rightarrow> cm" where
  "set_fragment_state st r = upd_frag r (\<lambda>f. f\<lparr>fr_state := st\<rparr>)"

definition upd_encoding ::
    "action_ref \<Rightarrow> nat \<Rightarrow> (encoding_info \<Rightarrow> encoding_info) \<Rightarrow> cm \<Rightarrow> cm" where
  "upd_encoding a i f = upd_act a (\<lambda>ai. ai\<lparr>encoding := (encoding ai)[i := f (encoding ai ! i)]\<rparr>)"

text \<open>The loop body over the encodings of the action.\<close>

definition encode_step :: "action_ref \<Rightarrow> bytes \<Rightarrow> nat \<Rightarrow> cm \<Rightarrow> cm" where
  "encode_step a bytes i s =
     (if enc_state (encoding (acts s a) ! i) \<noteq> E_UNENCODED then s
      else
        let h = nextEncodingHandle s + 1;
            s1 = upd_encoding a i (\<lambda>e. e\<lparr>pendingEncodeHandle := h, enc_state := E_ENCODING\<rparr>)
                   (s\<lparr>nextEncodingHandle := h\<rparr>);
            s2 = fold (\<lambda>r s. upd_pkg (fr_package (frags s r))
                         (\<lambda>p. p\<lparr>pk_pendingEncodeHandle := h\<rparr>) s) (ai_fragments (acts s1 a)) s1
        in case encodingComponentFromEncodingParams s2 (enc_params (encoding (acts s2 a) ! i)) of
             None \<Rightarrow> s2
           | Some enc \<Rightarrow>
               let s3 = upd_encoding a i (\<lambda>e. e\<lparr>enc_params :=
                          (enc_params e)\<lparr>param_linkId := ai_linkId (acts s2 a)\<rparr>\<rparr>)
                          (s2\<lparr>pendingEncodings := (pendingEncodings s2)(h := Some (a, i))\<rparr>)
               in call (EncoderEncodeBytes enc h (enc_params (encoding (acts s3 a) ! i)) bytes) s3)"

definition encode_all :: "action_ref \<Rightarrow> bytes \<Rightarrow> cm \<Rightarrow> cm" where
  "encode_all a bytes s = fold (encode_step a bytes) [0..<length (encoding (acts s a))] s"

definition action_content :: "cm \<Rightarrow> link \<Rightarrow> frag_ref list \<Rightarrow> bytes" where
  "action_content s lk rs = content_header s lk rs @ concat (map (fragment_payload s) rs)"

definition encodeForAction :: "action_ref \<Rightarrow> cm \<Rightarrow> exn option \<times> cm" where
  "encodeForAction a s =
     (let ai = acts s a; rs = ai_fragments ai in
      if ai_linkId ai = [] \<and> rs \<noteq> [] then (Some RuntimeError, s)
      else if mode s = SINGLE \<and> length rs > 1 then (Some RuntimeError, s)
      else if rs = [] then (None, encode_all a [] s)
      else case getLink s (ai_linkId ai) of
        Inl e \<Rightarrow> (Some e, s)
      | Inr lk \<Rightarrow>
          let s1 = fold (set_fragment_state F_ENCODING) rs (bump_fragmentCount (ai_linkId ai) s)
          in (None, encode_all a (action_content s lk rs) s1))"

section \<open>Callbacks\<close>

definition isActionEncoded :: "action_info \<Rightarrow> bool" where
  "isActionEncoded a \<longleftrightarrow> (\<exists>e \<in> set (encoding a). enc_state e = E_ENQUEUED)"

definition onBytesEncoded ::
    "u64 \<Rightarrow> bytes \<Rightarrow> encoding_status \<Rightarrow> cm \<Rightarrow> cm_internal_status \<times> cm" where
  "onBytesEncoded h bytes status s =
     (case pendingEncodings s h of
        None \<Rightarrow> (OK, s)
      | Some (a, i) \<Rightarrow>
          let s1 = s\<lparr>pendingEncodings := (pendingEncodings s)(h := None)\<rparr> in
          if status = ENCODE_OK then
            let e = encoding (acts s1 a) ! i;
                s2 = call (TransportEnqueueContent (enc_params e) (ai_action (acts s1 a)) bytes) s1;
                s3 = upd_encoding a i (\<lambda>e. e\<lparr>enc_state := E_ENQUEUED\<rparr>) s2
            in (OK, if isActionEncoded (acts s3 a)
                    then fold (set_fragment_state F_ENQUEUED) (ai_fragments (acts s3 a)) s3
                    else s3)
          else (OK, s1))"

text \<open>The part of \<open>onLinkStatusChanged\<close> the package manager does when a link is destroyed.\<close>

definition forget_encodings :: "action_ref \<Rightarrow> cm \<Rightarrow> cm" where
  "forget_encodings a s =
     upd_act a (\<lambda>ai. ai\<lparr>encoding := map (\<lambda>e. e\<lparr>enc_state := E_UNENCODED\<rparr>) (encoding ai),
                          ai_fragments := []\<rparr>)
       (s\<lparr>pendingEncodings := (\<lambda>h. if h \<in> set (map pendingEncodeHandle (encoding (acts s a)))
                                    then None else pendingEncodings s h)\<rparr>)"

definition fail_package :: "pkg_ref \<Rightarrow> cm \<Rightarrow> cm" where
  "fail_package p s =
     erase_fragments (packageFragments (pkgs s p))
       (call (SdkOnPackageStatusChanged (pk_sdkHandle (pkgs s p)) PACKAGE_FAILED_GENERIC) s)"

definition package_onLinkStatusChanged ::
    "link_id \<Rightarrow> link_status \<Rightarrow> cm \<Rightarrow> cm_internal_status \<times> cm" where
  "package_onLinkStatusChanged l status s =
     (if status = LINK_DESTROYED then
        (case getLink s l of
           Inl e \<Rightarrow> (OK, s)
         | Inr lk \<Rightarrow>
             let s1 = fold forget_encodings (actionQueue lk) s;
                 s2 = fold fail_package (packageQueue lk) s1
             in (OK, upd_link l (\<lambda>lk. lk\<lparr>packageQueue := []\<rparr>) s2))
      else (OK, s))"

text \<open>The loop of \<open>onPackageStatusChanged\<close> over the fragments of a finished package.\<close>

definition release_fragment :: "frag_ref \<Rightarrow> bool \<times> cm \<Rightarrow> bool \<times> cm" where
  "release_fragment r st =
     (let (reassign, s) = st;
          (reassign1, s1) =
            (case fr_action (frags s r) of
               Some a \<Rightarrow> if fr_state (frags s r) = F_UNENCODED
                         then (True, unassign_action a s) else (reassign, s)
             | None \<Rightarrow> (reassign, s))
      in (reassign1, erase_fragments [r] s1))"

definition new_fragment_state :: "package_status \<Rightarrow> fragment_state \<Rightarrow> fragment_state" where
  "new_fragment_state status st =
     (if status = PACKAGE_SENT then F_SENT
      else if status = PACKAGE_RECEIVED then st
      else F_FAILED)"

definition finish_package :: "pkg_ref \<Rightarrow> package_status \<Rightarrow> cm \<Rightarrow> cm" where
  "finish_package p status s =
     (let (reassign, s1) = fold release_fragment (packageFragments (pkgs s p)) (False, s);
          s2 = call (SdkOnPackageStatusChanged (pk_sdkHandle (pkgs s1 p)) status) s1;
          s3 = upd_link (pk_link (pkgs s2 p)) (\<lambda>lk. lk\<lparr>packageQueue :=
                 filter (\<lambda>q. pk_sdkHandle (pkgs s2 p) \<noteq> pk_sdkHandle (pkgs s2 q))
                   (packageQueue lk)\<rparr>) s2
      in if reassign then generateFragmentsForAllPackages s3 else s3)"

definition onPackageStatusChanged ::
    "u64 \<Rightarrow> package_status \<Rightarrow> cm \<Rightarrow> cm_internal_status \<times> cm" where
  "onPackageStatusChanged h status s =
     (case fragments s h of
        None \<Rightarrow> (OK, s)
      | Some r \<Rightarrow>
          let p = fr_package (frags s r);
              s1 = upd_frag r (\<lambda>f. f\<lparr>fr_state := new_fragment_state status (fr_state f)\<rparr>) s;
              s2 = s1\<lparr>fragments := (fragments s1)(h := None)\<rparr>
          in (OK, if isPackageFinished s2 (pkgs s2 p) then finish_package p status s2 else s2))"

section \<open>The end of an action\<close>

definition actionDone :: "action_ref \<Rightarrow> cm \<Rightarrow> cm" where
  "actionDone a s =
     (let s1 = s\<lparr>pendingEncodings := (\<lambda>h. if h \<in> set (map pendingEncodeHandle (encoding (acts s a)))
                                          then None else pendingEncodings s h)\<rparr>;
          s2 = upd_act a (\<lambda>ai. ai\<lparr>encoding := map (\<lambda>e. e\<lparr>enc_state := E_DONE\<rparr>) (encoding ai)\<rparr>) s1
      in fold (\<lambda>r. upd_frag r (\<lambda>f. f\<lparr>fr_state := F_DONE, fr_action := None\<rparr>))
           (ai_fragments (acts s2 a)) s2)"

definition getPackageHandlesForAction :: "action_ref \<Rightarrow> cm \<Rightarrow> u64 list" where
  "getPackageHandlesForAction a s = map (\<lambda>r. fr_handle (frags s r)) (ai_fragments (acts s a))"

definition package_teardown :: "cm \<Rightarrow> cm" where
  "package_teardown s = s\<lparr>pendingEncodings := \<lambda>_. None, fragments := \<lambda>_. None\<rparr>"

end
