(* ===== verification/CM_Package_Inv.thy ===== *)
theory CM_Package_Inv
  imports CM_Package "HOL-Library.Sublist"
begin

text \<open>
  The invariant of the package manager. The fragments of a package lie end to end from its first
  byte; an action never holds more than its encodings have room for; in an action only the last
  fragment may leave its package unfinished; an action with fragments belongs to a link.

  Most operations only take fragments away or leave them alone: \<open>pm_le\<close> says so, is a preorder,
  and the invariant is closed under it. Only \<open>add_fragment\<close> and the arrival of a package need a
  proof of their own.
\<close>

section \<open>The invariant\<close>

fun tiles :: "(frag_ref \<Rightarrow> fragment_info) \<Rightarrow> nat \<Rightarrow> frag_ref list \<Rightarrow> bool" where
  "tiles F off [] = True"
| "tiles F off (r # rs) = (fr_offset (F r) = off \<and> 0 < fr_len (F r) \<and>
     tiles F (off + fr_len (F r)) rs)"

definition tiles_end :: "(frag_ref \<Rightarrow> fragment_info) \<Rightarrow> frag_ref list \<Rightarrow> nat" where
  "tiles_end F rs = (\<Sum>r\<leftarrow>rs. fr_len (F r))"

definition pkg_wf :: "cm \<Rightarrow> pkg_ref \<Rightarrow> bool" where
  "pkg_wf s p \<longleftrightarrow>
     tiles (frags s) 0 (packageFragments (pkgs s p)) \<and>
     tiles_end (frags s) (packageFragments (pkgs s p)) \<le> getSize (pk_pkg (pkgs s p)) \<and>
     (\<forall>r \<in> set (packageFragments (pkgs s p)).
        r < nextFragmentHandle s \<and> fr_package (frags s r) = p)"

definition max_bytes :: "cm \<Rightarrow> action_ref \<Rightarrow> nat" where
  "max_bytes s a = unat (sum_maxBytes (encoding (acts s a)))"

definition act_wf :: "cm \<Rightarrow> action_ref \<Rightarrow> bool" where
  "act_wf s a \<longleftrightarrow> (let rs = ai_fragments (acts s a) in
     (\<forall>r \<in> set rs. r < nextFragmentHandle s \<and> fr_package (frags s r) < next_pkg s \<and>
        fr_offset (frags s r) + fr_len (frags s r) \<le> getSize (pkg_of s (frags s r)) \<and>
        0 < fr_len (frags s r)) \<and>
     (rs \<noteq> [] \<longrightarrow> filled_bytes s (acts s a) \<le> max_bytes s a \<and> ai_linkId (acts s a) \<noteq> []) \<and>
     (mode s = SINGLE \<longrightarrow> length rs \<le> 1) \<and>
     (\<forall>r \<in> set (butlast rs). isLastFragment s (frags s r)) \<and>
     (rs \<noteq> [] \<and> \<not> isLastFragment s (frags s (last rs)) \<longrightarrow>
        max_bytes s a \<le> filled_bytes s (acts s a) + perFragmentOverhead (mode s)))"

definition pm_ok :: "cm \<Rightarrow> bool" where
  "pm_ok s \<longleftrightarrow> (\<forall>p < next_pkg s. pkg_wf s p) \<and> (\<forall>a. act_wf s a) \<and>
     (\<forall>l lk. links s l = Some lk \<longrightarrow> l \<noteq> [] \<and> set (packageQueue lk) \<subseteq> {..<next_pkg s})"

lemma tiles_append:
  "tiles F off (xs @ ys) \<longleftrightarrow> tiles F off xs \<and> tiles F (off + tiles_end F xs) ys"
  by (induction xs arbitrary: off) (auto simp: tiles_end_def add.assoc)

lemma tiles_end_simps [simp]:
  "tiles_end F [] = 0"
  "tiles_end F (xs @ ys) = tiles_end F xs + tiles_end F ys"
  "tiles_end F [r] = fr_len (F r)"
  by (simp_all add: tiles_end_def)

lemma tiles_last:
  "tiles F off rs \<Longrightarrow> rs \<noteq> [] \<Longrightarrow>
     fr_offset (F (last rs)) + fr_len (F (last rs)) = off + tiles_end F rs"
  by (induction rs arbitrary: off) (auto simp: tiles_end_def add.assoc)

lemma tiles_cong:
  "(\<And>r. r \<in> set rs \<Longrightarrow> fr_offset (F r) = fr_offset (G r) \<and> fr_len (F r) = fr_len (G r)) \<Longrightarrow>
     tiles F off rs = tiles G off rs"
  by (induction rs arbitrary: off) auto

lemma tiles_end_cong:
  "(\<And>r. r \<in> set rs \<Longrightarrow> fr_len (F r) = fr_len (G r)) \<Longrightarrow> tiles_end F rs = tiles_end G rs"
  unfolding tiles_end_def by (rule arg_cong [of _ _ sum_list]) (rule map_cong, auto)

lemma tiles_end_prefix: "prefix xs ys \<Longrightarrow> tiles_end F xs \<le> tiles_end F ys"
  by (auto simp: prefix_def)

lemma next_offset_eq:
  "pkg_wf s p \<Longrightarrow> next_offset s p = tiles_end (frags s) (packageFragments (pkgs s p))"
  unfolding next_offset_def pkg_wf_def Let_def using tiles_last [of "frags s" 0] by fastforce

lemma sum_maxBytes_map:
  "sum_maxBytes es = foldl (\<lambda>n m. n + word_of_int (sint m)) 0 (map enc_maxBytes es)"
  by (simp add: sum_maxBytes_def foldl_map)

lemma pm_ok_link:
  assumes "pm_ok s" "links s l = Some lk"
  shows "l \<noteq> []" "p \<in> set (packageQueue lk) \<Longrightarrow> p < next_pkg s"
proof -
  from assms have "l \<noteq> [] \<and> set (packageQueue lk) \<subseteq> {..<next_pkg s}" by (simp add: pm_ok_def)
  then show "l \<noteq> []" "p \<in> set (packageQueue lk) \<Longrightarrow> p < next_pkg s" by auto
qed

section \<open>States with fewer fragments\<close>

definition frag_core :: "fragment_info \<Rightarrow> pkg_ref \<times> nat \<times> nat" where
  "frag_core f = (fr_package f, fr_offset f, fr_len f)"

definition act_le :: "action_info \<Rightarrow> action_info \<Rightarrow> bool" where
  "act_le a' a \<longleftrightarrow> map enc_maxBytes (encoding a') = map enc_maxBytes (encoding a) \<and>
     (ai_fragments a' = ai_fragments a \<and> ai_linkId a' = ai_linkId a \<or> ai_fragments a' = [])"

definition pkg_le :: "package_info \<Rightarrow> package_info \<Rightarrow> bool" where
  "pkg_le p' p \<longleftrightarrow> pk_pkg p' = pk_pkg p \<and> prefix (packageFragments p') (packageFragments p)"

definition link_le :: "link option \<Rightarrow> link option \<Rightarrow> bool" where
  "link_le lk' lk \<longleftrightarrow> (\<forall>k'. lk' = Some k' \<longrightarrow>
     (\<exists>k. lk = Some k \<and> set (packageQueue k') \<subseteq> set (packageQueue k)))"

definition pm_le :: "cm \<Rightarrow> cm \<Rightarrow> bool" where
  "pm_le s' s \<longleftrightarrow> next_pkg s' = next_pkg s \<and> mode s' = mode s \<and>
     nextFragmentHandle s' = nextFragmentHandle s \<and>
     (\<forall>r. frag_core (frags s' r) = frag_core (frags s r)) \<and>
     (\<forall>p. pkg_le (pkgs s' p) (pkgs s p)) \<and>
     (\<forall>a. act_le (acts s' a) (acts s a)) \<and>
     (\<forall>l. link_le (links s' l) (links s l))"

lemma le_refls [simp]: "act_le a a" "pkg_le p p" "link_le k k"
  by (auto simp: act_le_def pkg_le_def link_le_def)

lemma pm_le_refl [simp]: "pm_le s s"
  by (simp add: pm_le_def)

lemma act_le_trans: "act_le a b \<Longrightarrow> act_le b c \<Longrightarrow> act_le a c"
  by (auto simp: act_le_def)

lemma pkg_le_trans: "pkg_le a b \<Longrightarrow> pkg_le b c \<Longrightarrow> pkg_le a c"
  by (auto simp: pkg_le_def)

lemma link_le_trans: "link_le a b \<Longrightarrow> link_le b c \<Longrightarrow> link_le a c"
  unfolding link_le_def by (cases a; cases b; fastforce)

lemma pm_le_trans: "pm_le s1 s2 \<Longrightarrow> pm_le s2 s3 \<Longrightarrow> pm_le s1 s3"
  unfolding pm_le_def using act_le_trans pkg_le_trans link_le_trans by (intro conjI allI) metis+

lemma pm_le_fold:
  assumes "\<And>x s. pm_le (f x s) s"
  shows "pm_le (fold f xs s) s"
  by (induction xs arbitrary: s) (auto intro: pm_le_trans assms)

lemma filled_bytes_le:
  assumes "pm_le s' s" "ai_fragments a' = ai_fragments a"
  shows "filled_bytes s' a' = filled_bytes s a"
  using assms by (simp add: filled_bytes_def pm_le_def frag_core_def)

lemma max_bytes_le: "pm_le s' s \<Longrightarrow> max_bytes s' a = max_bytes s a"
  by (simp add: max_bytes_def pm_le_def act_le_def sum_maxBytes_map)

lemma isLastFragment_le:
  "pm_le s' s \<Longrightarrow> isLastFragment s' (frags s' r) = isLastFragment s (frags s r)"
  by (simp add: isLastFragment_def pkg_of_def pm_le_def frag_core_def pkg_le_def)

lemma act_wf_empty: "ai_fragments (acts s a) = [] \<Longrightarrow> act_wf s a"
  by (simp add: act_wf_def)

lemma act_wf_le:
  assumes le: "pm_le s' s" and wf: "act_wf s a"
  shows "act_wf s' a"
proof (cases "ai_fragments (acts s' a) = []")
  case False
  with le have eq: "ai_fragments (acts s' a) = ai_fragments (acts s a)"
    "ai_linkId (acts s' a) = ai_linkId (acts s a)"
    by (auto simp: pm_le_def act_le_def)
  have core: "nextFragmentHandle s' = nextFragmentHandle s" "next_pkg s' = next_pkg s"
    "mode s' = mode s" "\<And>r. fr_package (frags s' r) = fr_package (frags s r)"
    "\<And>r. fr_offset (frags s' r) = fr_offset (frags s r)"
    "\<And>r. fr_len (frags s' r) = fr_len (frags s r)"
    "\<And>p. pk_pkg (pkgs s' p) = pk_pkg (pkgs s p)"
    using le by (auto simp: pm_le_def frag_core_def pkg_le_def)
  show ?thesis
    using wf unfolding act_wf_def Let_def eq isLastFragment_le [OF le] max_bytes_le [OF le]
      filled_bytes_le [OF le eq(1)] pkg_of_def core .
qed (rule act_wf_empty)

lemma pkg_wf_le:
  assumes le: "pm_le s' s" and wf: "pkg_wf s p"
  shows "pkg_wf s' p"
proof -
  have core: "nextFragmentHandle s' = nextFragmentHandle s"
    "\<And>r. fr_package (frags s' r) = fr_package (frags s r)"
    "\<And>r. fr_offset (frags s' r) = fr_offset (frags s r)"
    "\<And>r. fr_len (frags s' r) = fr_len (frags s r)"
    "pk_pkg (pkgs s' p) = pk_pkg (pkgs s p)"
    "prefix (packageFragments (pkgs s' p)) (packageFragments (pkgs s p))"
    using le by (auto simp: pm_le_def frag_core_def pkg_le_def)
  let ?r' = "packageFragments (pkgs s' p)" and ?r = "packageFragments (pkgs s p)"
  have "tiles (frags s) 0 ?r'" "set ?r' \<subseteq> set ?r"
    using wf core(6) by (auto simp: pkg_wf_def prefix_def tiles_append)
  moreover have "tiles_end (frags s') ?r' = tiles_end (frags s) ?r'"
    "tiles (frags s') 0 ?r' = tiles (frags s) 0 ?r'"
    by (auto intro!: tiles_end_cong tiles_cong simp: core)
  moreover have "tiles_end (frags s) ?r' \<le> tiles_end (frags s) ?r"
    by (rule tiles_end_prefix [OF core(6)])
  ultimately show ?thesis using wf by (auto simp: pkg_wf_def core)
qed

lemma pm_ok_le:
  assumes "pm_le s' s" "pm_ok s"
  shows "pm_ok s'"
  unfolding pm_ok_def
proof (intro conjI allI impI)
  have eq: "next_pkg s' = next_pkg s" using assms(1) by (simp add: pm_le_def)
  fix p assume "p < next_pkg s'"
  with eq assms show "pkg_wf s' p" by (auto simp: pm_ok_def intro: pkg_wf_le)
next
  fix a show "act_wf s' a" using assms by (auto simp: pm_ok_def intro: act_wf_le)
next
  fix l lk assume l: "links s' l = Some lk"
  with assms(1) obtain lk0 where "links s l = Some lk0" "set (packageQueue lk) \<subseteq> set (packageQueue lk0)"
    unfolding pm_le_def link_le_def by meson
  moreover from this(1) assms(2) have "l \<noteq> []" "set (packageQueue lk0) \<subseteq> {..<next_pkg s}"
    by (auto simp: pm_ok_def)
  moreover have "next_pkg s' = next_pkg s" using assms(1) by (simp add: pm_le_def)
  ultimately show "l \<noteq> []" "set (packageQueue lk) \<subseteq> {..<next_pkg s'}" by auto
qed

section \<open>Operations that add no fragments\<close>

lemma pm_le_simple [simp]:
  "pm_le (call c s) s"
  "pm_le (s\<lparr>pendingEncodings := pe\<rparr>) s"
  "pm_le (s\<lparr>fragments := fm\<rparr>) s"
  "pm_le (s\<lparr>nextEncodingHandle := h\<rparr>) s"
  "pm_le (s\<lparr>clock_reads := n\<rparr>) s"
  "pm_le (erase_fragments rs s) s"
  by (simp_all add: pm_le_def call_def erase_fragments_def)

lemma pm_le_upd_frag:
  "(\<And>f. frag_core (g f) = frag_core f) \<Longrightarrow> pm_le (upd_frag r g s) s"
  by (simp add: pm_le_def upd_frag_def)

lemma pm_le_upd_pkg: "(\<And>p. pkg_le (g p) p) \<Longrightarrow> pm_le (upd_pkg r g s) s"
  by (simp add: pm_le_def upd_pkg_def)

lemma pm_le_upd_act: "(\<And>a. act_le (g a) a) \<Longrightarrow> pm_le (upd_act r g s) s"
  by (simp add: pm_le_def upd_act_def)

lemma pm_le_upd_link:
  "(\<And>k. set (packageQueue (g k)) \<subseteq> set (packageQueue k)) \<Longrightarrow> pm_le (upd_link l g s) s"
  by (auto simp: pm_le_def upd_link_def link_le_def)

lemma pm_le_mark_fragment [simp]: "pm_le (mark_fragment r s) s"
  by (simp add: mark_fragment_def pm_le_upd_frag frag_core_def)

lemma pm_le_set_fragment_state [simp]: "pm_le (set_fragment_state st r s) s"
  by (simp add: set_fragment_state_def pm_le_upd_frag frag_core_def)

lemma pm_le_unassign_action [simp]: "pm_le (unassign_action a s) s"
  unfolding unassign_action_def
  by (rule pm_le_trans [OF pm_le_upd_act pm_le_fold]) (auto simp: act_le_def)

lemma upd_act_upd_act: "upd_act a f (upd_act a g s) = upd_act a (\<lambda>x. f (g x)) s"
  by (simp add: upd_act_def)

lemma pm_le_reset_action [simp]: "pm_le (reset_action now a s) s"
  unfolding reset_action_def unassign_action_def
  by (auto simp: upd_act_upd_act intro!: pm_le_trans [OF pm_le_upd_act pm_le_fold])
    (auto simp: act_le_def)

lemma pm_le_removeMarked_package [simp]: "pm_le (removeMarked_package p s) s"
proof -
  let ?gone = "dropWhile (\<lambda>r. \<not> markForDeletion (frags s r)) (packageFragments (pkgs s p))"
  have eq: "pkgs (erase_fragments ?gone s) = pkgs s" by (simp add: erase_fragments_def)
  have "pkg_le (pkgs s p\<lparr>packageFragments :=
      takeWhile (\<lambda>r. \<not> markForDeletion (frags s r)) (packageFragments (pkgs s p))\<rparr>) (pkgs s p)"
    by (simp add: pkg_le_def takeWhile_is_prefix)
  then show ?thesis
    by (simp add: removeMarked_package_def Let_def upd_pkg_def eq pm_le_def erase_fragments_def)
qed

lemma pm_le_reset_link [simp]: "pm_le (reset_link now l s) s"
  unfolding reset_link_def removeMarkedFragments_def
  by (auto split: option.split intro: pm_le_fold
      intro!: pm_le_trans [OF pm_le_fold pm_le_fold])

lemma pm_le_unblock [simp]: "pm_le (unblock_connections full l s) s"
  unfolding unblock_connections_def by (auto split: option.split intro: pm_le_fold)

section \<open>A new fragment\<close>

lemma space_pos:
  assumes "0 < spaceAvailableInAction s (acts s a)"
  shows "spaceAvailableInAction s (acts s a) =
           max_bytes s a - filled_bytes s (acts s a) - perFragmentOverhead (mode s)"
    "filled_bytes s (acts s a) + perFragmentOverhead (mode s) < max_bytes s a"
    "mode s = SINGLE \<Longrightarrow> ai_fragments (acts s a) = []"
  using assms
  by (auto simp: spaceAvailableInAction_def max_bytes_def Let_def split: if_splits)

lemma fit_space_pos: "isActionAbleToFit s ai p \<Longrightarrow> 0 < spaceAvailableInAction s ai"
  by (auto simp: isActionAbleToFit_def Let_def split: if_splits)

lemma add_fragment_fields:
  "next_pkg (add_fragment l p a off n s) = next_pkg s"
  "mode (add_fragment l p a off n s) = mode s"
  "links (add_fragment l p a off n s) = links s"
  "nextFragmentHandle (add_fragment l p a off n s) = Suc (nextFragmentHandle s)"
  "frags (add_fragment l p a off n s) = (frags s)(nextFragmentHandle s :=
     \<lparr>fr_handle = word_of_nat (nextFragmentHandle s), fr_package = p, fr_state = F_UNENCODED,
      fr_action = Some a, fr_offset = off, fr_len = n, markForDeletion = False\<rparr>)"
  "acts (add_fragment l p a off n s) = (acts s)(a := (acts s a)\<lparr>
     ai_fragments := ai_fragments (acts s a) @ [nextFragmentHandle s], ai_linkId := l\<rparr>)"
  "pkgs (add_fragment l p a off n s) = (pkgs s)(p := (pkgs s p)\<lparr>
     packageFragments := packageFragments (pkgs s p) @ [nextFragmentHandle s]\<rparr>)"
  "maxEncodingTime (add_fragment l p a off n s) = maxEncodingTime s"
  "link_order (add_fragment l p a off n s) = link_order s"
  "conns (add_fragment l p a off n s) = conns s"
  by (simp_all add: add_fragment_def Let_def)

text \<open>The situation in which the loop adds a fragment.\<close>

definition adding :: "cm \<Rightarrow> pkg_ref \<Rightarrow> action_ref \<Rightarrow> nat \<Rightarrow> nat \<Rightarrow> bool" where
  "adding s p a off n \<longleftrightarrow> pm_ok s \<and> p < next_pkg s \<and>
     isActionAbleToFit s (acts s a) (pk_pkg (pkgs s p)) \<and>
     off = tiles_end (frags s) (packageFragments (pkgs s p)) \<and>
     n = min (spaceAvailableInAction s (acts s a)) (getSize (pk_pkg (pkgs s p)) - off) \<and>
     off < getSize (pk_pkg (pkgs s p))"

lemma addingD:
  assumes "adding s p a off n"
  shows "pm_ok s" "p < next_pkg s" "isActionAbleToFit s (acts s a) (pk_pkg (pkgs s p))"
    "off = tiles_end (frags s) (packageFragments (pkgs s p))"
    "n = min (spaceAvailableInAction s (acts s a)) (getSize (pk_pkg (pkgs s p)) - off)"
    "off < getSize (pk_pkg (pkgs s p))"
  using assms by (simp_all add: adding_def)

lemma add_n:
  assumes "adding s p a off n"
  shows "0 < n" "off + n \<le> getSize (pk_pkg (pkgs s p))"
  using fit_space_pos [OF addingD(3) [OF assms]] addingD(5,6) [OF assms] by auto

lemma add_old_frag:
  "r < nextFragmentHandle s \<Longrightarrow> frags (add_fragment l p a off n s) r = frags s r"
  by (simp add: add_fragment_fields)

lemma add_pkg_wf:
  assumes add: "adding s p a off n" and "q < next_pkg s"
  shows "pkg_wf (add_fragment l p a off n s) q"
proof -
  note ok = addingD(1) [OF add] and off = addingD(4) [OF add]
  have wf: "pkg_wf s q" using ok assms by (simp add: pm_ok_def)
  let ?F = "frags (add_fragment l p a off n s)" and ?rs = "packageFragments (pkgs s q)"
  have old: "\<And>r. r \<in> set ?rs \<Longrightarrow> ?F r = frags s r"
    using wf by (auto simp: pkg_wf_def add_old_frag)
  have t: "tiles ?F 0 ?rs" "tiles_end ?F ?rs = tiles_end (frags s) ?rs"
    using wf tiles_cong [of ?rs ?F "frags s"] tiles_end_cong [of ?rs ?F "frags s"] old
    by (auto simp: pkg_wf_def)
  have m: "r < Suc (nextFragmentHandle s) \<and> fr_package (?F r) = q" if "r \<in> set ?rs" for r
    using that wf old by (auto simp: pkg_wf_def)
  show ?thesis
  proof (cases "q = p")
    case True
    have pf: "packageFragments (pkgs (add_fragment l p a off n s) q) =
        ?rs @ [nextFragmentHandle s]"
      "pk_pkg (pkgs (add_fragment l p a off n s) q) = pk_pkg (pkgs s p)"
      "?F (nextFragmentHandle s) = \<lparr>fr_handle = word_of_nat (nextFragmentHandle s),
         fr_package = p, fr_state = F_UNENCODED, fr_action = Some a, fr_offset = off,
         fr_len = n, markForDeletion = False\<rparr>"
      "nextFragmentHandle (add_fragment l p a off n s) = Suc (nextFragmentHandle s)"
      using True by (simp_all add: add_fragment_fields)
    have e: "tiles_end ?F ?rs = off" using t(2) off True by simp
    have "tiles ?F 0 (?rs @ [nextFragmentHandle s])"
      using t(1) add_n(1) [OF add] by (simp add: tiles_append pf(3) e)
    moreover have "tiles_end ?F (?rs @ [nextFragmentHandle s]) \<le> getSize (pk_pkg (pkgs s p))"
      using add_n(2) [OF add] by (simp add: pf(3) e)
    moreover have "\<forall>r \<in> set (?rs @ [nextFragmentHandle s]).
        r < Suc (nextFragmentHandle s) \<and> fr_package (?F r) = q"
      using m True by (simp add: pf(3))
    ultimately show ?thesis unfolding pkg_wf_def pf(1,2,4) by blast
  next
    case False
    then have pf: "pkgs (add_fragment l p a off n s) q = pkgs s q"
      "nextFragmentHandle (add_fragment l p a off n s) = Suc (nextFragmentHandle s)"
      by (simp_all add: add_fragment_fields)
    show ?thesis using t m wf unfolding pkg_wf_def pf by auto
  qed
qed

lemma add_filled_other:
  assumes "\<forall>r \<in> set (ai_fragments ai). r < nextFragmentHandle s"
  shows "filled_bytes (add_fragment l p a off n s) ai = filled_bytes s ai"
proof -
  have "map (\<lambda>r. perFragmentOverhead (mode s) + fr_len (frags (add_fragment l p a off n s) r))
      (ai_fragments ai) = map (\<lambda>r. perFragmentOverhead (mode s) + fr_len (frags s r)) (ai_fragments ai)"
    using assms by (intro map_cong) (auto simp: add_old_frag)
  then show ?thesis by (simp only: filled_bytes_def add_fragment_fields(2))
qed

lemma add_pkg_of: "pkg_of (add_fragment l p a off n s) f = pkg_of s f"
  by (simp add: pkg_of_def add_fragment_fields)

lemma add_max_bytes: "max_bytes (add_fragment l p a off n s) b = max_bytes s b"
  by (simp add: max_bytes_def add_fragment_fields)

lemma add_act_wf_other:
  assumes ok: "pm_ok s" and "b \<noteq> a"
  shows "act_wf (add_fragment l p a off n s) b"
proof -
  have wf: "act_wf s b" using ok by (simp add: pm_ok_def)
  then have lt: "\<forall>r \<in> set (ai_fragments (acts s b)). r < nextFragmentHandle s"
    by (simp add: act_wf_def Let_def)
  have eq: "acts (add_fragment l p a off n s) b = acts s b"
    "mode (add_fragment l p a off n s) = mode s" "next_pkg (add_fragment l p a off n s) = next_pkg s"
    using assms by (simp_all add: add_fragment_fields)
  have last: "ai_fragments (acts s b) \<noteq> [] \<Longrightarrow>
      last (ai_fragments (acts s b)) < nextFragmentHandle s" using lt by simp
  have bl: "\<forall>r \<in> set (butlast (ai_fragments (acts s b))). r < nextFragmentHandle s"
    using lt by (auto dest: in_set_butlastD)
  show ?thesis
    using wf lt last bl
    unfolding act_wf_def Let_def eq isLastFragment_def add_pkg_of add_max_bytes
      add_filled_other [OF lt]
    by (auto simp: add_old_frag add_fragment_fields(4))
qed

lemma add_act_wf_same:
  assumes add: "adding s p a off n" and l: "l \<noteq> []"
  shows "act_wf (add_fragment l p a off n s) a"
proof -
  note ok = addingD(1) [OF add] and p = addingD(2) [OF add] and fit = addingD(3) [OF add]
    and n = addingD(5) [OF add]
  let ?s = "add_fragment l p a off n s" and ?rs = "ai_fragments (acts s a)"
  let ?r = "nextFragmentHandle s"
  have wf: "act_wf s a" using ok by (simp add: pm_ok_def)
  then have lt: "\<forall>r \<in> set ?rs. r < nextFragmentHandle s" by (simp add: act_wf_def Let_def)
  note sp = space_pos [OF fit_space_pos [OF fit]]
  have new: "ai_fragments (acts ?s a) = ?rs @ [?r]" "ai_linkId (acts ?s a) = l"
    "fr_len (frags ?s ?r) = n" "fr_offset (frags ?s ?r) = off" "fr_package (frags ?s ?r) = p"
    by (simp_all add: add_fragment_fields)
  have pkg: "pkg_of s (frags ?s ?r) = pk_pkg (pkgs s p)" by (simp add: pkg_of_def new)
  have filled: "filled_bytes ?s (acts ?s a) =
      filled_bytes s (acts s a) + perFragmentOverhead (mode s) + n"
    using add_filled_other [of "acts s a"] lt new(3)
    by (simp add: filled_bytes_def new(1) add_fragment_fields(2))
  have all_last: "isLastFragment s (frags s r)" if "r \<in> set ?rs" for r
  proof (cases "r = last ?rs")
    case True
    then show ?thesis using wf sp(2) that by (auto simp: act_wf_def Let_def)
  next
    case False
    then have "r \<in> set (butlast ?rs)" using that
      by (metis append_butlast_last_id in_set_conv_decomp_last insertE list.set(1) list.simps(15)
          rotate1.simps(2) set_rotate1 equals0D snoc_eq_iff_butlast)
    then show ?thesis using wf by (simp add: act_wf_def Let_def)
  qed
  have single: "mode s = SINGLE \<Longrightarrow> ?rs = []" by (rule sp(3))
  have cap: "filled_bytes ?s (acts ?s a) \<le> max_bytes s a"
  proof -
    have "n \<le> spaceAvailableInAction s (acts s a)" unfolding n by simp
    with sp(1,2) show ?thesis unfolding filled by linarith
  qed
  have tail: "\<not> isLastFragment s (frags ?s ?r) \<Longrightarrow> filled_bytes ?s (acts ?s a) = max_bytes s a"
  proof -
    assume "\<not> isLastFragment s (frags ?s ?r)"
    then have "off + n < getSize (pk_pkg (pkgs s p))"
      unfolding isLastFragment_def new pkg by simp
    then have "n = spaceAvailableInAction s (acts s a)"
      using n by (simp add: min_def split: if_splits)
    with sp(1,2) show ?thesis unfolding filled by linarith
  qed
  have refs: "\<forall>r \<in> set ?rs. r < nextFragmentHandle s \<and> fr_package (frags s r) < next_pkg s \<and>
        fr_offset (frags s r) + fr_len (frags s r) \<le> getSize (pkg_of s (frags s r)) \<and>
        0 < fr_len (frags s r)"
    using wf by (simp add: act_wf_def Let_def)
  have inner: "\<forall>r \<in> set ?rs. isLastFragment ?s (frags ?s r)"
    using all_last lt by (simp add: isLastFragment_def add_pkg_of add_old_frag)
  have last: "isLastFragment ?s (frags ?s ?r) = isLastFragment s (frags ?s ?r)"
    by (simp add: isLastFragment_def add_pkg_of)
  have mode: "mode ?s = mode s" "next_pkg ?s = next_pkg s" "nextFragmentHandle ?s = Suc ?r"
    by (simp_all add: add_fragment_fields)
  have refs': "\<forall>r \<in> set (?rs @ [?r]). r < Suc ?r \<and> fr_package (frags ?s r) < next_pkg s \<and>
        fr_offset (frags ?s r) + fr_len (frags ?s r) \<le> getSize (pkg_of ?s (frags ?s r)) \<and>
        0 < fr_len (frags ?s r)"
    using refs add_n [OF add] p by (auto simp: add_old_frag new add_pkg_of pkg)
  show ?thesis
    using refs' inner cap tail single l
    unfolding act_wf_def Let_def new(1,2) mode add_max_bytes last_snoc butlast_snoc last
    by auto
qed

lemma add_fragment_ok:
  assumes add: "adding s p a off n" and l: "l \<noteq> []"
  shows "pm_ok (add_fragment l p a off n s)"
proof -
  note ok = addingD(1) [OF add]
  have "act_wf (add_fragment l p a off n s) b" for b
    using add_act_wf_other [OF ok] add_act_wf_same [OF add l] by (cases "b = a") auto
  with ok add_pkg_wf [OF add] show ?thesis
    unfolding pm_ok_def add_fragment_fields(1,3) by blast
qed

lemma add_next_offset:
  assumes add: "adding s p a off n"
  shows "tiles_end (frags (add_fragment l p a off n s))
     (packageFragments (pkgs (add_fragment l p a off n s) p)) = off + n"
proof -
  note off = addingD(4) [OF add]
  have "pkg_wf s p" using addingD(1,2) [OF add] by (simp add: pm_ok_def)
  then have "tiles_end (frags (add_fragment l p a off n s)) (packageFragments (pkgs s p)) = off"
    unfolding off by (intro tiles_end_cong) (auto simp: pkg_wf_def add_old_frag)
  then show ?thesis by (simp add: add_fragment_fields)
qed

section \<open>Every operation keeps the invariant\<close>

text \<open>What assigning fragments does not touch.\<close>

definition same_frame :: "cm \<Rightarrow> cm \<Rightarrow> bool" where
  "same_frame s' s \<longleftrightarrow> next_pkg s' = next_pkg s \<and> mode s' = mode s \<and> links s' = links s \<and>
     link_order s' = link_order s \<and> maxEncodingTime s' = maxEncodingTime s \<and>
     conns s' = conns s"

lemma same_frame_refl [simp]: "same_frame s s"
  by (simp add: same_frame_def)

lemma same_frame_trans: "same_frame a b \<Longrightarrow> same_frame b c \<Longrightarrow> same_frame a c"
  by (simp add: same_frame_def)

lemma same_frame_add [simp]: "same_frame (add_fragment l p a off n s) s"
  by (simp add: same_frame_def add_fragment_fields)

lemma pkg_size_add [simp]:
  "pk_pkg (pkgs (add_fragment l p a off n s) q) = pk_pkg (pkgs s q)"
  by (simp add: add_fragment_fields)

lemma generate_loop_ok:
  assumes "pm_ok s" "p < next_pkg s" "l \<noteq> []"
    "off = tiles_end (frags s) (packageFragments (pkgs s p))" "off < getSize (pk_pkg (pkgs s p))"
  shows "pm_ok (snd (generate_loop now l p as off s)) \<and>
     same_frame (snd (generate_loop now l p as off s)) s"
  using assms
proof (induction as arbitrary: off s)
  case (Cons a as)
  let ?n = "min (spaceAvailableInAction s (acts s a)) (getSize (pk_pkg (pkgs s p)) - off)"
  let ?s1 = "add_fragment l p a off ?n s"
  show ?case
  proof (cases "(ai_linkId (acts s a) = l \<or> ai_linkId (acts s a) = []) \<and>
      isActionAbleToFit s (acts s a) (pk_pkg (pkgs s p)) \<and> isTimeToEncode s now (acts s a)")
    case True
    then have add: "adding s p a off ?n" using Cons.prems by (simp add: adding_def)
    note ok1 = add_fragment_ok [OF add Cons.prems(3)] and n1 = add_n [OF add]
    show ?thesis
    proof (cases "off + ?n = getSize (pk_pkg (pkgs s p))")
      case True2: True
      then show ?thesis using True ok1 by (simp add: Let_def)
    next
      case False
      have p1: "p < next_pkg ?s1" using Cons.prems(2) by (simp add: add_fragment_fields)
      have e1: "off + ?n = tiles_end (frags ?s1) (packageFragments (pkgs ?s1 p))"
        by (rule add_next_offset [OF add, symmetric])
      have lt: "off + ?n < getSize (pk_pkg (pkgs ?s1 p))" using False n1 by simp
      have "generate_loop now l p (a # as) off s = generate_loop now l p as (off + ?n) ?s1"
        using True False by (simp add: Let_def)
      with Cons.IH [OF ok1 p1 Cons.prems(3) e1 lt] show ?thesis
        by (metis same_frame_add same_frame_trans)
    qed
  next
    case False
    then have "generate_loop now l p (a # as) off s = generate_loop now l p as off s"
      by (auto simp: Let_def)
    with Cons.IH [OF Cons.prems] show ?thesis by simp
  qed
qed simp

lemma generateFragmentsForPackage_ok:
  assumes "pm_ok s" "p < next_pkg s" "l \<noteq> []"
  shows "pm_ok (snd (generateFragmentsForPackage now l lk p s)) \<and>
     same_frame (snd (generateFragmentsForPackage now l lk p s)) s"
proof -
  have wf: "pkg_wf s p" using assms by (simp add: pm_ok_def)
  then have e: "next_offset s p = tiles_end (frags s) (packageFragments (pkgs s p))"
    by (rule next_offset_eq)
  have "next_offset s p \<le> getSize (pk_pkg (pkgs s p))" using wf by (simp add: e pkg_wf_def)
  then show ?thesis
    using assms generate_loop_ok [OF assms e]
    by (auto simp: generateFragmentsForPackage_def Let_def)
qed

lemma assign_step_ok:
  assumes "pm_ok s"
  shows "pm_ok (snd (assign_step now i l (full, s))) \<and>
     same_frame (snd (assign_step now i l (full, s))) s"
proof (cases "links s l")
  case (Some lk)
  show ?thesis
  proof (cases "length (packageQueue lk) \<le> i \<or> l \<in> set full")
    case False
    then have "packageQueue lk ! i \<in> set (packageQueue lk)" by simp
    then have p: "packageQueue lk ! i < next_pkg s" "l \<noteq> []"
      using pm_ok_link [OF assms Some] by auto
    from generateFragmentsForPackage_ok [OF assms p] False Some assms show ?thesis
      by (auto simp: assign_step_def Let_def split: prod.split bool.split)
        (metis snd_conv)+
  qed (use Some assms in \<open>auto simp: assign_step_def\<close>)
qed (use assms in \<open>simp add: assign_step_def\<close>)

lemma fold_pair_ok:
  assumes "\<And>x full s. pm_ok s \<Longrightarrow> pm_ok (snd (f x (full, s))) \<and> same_frame (snd (f x (full, s))) s"
    and "pm_ok (snd st)"
  shows "pm_ok (snd (fold f xs st)) \<and> same_frame (snd (fold f xs st)) (snd st)"
  using assms(2)
proof (induction xs arbitrary: st)
  case (Cons x xs)
  obtain full s where st: "st = (full, s)" by (cases st)
  from assms(1) [of s x full] Cons.prems Cons.IH [of "f x (full, s)"] show ?case
    by (auto simp: st intro: same_frame_trans)
qed simp

lemma assign_packages_ok:
  assumes "pm_ok s"
  shows "pm_ok (snd (assign_packages now s)) \<and> same_frame (snd (assign_packages now s)) s"
proof -
  have "pm_ok (snd (fold (assign_step now i) (getLinks s) (full, s1))) \<and>
      same_frame (snd (fold (assign_step now i) (getLinks s) (full, s1))) s1" if "pm_ok s1" for i full s1
    using fold_pair_ok [OF assign_step_ok, where st = "(full, s1)"] that by simp
  from fold_pair_ok [OF this, where st = "([], s)"] show ?thesis
    by (simp add: assign_packages_def assms)
qed

lemma pm_le_generate_reset:
  "pm_le (fold (reset_link now) ls s) s"
  by (intro pm_le_fold) simp

lemma generateFragmentsForAllPackages_ok:
  assumes "pm_ok s"
  shows "pm_ok (generateFragmentsForAllPackages s)"
proof -
  obtain now s0 where c: "currentTime s = (now, s0)" by fastforce
  then have "pm_le s0 s" by (auto simp: currentTime_def)
  let ?s1 = "fold (reset_link now) (getLinks s0) s0"
  obtain full s2 where a: "assign_packages now ?s1 = (full, s2)" by fastforce
  have "pm_ok ?s1"
    using pm_ok_le [OF pm_le_trans [OF pm_le_generate_reset \<open>pm_le s0 s\<close>] assms] .
  from assign_packages_ok [OF this, of now] have "pm_ok s2" by (simp add: a)
  then have "pm_ok (fold (unblock_connections full) (getLinks s2) s2)"
    by (intro pm_ok_le [OF pm_le_fold]) auto
  then show ?thesis by (simp add: generateFragmentsForAllPackages_def c a)
qed

lemma new_package_ok:
  assumes "pm_ok s" "packageFragments pk = []"
  shows "pm_ok (s\<lparr>next_pkg := Suc (next_pkg s), pkgs := (pkgs s)(next_pkg s := pk)\<rparr>)"
proof -
  let ?s = "s\<lparr>next_pkg := Suc (next_pkg s), pkgs := (pkgs s)(next_pkg s := pk)\<rparr>"
  have "pkg_wf ?s p" if "p < Suc (next_pkg s)" for p
    using assms that by (auto simp: pm_ok_def pkg_wf_def less_Suc_eq)
  moreover have "act_wf ?s a" for a
  proof -
    have wf: "act_wf s a" using assms by (simp add: pm_ok_def)
    let ?rs = "ai_fragments (acts s a)"
    have lt: "\<forall>r \<in> set ?rs. fr_package (frags s r) < next_pkg s"
      using wf by (simp add: act_wf_def Let_def)
    have pk: "\<forall>r \<in> set ?rs. pkg_of ?s (frags s r) = pkg_of s (frags s r)"
      using lt by (auto simp: pkg_of_def)
    have last: "?rs \<noteq> [] \<Longrightarrow> last ?rs \<in> set ?rs" by simp
    have bl: "\<And>r. r \<in> set (butlast ?rs) \<Longrightarrow> r \<in> set ?rs" by (rule in_set_butlastD)
    show ?thesis
      using wf pk last bl lt
      unfolding act_wf_def Let_def isLastFragment_def
      by (auto simp: filled_bytes_def max_bytes_def less_SucI)
  qed
  ultimately show ?thesis using assms by (auto simp: pm_ok_def subset_iff less_SucI)
qed

lemma sendPackage_ok:
  assumes "pm_ok s"
  shows "pm_ok (snd (sendPackage now h c pkg s))"
proof (cases "getConnection s c")
  case (Inr l)
  show ?thesis
  proof (cases "getLink s l")
    case Inr2: (Inr lk)
    let ?s1 = "s\<lparr>next_pkg := Suc (next_pkg s), pkgs := (pkgs s)(next_pkg s := \<lparr>pk_link = l,
       pk_pkg = pkg, pk_sdkHandle = h, pk_pendingEncodeHandle = 0, packageFragments = []\<rparr>)\<rparr>"
    have ok1: "pm_ok ?s1" by (rule new_package_ok) (use assms in auto)
    have l: "l \<noteq> []" using assms Inr2 by (auto simp: pm_ok_def)
    obtain b s2 where g: "generateFragmentsForPackage now l lk (next_pkg s) ?s1 = (b, s2)"
      by fastforce
    from generateFragmentsForPackage_ok [OF ok1 _ l, of "next_pkg s" now lk] g
    have s2: "pm_ok s2" "same_frame s2 ?s1" by auto
    have "pm_ok (upd_link l (\<lambda>lk. lk\<lparr>packageQueue := packageQueue lk @ [next_pkg s]\<rparr>) s2)"
    proof -
      let ?s3 = "upd_link l (\<lambda>lk. lk\<lparr>packageQueue := packageQueue lk @ [next_pkg s]\<rparr>) s2"
      have eqs: "next_pkg ?s3 = next_pkg s2" "frags ?s3 = frags s2" "acts ?s3 = acts s2"
        "pkgs ?s3 = pkgs s2" "nextFragmentHandle ?s3 = nextFragmentHandle s2" "mode ?s3 = mode s2"
        by (simp_all add: upd_link_def)
      have n: "next_pkg s < next_pkg s2" using s2(2) by (simp add: same_frame_def)
      have "\<And>p. pkg_wf ?s3 p = pkg_wf s2 p" by (simp add: pkg_wf_def eqs)
      moreover have "\<And>a. act_wf ?s3 a = act_wf s2 a"
        by (simp add: act_wf_def eqs isLastFragment_def pkg_of_def filled_bytes_def max_bytes_def)
      moreover have "k \<noteq> [] \<and> set (packageQueue lk3) \<subseteq> {..<next_pkg s2}"
        if "links ?s3 k = Some lk3" for k lk3
        using that pm_ok_link [OF s2(1)] n by (fastforce simp: upd_link_def split: if_splits)
      ultimately show ?thesis using s2(1) unfolding pm_ok_def eqs by blast
    qed
    with Inr Inr2 g assms show ?thesis by (simp add: sendPackage_def Let_def)
  qed (use Inr assms in \<open>simp add: sendPackage_def\<close>)
qed (use assms in \<open>simp add: sendPackage_def\<close>)

subsection \<open>Encoding and callbacks\<close>

lemma map_update_same: "g (f (xs ! i)) = g (xs ! i) \<Longrightarrow> map g (xs[i := f (xs ! i)]) = map g xs"
  by (cases "i < length xs") (auto simp: map_update list_update_same_conv list_update_beyond)

lemma pm_le_upd_encoding:
  "(\<And>e. enc_maxBytes (g e) = enc_maxBytes e) \<Longrightarrow> pm_le (upd_encoding a i g s) s"
  unfolding upd_encoding_def by (rule pm_le_upd_act) (simp add: act_le_def map_update_same)

lemma pm_le_pendingEncode: "pm_le (upd_pkg r (\<lambda>p. p\<lparr>pk_pendingEncodeHandle := h\<rparr>) s) s"
  by (rule pm_le_upd_pkg) (simp add: pkg_le_def)

lemma pm_le_encode_step [simp]: "pm_le (encode_step a bytes i s) s"
proof -
  let ?h = "nextEncodingHandle s + 1"
  let ?s1 = "upd_encoding a i (\<lambda>e. e\<lparr>pendingEncodeHandle := ?h, enc_state := E_ENCODING\<rparr>)
    (s\<lparr>nextEncodingHandle := ?h\<rparr>)"
  let ?s2 = "fold (\<lambda>r s. upd_pkg (fr_package (frags s r))
      (\<lambda>p. p\<lparr>pk_pendingEncodeHandle := ?h\<rparr>) s) (ai_fragments (acts ?s1 a)) ?s1"
  let ?s3 = "upd_encoding a i (\<lambda>e. e\<lparr>enc_params := (enc_params e)\<lparr>param_linkId :=
      ai_linkId (acts ?s2 a)\<rparr>\<rparr>) (?s2\<lparr>pendingEncodings := (pendingEncodings ?s2)(?h := Some (a, i))\<rparr>)"
  have 1: "pm_le ?s1 s" by (rule pm_le_trans [OF pm_le_upd_encoding]) auto
  have 2: "pm_le ?s2 s" by (rule pm_le_trans [OF pm_le_fold 1]) (rule pm_le_pendingEncode)
  have 3: "pm_le ?s3 s" by (rule pm_le_trans [OF pm_le_upd_encoding pm_le_trans [OF _ 2]]) auto
  have "pm_le (call c ?s3) s" for c by (rule pm_le_trans [OF _ 3]) simp
  with 2 show ?thesis by (auto simp: encode_step_def Let_def split: option.split)
qed

lemma pm_le_encode_all [simp]: "pm_le (encode_all a bytes s) s"
  unfolding encode_all_def by (rule pm_le_fold) simp

lemma pm_le_bump [simp]: "pm_le (bump_fragmentCount l s) s"
  by (simp add: bump_fragmentCount_def pm_le_upd_link)

lemma pm_le_encodeForAction: "pm_le (snd (encodeForAction a s)) s"
  unfolding encodeForAction_def Let_def
  by (auto split: sum.split intro!: pm_le_trans [OF pm_le_encode_all pm_le_trans [OF pm_le_fold]])

lemma pm_le_onBytesEncoded: "pm_le (snd (onBytesEncoded h bytes status s)) s"
proof (cases "pendingEncodings s h")
  case (Some ai)
  obtain a i where ai: "ai = (a, i)" by fastforce
  have "pm_le (upd_encoding a i (\<lambda>e. e\<lparr>enc_state := E_ENQUEUED\<rparr>)
      (call c (s\<lparr>pendingEncodings := pe\<rparr>))) s" for c pe
    by (rule pm_le_trans [OF pm_le_upd_encoding pm_le_trans [OF pm_le_simple(1)]]) auto
  then show ?thesis using Some
    by (auto simp: onBytesEncoded_def Let_def ai intro: pm_le_trans [OF pm_le_fold])
qed (simp add: onBytesEncoded_def)

lemma pm_le_forget_encodings [simp]: "pm_le (forget_encodings a s) s"
  unfolding forget_encodings_def
  by (rule pm_le_trans [OF pm_le_upd_act]) (auto simp: act_le_def comp_def)

lemma pm_le_fail_package [simp]: "pm_le (fail_package p s) s"
  unfolding fail_package_def by (rule pm_le_trans [OF pm_le_simple(6)]) simp

lemma pm_le_package_onLinkStatusChanged: "pm_le (snd (package_onLinkStatusChanged l st s)) s"
  unfolding package_onLinkStatusChanged_def Let_def
  by (auto split: sum.split
      intro!: pm_le_trans [OF pm_le_upd_link pm_le_trans [OF pm_le_fold pm_le_fold]])

lemma pm_le_release_fragment: "pm_le (snd (release_fragment r (b, s))) s"
  unfolding release_fragment_def
  by (auto simp: Let_def split: option.split prod.split
      intro: pm_le_trans [OF pm_le_simple(6)])

lemma pm_le_release_all: "pm_le (snd (fold release_fragment rs st)) (snd st)"
proof (induction rs arbitrary: st)
  case (Cons r rs)
  obtain b s where st: "st = (b, s)" by (cases st)
  from Cons [of "release_fragment r (b, s)"] pm_le_release_fragment [of r b s] show ?case
    by (auto simp: st intro: pm_le_trans)
qed simp

lemma finish_package_ok:
  assumes "pm_ok s"
  shows "pm_ok (finish_package p status s)"
proof -
  obtain re s1 where r: "fold release_fragment (packageFragments (pkgs s p)) (False, s) = (re, s1)"
    by fastforce
  from pm_le_release_all [of "packageFragments (pkgs s p)" "(False, s)"] r have le1: "pm_le s1 s"
    by simp
  have "pm_le (upd_link l (\<lambda>lk. lk\<lparr>packageQueue := filter P (packageQueue lk)\<rparr>) (call c s1)) s" for l P c
    by (rule pm_le_trans [OF pm_le_upd_link pm_le_trans [OF _ le1]]) auto
  from pm_ok_le [OF this assms] show ?thesis
    by (simp add: finish_package_def r Let_def generateFragmentsForAllPackages_ok)
qed

lemma onPackageStatusChanged_ok:
  assumes "pm_ok s"
  shows "pm_ok (snd (onPackageStatusChanged h status s))"
proof (cases "fragments s h")
  case (Some r)
  have "pm_le ((upd_frag r (\<lambda>f. f\<lparr>fr_state := new_fragment_state status (fr_state f)\<rparr>) s)
      \<lparr>fragments := fm\<rparr>) s" for fm
    by (rule pm_le_trans [OF pm_le_simple(3) pm_le_upd_frag]) (simp add: frag_core_def)
  from pm_ok_le [OF this assms] show ?thesis
    using Some by (simp add: onPackageStatusChanged_def Let_def finish_package_ok)
qed (simp add: onPackageStatusChanged_def assms)

lemma pm_le_actionDone: "pm_le (actionDone a s) s"
  unfolding actionDone_def Let_def
  by (intro pm_le_trans [OF pm_le_fold pm_le_trans [OF pm_le_upd_act]] pm_le_upd_frag)
    (auto simp: frag_core_def act_le_def comp_def)

lemma package_teardown_ok: "pm_ok s \<Longrightarrow> pm_ok (package_teardown s)"
  unfolding package_teardown_def by (erule pm_ok_le [rotated]) (simp add: pm_le_def)

section \<open>What the invariant gives\<close>

lemma act_refsD:
  assumes "pm_ok s" "r \<in> set (ai_fragments (acts s a))"
  shows "r < nextFragmentHandle s" "fr_package (frags s r) < next_pkg s"
    "fr_offset (frags s r) + fr_len (frags s r) \<le> getSize (pkg_of s (frags s r))"
    "0 < fr_len (frags s r)"
proof -
  from assms(1) have "act_wf s a" by (simp add: pm_ok_def)
  with assms(2) show "r < nextFragmentHandle s" "fr_package (frags s r) < next_pkg s"
    "fr_offset (frags s r) + fr_len (frags s r) \<le> getSize (pkg_of s (frags s r))"
    "0 < fr_len (frags s r)" by (simp_all add: act_wf_def Let_def)
qed

lemma act_capD:
  assumes "pm_ok s" "ai_fragments (acts s a) \<noteq> []"
  shows "filled_bytes s (acts s a) \<le> max_bytes s a" "ai_linkId (acts s a) \<noteq> []"
    "mode s = SINGLE \<Longrightarrow> length (ai_fragments (acts s a)) \<le> 1"
proof -
  from assms(1) have "act_wf s a" by (simp add: pm_ok_def)
  with assms(2) show "filled_bytes s (acts s a) \<le> max_bytes s a" "ai_linkId (acts s a) \<noteq> []"
    "mode s = SINGLE \<Longrightarrow> length (ai_fragments (acts s a)) \<le> 1"
    by (simp_all add: act_wf_def Let_def)
qed

lemma act_innerD:
  assumes "pm_ok s" "r \<in> set (butlast (ai_fragments (acts s a)))"
  shows "isLastFragment s (frags s r)"
proof -
  from assms(1) have "act_wf s a" by (simp add: pm_ok_def)
  with assms(2) show ?thesis by (simp add: act_wf_def Let_def)
qed

end
