(* ===== verification/CM_Receive.thy ===== *)
theory CM_Receive
  imports CM_Types
begin

unbundle bit_operations_syntax

text \<open>
  Receiving content: racesdk/core/source/decomposed-comms/ComponentReceivePackageManager.cpp.
  Bytes the transport received are handed to an encoding; what it decodes is cut into packages
  according to the encoding mode of the channel, reassembling packages fragmented over several
  contents. Packages handed to the SDK in the loops are collected in a list and logged when the
  loop is done, also when it ends by an exception: the manager's mutex is held throughout.
\<close>

section \<open>Cutting a buffer into packages\<close>

definition readFragment :: "bytes \<Rightarrow> nat \<Rightarrow> exn + bytes \<times> nat" where
  "readFragment buffer offset =
     (case readFromBuffer 4 buffer offset of
        Inl e \<Rightarrow> Inl e
      | Inr (lenBytes, offset1) \<Rightarrow>
          let len = unat (le_word lenBytes :: u32)
          in if offset1 + len > length buffer then Inl OutOfRange
             else Inr (take len (drop offset1 buffer), offset1 + len))"

lemma readFragment_advances:
  "readFragment b off = Inr (bs, off') \<Longrightarrow> off < off' \<and> off' \<le> length b"
  by (auto simp: readFragment_def Let_def readFromBuffer_def split: sum.splits if_splits prod.splits)

function receive_batch_loop ::
    "bytes \<Rightarrow> nat \<Rightarrow> enc_pkg list \<Rightarrow> exn option \<times> enc_pkg list" where
  "receive_batch_loop bytes offset out =
     (if offset < length bytes then
        (case readFragment bytes offset of
           Inl e \<Rightarrow> (Some e, out)
         | Inr (pkgBytes, offset') \<Rightarrow>
             receive_batch_loop bytes offset' (out @ [enc_pkg_of_raw pkgBytes]))
      else (None, out))"
  by pat_completeness auto
termination
  by (relation "measure (\<lambda>(b, off, _). length b - off)") (auto dest!: readFragment_advances)

text \<open>The loop of \<open>receiveFragmentProducer\<close>; \<open>pending\<close> is \<open>fragmentQueue->pendingBytes\<close>.\<close>

function fragment_loop ::
    "bytes \<Rightarrow> u8 \<Rightarrow> nat \<Rightarrow> bool \<Rightarrow> bytes \<Rightarrow> enc_pkg list \<Rightarrow>
       exn option \<times> bytes \<times> enc_pkg list" where
  "fragment_loop bytes flags offset firstFragment pending out =
     (if offset < length bytes then
        (case readFragment bytes offset of
           Inl e \<Rightarrow> (Some e, pending, out)
         | Inr (pkgBytes, offset') \<Rightarrow>
             if firstFragment \<and> flags AND CONTINUE_LAST_PACKAGE \<noteq> 0 \<and> pending = [] then
               fragment_loop bytes flags offset' False pending out
             else if flags AND CONTINUE_NEXT_PACKAGE \<noteq> 0 \<and> offset' \<ge> length bytes then
               fragment_loop bytes flags offset' False (pending @ pkgBytes) out
             else
               fragment_loop bytes flags offset' False []
                 (out @ [enc_pkg_of_raw (pending @ pkgBytes)]))
      else (None, pending, out))"
  by pat_completeness auto
termination
  by (relation "measure (\<lambda>(b, _, off, _). length b - off)") (auto dest!: readFragment_advances)

declare receive_batch_loop.simps [simp del] fragment_loop.simps [simp del]

text \<open>
  \<open>receiveFragmentProducer\<close> on the queue of one producer: \<open>None\<close> is a producer not seen yet, whose
  queue \<open>operator[]\<close> creates with every member zero.
\<close>

definition receive_fragment ::
    "producer_queue option \<Rightarrow> bytes \<Rightarrow> nat \<Rightarrow>
       exn option \<times> producer_queue option \<times> enc_pkg list" where
  "receive_fragment q0 bytes offset =
     (case readFromBuffer 4 bytes offset of
        Inl e \<Rightarrow> (Some e, q0, [])
      | Inr (idBytes, offset1) \<Rightarrow>
          let fragmentId = (le_word idBytes :: u32);
              q = (case q0 of Some q \<Rightarrow> q
                   | None \<Rightarrow> \<lparr>lastFragmentReceived = 0, pendingBytes = []\<rparr>);
              p1 = (if fragmentId \<noteq> lastFragmentReceived q + 1 then [] else pendingBytes q)
          in case readFromBuffer 1 bytes offset1 of
               Inl e \<Rightarrow>
                 (Some e, Some \<lparr>lastFragmentReceived = fragmentId, pendingBytes = p1\<rparr>, [])
             | Inr (flagBytes, offset2) \<Rightarrow>
                 let flags = (le_word flagBytes :: u8);
                     p2 = (if flags AND CONTINUE_LAST_PACKAGE = 0 \<and> p1 \<noteq> [] then [] else p1);
                     (r, p3, out) = fragment_loop bytes flags offset2 True p2 []
                 in (r, Some \<lparr>lastFragmentReceived = fragmentId, pendingBytes = p3\<rparr>, out))"

section \<open>The operations\<close>

definition deliver :: "conn_id list \<Rightarrow> enc_pkg list \<Rightarrow> cm \<Rightarrow> cm" where
  "deliver connVec out s = s\<lparr>calls := calls s @ map (\<lambda>p. SdkReceiveEncPkg p connVec) out\<rparr>"

definition receiveSingle ::
    "bytes \<Rightarrow> conn_id list \<Rightarrow> cm \<Rightarrow> (exn + cm_internal_status) \<times> cm" where
  "receiveSingle bytes connVec s = (Inr OK, deliver connVec [enc_pkg_of_raw bytes] s)"

definition receiveBatch ::
    "bytes \<Rightarrow> conn_id list \<Rightarrow> cm \<Rightarrow> (exn + cm_internal_status) \<times> cm" where
  "receiveBatch bytes connVec s =
     (case receive_batch_loop bytes 0 [] of
        (Some e, out) \<Rightarrow> (Inl e, deliver connVec out s)
      | (None, out) \<Rightarrow> (Inr OK, deliver connVec out s))"

definition receiveFragmentProducer ::
    "bytes \<Rightarrow> nat \<Rightarrow> link_id \<Rightarrow> bytes \<Rightarrow> conn_id list \<Rightarrow> cm \<Rightarrow>
       (exn + cm_internal_status) \<times> cm" where
  "receiveFragmentProducer producer offset l bytes connVec s =
     (case getLink s l of
        Inl e \<Rightarrow> (Inl e, s)
      | Inr lk \<Rightarrow>
          let (r, q, out) = receive_fragment (producerQueues lk producer) bytes offset;
              s1 = deliver connVec out
                (upd_link l (\<lambda>lk. lk\<lparr>producerQueues := (producerQueues lk)(producer := q)\<rparr>) s)
          in (case r of Some e \<Rightarrow> Inl e | None \<Rightarrow> Inr OK, s1))"

definition receiveFragmentSingleProducer ::
    "link_id \<Rightarrow> bytes \<Rightarrow> conn_id list \<Rightarrow> cm \<Rightarrow> (exn + cm_internal_status) \<times> cm" where
  "receiveFragmentSingleProducer l bytes connVec s =
     receiveFragmentProducer [] 0 l bytes connVec s"

definition receiveFragmentMultipleProducer ::
    "link_id \<Rightarrow> bytes \<Rightarrow> conn_id list \<Rightarrow> cm \<Rightarrow> (exn + cm_internal_status) \<times> cm" where
  "receiveFragmentMultipleProducer l bytes connVec s =
     (case readFromBuffer 16 bytes 0 of
        Inl e \<Rightarrow> (Inl e, s)
      | Inr (producer, offset) \<Rightarrow> receiveFragmentProducer producer offset l bytes connVec s)"

definition onReceive ::
    "link_id \<Rightarrow> encoding_parameters \<Rightarrow> bytes \<Rightarrow> cm \<Rightarrow> cm_internal_status \<times> cm" where
  "onReceive l params bytes s =
     (case encodingComponentFromEncodingParams s params of
        None \<Rightarrow> (ERROR, s)
      | Some enc \<Rightarrow>
          let h = nextDecodingHandle s + 1
          in (OK, call (EncoderDecodeBytes enc h params bytes)
                (s\<lparr>nextDecodingHandle := h,
                   pendingDecodings := (pendingDecodings s)(h := Some l)\<rparr>)))"

text \<open>The \<open>catch\<close> turns every exception into \<open>ERROR\<close>; effects made before it stay.\<close>

definition onBytesDecoded ::
    "u64 \<Rightarrow> bytes \<Rightarrow> encoding_status \<Rightarrow> cm \<Rightarrow> cm_internal_status \<times> cm" where
  "onBytesDecoded h bytes status s =
     (if bytes = [] then (OK, s)
      else case pendingDecodings s h of
        None \<Rightarrow> (ERROR, s)
      | Some l \<Rightarrow>
          let s1 = s\<lparr>pendingDecodings := (pendingDecodings s)(h := None)\<rparr>
          in case getLink s1 l of
               Inl e \<Rightarrow> (ERROR, s1)
             | Inr lk \<Rightarrow>
                 (case (case mode s1 of
                          SINGLE \<Rightarrow> receiveSingle bytes (connections lk) s1
                        | BATCH \<Rightarrow> receiveBatch bytes (connections lk) s1
                        | FRAGMENT_SINGLE_PRODUCER \<Rightarrow>
                            receiveFragmentSingleProducer l bytes (connections lk) s1
                        | FRAGMENT_MULTIPLE_PRODUCER \<Rightarrow>
                            receiveFragmentMultipleProducer l bytes (connections lk) s1) of
                    (Inl e, s2) \<Rightarrow> (ERROR, s2)
                  | (Inr st, s2) \<Rightarrow> (st, s2)))"

definition receive_teardown :: "cm \<Rightarrow> cm" where
  "receive_teardown s = s\<lparr>pendingDecodings := \<lambda>_. None\<rparr>"

end
