(* ===== verification/CM_Stream.thy ===== *)
theory CM_Stream
  imports CM_Receive
begin

text \<open>
  The fragment protocol, abstractly: a sender cuts a sequence of packages into consecutive pieces
  and groups the pieces into numbered contents; a receiver reassembles them. This theory shows
  that \<open>receive_fragment\<close>, the receiving side of the code, delivers the packages exactly when the
  contents arrive in order, and delivers nothing but packages of the sender whatever is lost,
  repeated or reordered on the way. The sending side meets the contract in CM_Transfer.
\<close>

section \<open>Pieces, contents and streams\<close>

text \<open>A piece is a package (its raw bytes) with the offset and length of the part it carries.\<close>

type_synonym piece = "bytes \<times> nat \<times> nat"

definition piece_bytes :: "piece \<Rightarrow> bytes" where
  "piece_bytes = (\<lambda>(p, off, n). take n (drop off p))"

text \<open>
  \<open>stream ps off c\<close>: the pieces \<open>c\<close> go on where \<open>off\<close> bytes of the first package of \<open>ps\<close> have been
  sent, without gap or overlap; \<open>stream_rest\<close> is where they stop.
\<close>

fun stream :: "bytes list \<Rightarrow> nat \<Rightarrow> piece list \<Rightarrow> bool" where
  "stream ps off [] = True"
| "stream [] off (x # xs) = False"
| "stream (p # ps) off ((q, k, n) # xs) =
     (q = p \<and> k = off \<and> 0 < n \<and> off + n \<le> length p \<and>
      (if off + n = length p then stream ps 0 xs else stream (p # ps) (off + n) xs))"

fun stream_rest :: "bytes list \<Rightarrow> nat \<Rightarrow> piece list \<Rightarrow> bytes list \<times> nat" where
  "stream_rest ps off [] = (ps, off)"
| "stream_rest [] off (x # xs) = ([], off)"
| "stream_rest (p # ps) off ((q, k, n) # xs) =
     (if off + n = length p then stream_rest ps 0 xs else stream_rest (p # ps) (off + n) xs)"

definition piece_last :: "piece \<Rightarrow> bool" where
  "piece_last = (\<lambda>(p, off, n). off + n \<ge> length p)"

definition piece_first :: "piece \<Rightarrow> bool" where
  "piece_first = (\<lambda>(p, off, n). off = 0)"

definition content_flags :: "piece list \<Rightarrow> u8" where
  "content_flags c = (if \<not> piece_first (hd c) then CONTINUE_LAST_PACKAGE else 0) OR
     (if \<not> piece_last (last c) then CONTINUE_NEXT_PACKAGE else 0)"

text \<open>
  Within a content only the last piece may leave its package unfinished: the receiver has no
  other way to tell where a package ends.
\<close>

definition content_ok :: "piece list \<Rightarrow> bool" where
  "content_ok c \<longleftrightarrow> c \<noteq> [] \<and> (\<forall>x \<in> set (butlast c). piece_last x) \<and>
     (\<forall>x \<in> set c. length (piece_bytes x) < 2 ^ 32)"

definition chunk :: "bytes \<Rightarrow> bytes" where
  "chunk b = le_bytes (word_of_nat (length b) :: u32) @ b"

definition content :: "u32 \<Rightarrow> piece list \<Rightarrow> bytes" where
  "content i c = le_bytes i @ [content_flags c] @ concat (map (\<lambda>x. chunk (piece_bytes x)) c)"

lemma stream_append:
  "stream ps off (xs @ ys) \<longleftrightarrow> stream ps off xs \<and>
     (case stream_rest ps off xs of (ps', off') \<Rightarrow> stream ps' off' ys)"
  by (induction ps off xs rule: stream.induct) (auto split: if_splits)

lemma stream_rest_append:
  "stream ps off xs \<Longrightarrow> stream_rest ps off (xs @ ys) =
     (case stream_rest ps off xs of (ps', off') \<Rightarrow> stream_rest ps' off' ys)"
  by (induction ps off xs rule: stream.induct) (auto split: if_splits)

lemma stream_rest_suffix:
  "stream ps off xs \<Longrightarrow> stream_rest ps off xs = (ps', off') \<Longrightarrow> \<exists>done. ps = done @ ps'"
proof (induction ps off xs arbitrary: ps' off' rule: stream.induct)
  case (3 p ps off q k n xs)
  show ?case
  proof (cases "off + n = length p")
    case True
    with 3(3,4) have "stream ps 0 xs" "stream_rest ps 0 xs = (ps', off')" by auto
    from 3(1)[OF True this] show ?thesis by (metis append_Cons)
  next
    case False
    with 3(3,4) show ?thesis by (intro 3(2)) auto
  qed
qed auto

text \<open>A stream position is proper when it is inside a package or between two.\<close>

definition position_ok :: "bytes list \<Rightarrow> nat \<Rightarrow> bool" where
  "position_ok ps off \<longleftrightarrow> (off = 0 \<or> (ps \<noteq> [] \<and> off < length (hd ps)))"

lemma stream_rest_position:
  "position_ok ps off \<Longrightarrow> stream ps off xs \<Longrightarrow> stream_rest ps off xs = (ps', off') \<Longrightarrow>
     position_ok ps' off'"
  by (induction ps off xs arbitrary: ps' off' rule: stream.induct)
    (auto simp: position_ok_def split: if_splits)

section \<open>Reading a content\<close>

lemma unat_of_length_u32 [simp]:
  "length b < 2 ^ 32 \<Longrightarrow> unat (word_of_nat (length b) :: u32) = length b"
  by (simp add: unat_of_nat)

lemma readFragment_chunk [simp]:
  assumes "length b < 2 ^ 32"
  shows "readFragment (pre @ chunk b @ post) (length pre) = Inr (b, length pre + 4 + length b)"
proof -
  let ?l = "le_bytes (word_of_nat (length b) :: u32)"
  have "readFromBuffer 4 (pre @ ?l @ (b @ post)) (length pre) = Inr (?l, length pre + 4)"
    by (rule readFromBuffer_append) simp
  moreover have "take (length b) (drop (length pre + 4) (pre @ ?l @ b @ post)) = b" by simp
  ultimately show ?thesis using assms
    by (simp add: readFragment_def chunk_def unat_of_nat)
qed

lemma length_chunk [simp]: "length (chunk b) = 4 + length b"
  by (simp add: chunk_def)

lemma chunk_not_Nil [simp]: "chunk b \<noteq> []"
  using length_chunk [of b] by (metis list.size(3) add_is_0 zero_neq_numeral)

text \<open>The loop of the receiver on a list of chunks: the bytes left pending and the packages.\<close>

fun take_chunks :: "bool \<Rightarrow> bool \<Rightarrow> bool \<Rightarrow> bytes \<Rightarrow> bytes list \<Rightarrow> bytes \<times> bytes list" where
  "take_chunks cl cn fst_chunk pend [] = (pend, [])"
| "take_chunks cl cn fst_chunk pend (c # cs) =
     (if fst_chunk \<and> cl \<and> pend = [] then take_chunks cl cn False pend cs
      else if cn \<and> cs = [] then (pend @ c, [])
      else (case take_chunks cl cn False [] cs of (p, out) \<Rightarrow> (p, (pend @ c) # out)))"

lemma fragment_loop_chunks:
  assumes "\<forall>c \<in> set cs. length c < 2 ^ 32"
  shows "fragment_loop (pre @ concat (map chunk cs)) flags (length pre) fst_chunk pend out =
     (case take_chunks (flags AND CONTINUE_LAST_PACKAGE \<noteq> 0) (flags AND CONTINUE_NEXT_PACKAGE \<noteq> 0)
             fst_chunk pend cs of
        (p, o1) \<Rightarrow> (None, p, out @ map enc_pkg_of_raw o1))"
  using assms
proof (induction cs arbitrary: pre fst_chunk pend out)
  case Nil
  show ?case by (subst fragment_loop.simps) simp
next
  case (Cons c cs)
  let ?B = "pre @ chunk c @ concat (map chunk cs)"
  have len: "length c < 2 ^ 32" using Cons.prems by simp
  have rd: "readFragment ?B (length pre) = Inr (c, length pre + 4 + length c)"
    using len by (rule readFragment_chunk)
  have ge: "length pre + 4 + length c \<ge> length ?B \<longleftrightarrow> cs = []"
    by (cases cs) auto
  have lt: "length pre < length ?B" by simp
  have IH: "fragment_loop ?B flags (length pre + 4 + length c) f pd ot =
     (case take_chunks (flags AND CONTINUE_LAST_PACKAGE \<noteq> 0) (flags AND CONTINUE_NEXT_PACKAGE \<noteq> 0)
             f pd cs of
        (p, o1) \<Rightarrow> (None, p, ot @ map enc_pkg_of_raw o1))" for f pd ot
    using Cons.IH [of "pre @ chunk c" f pd ot] Cons.prems by (simp add: add.assoc)
  have done_loop: "cs = [] \<Longrightarrow> fragment_loop ?B flags (length pre + 4 + length c) f pd ot =
     (None, pd, ot)" for f pd ot
    by (subst fragment_loop.simps) simp
  show ?case
    using rd ge lt done_loop
    by (cases "cs = []"; subst fragment_loop.simps)
      (simp_all add: IH del: readFragment_chunk split: prod.splits)
qed

lemma flag_bits [simp]:
  "content_flags c AND CONTINUE_LAST_PACKAGE = 0 \<longleftrightarrow> piece_first (hd c)"
  "content_flags c AND CONTINUE_NEXT_PACKAGE = 0 \<longleftrightarrow> piece_last (last c)"
  by (auto simp: content_flags_def CONTINUE_LAST_PACKAGE_def CONTINUE_NEXT_PACKAGE_def)


section \<open>One content\<close>

text \<open>
  What a receiver may hold: nothing, or the first \<open>off\<close> bytes of the package that is under way.
\<close>

lemma take_append_piece:
  "off + n \<le> length p \<Longrightarrow> take off p @ take n (drop off p) = take (off + n) p"
  by (simp add: take_add)

lemma take_chunks_tail:
  assumes "stream ps off c" "position_ok ps off" "c \<noteq> [] \<Longrightarrow> cn = (\<not> piece_last (last c))"
    "\<forall>x \<in> set (butlast c). piece_last x"
    "stream_rest ps off c = (ps', off')" "c = [] \<Longrightarrow> off = 0"
  shows "\<exists>done. ps = done @ ps' \<and>
     take_chunks cl cn False (if off = 0 then [] else take off (hd ps)) (map piece_bytes c) =
       (if off' = 0 then [] else take off' (hd ps'), done)"
  using assms
proof (induction c arbitrary: ps off)
  case Nil
  then show ?case by auto
next
  case (Cons x c)
  obtain q k n where x: "x = (q, k, n)" by (cases x)
  from Cons.prems(1) x obtain p ps1 where ps: "ps = p # ps1" by (cases ps) auto
  have facts: "q = p" "k = off" "0 < n" "off + n \<le> length p"
    "if off + n = length p then stream ps1 0 c else stream ps (off + n) c"
    using Cons.prems(1) by (auto simp: x ps)
  have pend: "(if off = 0 then [] else take off (hd ps)) @ piece_bytes x = take (off + n) p"
    using facts by (auto simp: x ps piece_bytes_def take_append_piece)
  show ?case
  proof (cases "off + n = length p")
    case True
    have rest: "stream_rest ps1 0 c = (ps', off')" using Cons.prems(5) True by (simp add: x ps)
    have "\<exists>done. ps1 = done @ ps' \<and> take_chunks cl cn False [] (map piece_bytes c) =
       (if off' = 0 then [] else take off' (hd ps'), done)"
    proof (cases "c = []")
      case True
      with rest show ?thesis by auto
    next
      case False
      with Cons.IH [of ps1 0] Cons.prems(3,4) facts(5) rest True show ?thesis
        by (auto simp: position_ok_def)
    qed
    then obtain dn where dn: "ps1 = dn @ ps'" "take_chunks cl cn False [] (map piece_bytes c) =
       (if off' = 0 then [] else take off' (hd ps'), dn)" by blast
    have "c = [] \<Longrightarrow> \<not> cn" using Cons.prems(3) True by (simp add: x facts piece_last_def)
    then have nl: "\<not> (cn \<and> map piece_bytes c = [])" by auto
    have "take (off + n) p = p" using True by simp
    with dn nl pend show ?thesis by (intro exI [of _ "p # dn"]) (auto simp: ps)
  next
    case False
    then have lt: "off + n < length p" using facts(4) by simp
    show ?thesis
    proof (cases "c = []")
      case True
      have cn: "cn" using Cons.prems(3) True lt by (simp add: x facts piece_last_def)
      have "ps' = ps" "off' = off + n" using Cons.prems(5) True False by (auto simp: x ps)
      with cn True pend facts(3) show ?thesis by (intro exI [of _ "[]"]) (auto simp: ps)
    next
      case False
      then have "piece_last x" using Cons.prems(4) by simp
      with lt show ?thesis by (simp add: x facts piece_last_def)
    qed
  qed
qed

definition exact :: "bytes list \<Rightarrow> nat \<Rightarrow> bytes" where
  "exact ps off = (if off = 0 then [] else take off (hd ps))"

lemma exact_Nil: "position_ok ps off \<Longrightarrow> exact ps off = [] \<longleftrightarrow> off = 0"
  by (auto simp: exact_def position_ok_def)

lemma take_chunks_exact:
  assumes "stream ps off c" "position_ok ps off" "content_ok c"
    "stream_rest ps off c = (ps', off')"
  shows "\<exists>done. ps = done @ ps' \<and>
     take_chunks (\<not> piece_first (hd c)) (\<not> piece_last (last c)) True (exact ps off)
       (map piece_bytes c) = (exact ps' off', done)"
proof -
  obtain x xs where c: "c = x # xs" using assms(3) by (cases c) (auto simp: content_ok_def)
  obtain q k n where x: "x = (q, k, n)" by (cases x)
  have "k = off" using assms(1) by (cases ps) (auto simp: c x)
  then have "\<not> piece_first (hd c) \<Longrightarrow> exact ps off \<noteq> []"
    using assms(2) by (auto simp: piece_first_def c x exact_Nil)
  then have "take_chunks (\<not> piece_first (hd c)) cn True (exact ps off) (map piece_bytes c) =
      take_chunks (\<not> piece_first (hd c)) cn False (exact ps off) (map piece_bytes c)" for cn
    by (auto simp: c)
  moreover have "\<exists>done. ps = done @ ps' \<and>
     take_chunks (\<not> piece_first (hd c)) (\<not> piece_last (last c)) False (exact ps off)
       (map piece_bytes c) = (exact ps' off', done)"
    unfolding exact_def using assms by (intro take_chunks_tail) (auto simp: content_ok_def)
  ultimately show ?thesis by simp
qed

lemma take_chunks_lost:
  assumes "stream ps off c" "position_ok ps off" "content_ok c" "off > 0"
    "stream_rest ps off c = (ps', off')"
  shows "\<exists>d1 d2 pend'. ps = d1 @ d2 @ ps' \<and> (pend' = [] \<or> pend' = exact ps' off') \<and>
     take_chunks (\<not> piece_first (hd c)) (\<not> piece_last (last c)) True []
       (map piece_bytes c) = (pend', d2)"
proof -
  obtain x xs where c: "c = x # xs" using assms(3) by (cases c) (auto simp: content_ok_def)
  obtain q k n where x: "x = (q, k, n)" by (cases x)
  obtain p ps1 where ps: "ps = p # ps1" using assms(1) by (cases ps) (auto simp: c x)
  have first: "\<not> piece_first (hd c)" using assms(1,4) by (auto simp: c x ps piece_first_def)
  show ?thesis
  proof (cases "off + n = length p")
    case True
    have st: "stream ps1 0 xs" "stream_rest ps1 0 xs = (ps', off')"
      using assms(1,5) True by (auto simp: c x ps)
    have "\<exists>done. ps1 = done @ ps' \<and> take_chunks True (\<not> piece_last (last c)) False []
        (map piece_bytes xs) = (exact ps' off', done)"
      using take_chunks_tail [of ps1 0 xs "\<not> piece_last (last c)" ps' off' True] st assms(3)
      by (auto simp: content_ok_def c position_ok_def exact_def split: if_splits)
    then show ?thesis using first by (force simp: c ps)
  next
    case False
    have "xs = []"
    proof (rule ccontr)
      assume "xs \<noteq> []"
      then have "piece_last x" using assms(3) by (auto simp: content_ok_def c)
      with False assms(1) show False by (auto simp: c x ps piece_last_def)
    qed
    with first assms(5) False show ?thesis by (auto simp: c x ps)
  qed
qed

subsection \<open>The receiver on one content\<close>

definition queue_pending :: "u32 \<Rightarrow> producer_queue option \<Rightarrow> bytes" where
  "queue_pending i q = (case q of None \<Rightarrow> []
     | Some q \<Rightarrow> if i = lastFragmentReceived q + 1 then pendingBytes q else [])"

lemma receive_fragment_content:
  assumes "content_ok c"
  shows "receive_fragment q (pre @ content i c) (length pre) =
     (let p2 = (if piece_first (hd c) then [] else queue_pending i q);
          (p3, out) = take_chunks (\<not> piece_first (hd c)) (\<not> piece_last (last c)) True p2
                        (map piece_bytes c)
      in (None, Some \<lparr>lastFragmentReceived = i, pendingBytes = p3\<rparr>, map enc_pkg_of_raw out))"
proof -
  let ?body = "concat (map (\<lambda>x. chunk (piece_bytes x)) c)"
  have body: "?body = concat (map chunk (map piece_bytes c))" by (simp add: comp_def)
  have r1: "readFromBuffer 4 (pre @ content i c) (length pre) = Inr (le_bytes i, length pre + 4)"
    unfolding content_def using readFromBuffer_append [of 4 "le_bytes i" pre "[content_flags c] @ ?body"]
    by simp
  have r2: "readFromBuffer 1 (pre @ content i c) (length pre + 4) =
      Inr ([content_flags c], length pre + 5)"
    unfolding content_def
    using readFromBuffer_append [of 1 "[content_flags c]" "pre @ le_bytes i" ?body] by simp
  have loop: "fragment_loop (pre @ content i c) (content_flags c) (length pre + 5) True pend [] =
     (case take_chunks (\<not> piece_first (hd c)) (\<not> piece_last (last c)) True pend (map piece_bytes c)
      of (p, o1) \<Rightarrow> (None, p, map enc_pkg_of_raw o1))" for pend
    using fragment_loop_chunks [of "map piece_bytes c" "pre @ le_bytes i @ [content_flags c]"
        "content_flags c" True pend "[]"] assms
    by (simp add: content_ok_def content_def body del: map_map)
  show ?thesis
    using r1 r2
    by (simp add: receive_fragment_def loop Let_def queue_pending_def split: option.splits prod.splits)
qed

section \<open>Reassembly as an interface\<close>

text \<open>Contents with consecutive numbers, and where content \<open>j\<close> of a stream starts.\<close>

fun numbered :: "u32 \<Rightarrow> piece list list \<Rightarrow> (u32 \<times> piece list) list" where
  "numbered i [] = []"
| "numbered i (c # cs) = (i, c) # numbered (i + 1) cs"

definition position :: "bytes list \<Rightarrow> piece list list \<Rightarrow> nat \<Rightarrow> bytes list \<times> nat" where
  "position ps cs j = stream_rest ps 0 (concat (take j cs))"


text \<open>
  What a receiver has to do with one numbered content, whatever its state \<open>'q\<close> is: \<open>pend q i\<close> is
  what it holds for a content numbered \<open>i\<close>. It goes on with what it holds exactly, it never
  puts together pieces that do not belong together, and it holds bytes only for the next number.
\<close>

locale reassembly =
  fixes recv :: "'q \<Rightarrow> u32 \<Rightarrow> piece list \<Rightarrow> 'q \<times> enc_pkg list"
    and pend :: "'q \<Rightarrow> u32 \<Rightarrow> bytes"
  assumes recv_exact:
    "\<lbrakk>stream ps off c; position_ok ps off; content_ok c; stream_rest ps off c = (ps', off');
      pend q i = exact ps off\<rbrakk>
     \<Longrightarrow> \<exists>done. ps = done @ ps' \<and> snd (recv q i c) = map enc_pkg_of_raw done \<and>
           pend (fst (recv q i c)) (i + 1) = exact ps' off'"
    and recv_lost:
    "\<lbrakk>stream ps off c; position_ok ps off; content_ok c; stream_rest ps off c = (ps', off');
      pend q i = []\<rbrakk>
     \<Longrightarrow> \<exists>d1 d2. ps = d1 @ d2 @ ps' \<and> snd (recv q i c) = map enc_pkg_of_raw d2 \<and>
           pend (fst (recv q i c)) (i + 1) \<in> {[], exact ps' off'}"
    and recv_other:
    "content_ok c \<Longrightarrow> j \<noteq> i + 1 \<Longrightarrow> pend (fst (recv q i c)) j = []"
begin

fun receive_seq :: "'q \<Rightarrow> (u32 \<times> piece list) list \<Rightarrow> 'q \<times> enc_pkg list" where
  "receive_seq q [] = (q, [])"
| "receive_seq q ((i, c) # xs) =
     (case recv q i c of (q1, out1) \<Rightarrow>
        (case receive_seq q1 xs of (q2, out2) \<Rightarrow> (q2, out1 @ out2)))"

text \<open>In order and complete: exactly the finished packages, in order.\<close>

lemma in_order:
  assumes "stream ps off (concat cs)" "position_ok ps off" "\<forall>c \<in> set cs. content_ok c"
    "stream_rest ps off (concat cs) = (ps', off')" "pend q i = exact ps off"
  shows "\<exists>done. ps = done @ ps' \<and>
     snd (receive_seq q (numbered i cs)) = map enc_pkg_of_raw done \<and>
     pend (fst (receive_seq q (numbered i cs))) (i + word_of_nat (length cs)) = exact ps' off'"
  using assms
proof (induction cs arbitrary: ps off q i)
  case (Cons c cs)
  obtain ps1 off1 where r1: "stream_rest ps off c = (ps1, off1)" by fastforce
  have st: "stream ps off c" "stream ps1 off1 (concat cs)"
    using Cons.prems(1) r1 by (auto simp: stream_append)
  have rest: "stream_rest ps1 off1 (concat cs) = (ps', off')"
    using Cons.prems(4) r1 st(1) by (simp add: stream_rest_append)
  obtain q1 out1 where q1: "recv q i c = (q1, out1)" by fastforce
  from recv_exact [OF st(1) Cons.prems(2) _ r1 Cons.prems(5)] Cons.prems(3)
  obtain d1 where d1: "ps = d1 @ ps1" "out1 = map enc_pkg_of_raw d1" "pend q1 (i + 1) = exact ps1 off1"
    by (auto simp: q1)
  from Cons.IH [OF st(2) stream_rest_position [OF Cons.prems(2) st(1) r1] _ rest d1(3)] Cons.prems(3)
  obtain d2 where "ps1 = d2 @ ps'"
    "snd (receive_seq q1 (numbered (i + 1) cs)) = map enc_pkg_of_raw d2"
    "pend (fst (receive_seq q1 (numbered (i + 1) cs))) (i + 1 + word_of_nat (length cs)) =
       exact ps' off'"
    by auto
  with d1 show ?case by (auto simp: q1 split: prod.splits simp: ac_simps)
qed auto

text \<open>
  Whatever arrives, the receiver holds the part of a package that precedes the content after the
  one received last, or nothing.
\<close>

definition holds :: "bytes list \<Rightarrow> piece list list \<Rightarrow> u32 \<Rightarrow> 'q \<Rightarrow> bool" where
  "holds ps cs i0 q \<longleftrightarrow>
     (\<forall>j < length cs. pend q (i0 + word_of_nat j) \<in> {[], case_prod exact (position ps cs j)})"

lemma position_facts:
  assumes "stream ps 0 (concat cs)" "j < length cs"
  shows "\<exists>ps1 off1. position ps cs j = (ps1, off1) \<and> position_ok ps1 off1 \<and>
     stream ps1 off1 (cs ! j) \<and> stream_rest ps1 off1 (cs ! j) = position ps cs (Suc j) \<and>
     set ps1 \<subseteq> set ps"
proof -
  have cs: "cs = take j cs @ cs ! j # drop (Suc j) cs" using assms(2) by (simp add: id_take_nth_drop)
  then have "stream ps 0 (concat (take j cs) @ cs ! j @ concat (drop (Suc j) cs))"
    using assms(1) by (metis concat.simps(2) concat_append)
  then have st: "stream ps 0 (concat (take j cs))"
    and st2: "case position ps cs j of (ps1, off1) \<Rightarrow> stream ps1 off1 (cs ! j)"
    by (auto simp: stream_append position_def split: prod.splits)
  obtain ps1 off1 where p: "position ps cs j = (ps1, off1)" by fastforce
  have "position_ok ps1 off1"
    using stream_rest_position [OF _ st] p by (auto simp: position_def position_ok_def)
  moreover have "set ps1 \<subseteq> set ps" using stream_rest_suffix [OF st] p by (auto simp: position_def)
  moreover have "stream_rest ps1 off1 (cs ! j) = position ps cs (Suc j)"
    using stream_rest_append [OF st, of "cs ! j"] p assms(2)
    by (simp add: position_def take_Suc_conv_app_nth)
  ultimately show ?thesis using p st2 by auto
qed

lemma word_of_nat_eq_u32:
  "i < 2 ^ 32 \<Longrightarrow> j < 2 ^ 32 \<Longrightarrow> (word_of_nat i :: u32) = word_of_nat j \<longleftrightarrow> i = j"
  by (simp add: word_of_nat_eq_iff take_bit_nat_eq_self)

lemma holds_step:
  assumes st: "stream ps 0 (concat cs)" and ok: "\<forall>c \<in> set cs. content_ok c"
    and few: "length cs < 2 ^ 32" and j: "j < length cs" and h: "holds ps cs i0 q"
  shows "holds ps cs i0 (fst (recv q (i0 + word_of_nat j) (cs ! j))) \<and>
     set (snd (recv q (i0 + word_of_nat j) (cs ! j))) \<subseteq> set (map enc_pkg_of_raw ps)"
proof -
  let ?i = "i0 + word_of_nat j :: u32"
  let ?r = "recv q ?i (cs ! j)"
  from position_facts [OF st j] obtain ps1 off1 where
    p: "position ps cs j = (ps1, off1)" "position_ok ps1 off1" "stream ps1 off1 (cs ! j)"
      "stream_rest ps1 off1 (cs ! j) = position ps cs (Suc j)" "set ps1 \<subseteq> set ps" by blast
  obtain ps2 off2 where p2: "position ps cs (Suc j) = (ps2, off2)" by fastforce
  have cok: "content_ok (cs ! j)" using ok j by auto
  from h j p have "pend q ?i = exact ps1 off1 \<or> pend q ?i = []" by (auto simp: holds_def)
  then have *: "set (snd ?r) \<subseteq> set (map enc_pkg_of_raw ps1) \<and>
      pend (fst ?r) (?i + 1) \<in> {[], exact ps2 off2}"
  proof
    assume "pend q ?i = exact ps1 off1"
    from recv_exact [OF p(3,2) cok p(4) [unfolded p2] this] show ?thesis by auto
  next
    assume "pend q ?i = []"
    from recv_lost [OF p(3,2) cok p(4) [unfolded p2] this] show ?thesis by auto
  qed
  have "pend (fst ?r) (i0 + word_of_nat j') \<in> {[], case_prod exact (position ps cs j')}"
    if "j' < length cs" for j'
  proof (cases "j' = Suc j")
    case True
    have "i0 + word_of_nat (Suc j) = ?i + 1" by simp
    with * p2 True show ?thesis by (simp only: prod.case)
  next
    case False
    have "(word_of_nat j' :: u32) \<noteq> word_of_nat (Suc j)"
      using False word_of_nat_eq_u32 [of j' "Suc j"] that j few by auto
    then have "i0 + word_of_nat j' \<noteq> ?i + 1" by (simp add: add.assoc add.commute)
    then show ?thesis using recv_other [OF cok] by simp
  qed
  moreover have "set (snd ?r) \<subseteq> set (map enc_pkg_of_raw ps)"
    using * image_mono [OF p(5), of enc_pkg_of_raw] by (simp only: set_map) blast
  ultimately show ?thesis by (auto simp: holds_def)
qed

text \<open>Any sequence of contents the sender made, each as often as it comes, in any order.\<close>

lemma any_order:
  assumes "stream ps 0 (concat cs)" "\<forall>c \<in> set cs. content_ok c" "length cs < 2 ^ 32"
    "holds ps cs i0 q" "\<forall>j \<in> set js. j < length cs"
  shows "set (snd (receive_seq q (map (\<lambda>j. (i0 + word_of_nat j, cs ! j)) js)))
           \<subseteq> set (map enc_pkg_of_raw ps)"
  using assms(4,5)
proof (induction js arbitrary: q)
  case (Cons j js)
  from holds_step [OF assms(1-3) _ Cons.prems(1), of j] Cons.prems(2)
  have h: "holds ps cs i0 (fst (recv q (i0 + word_of_nat j) (cs ! j)))"
    "set (snd (recv q (i0 + word_of_nat j) (cs ! j))) \<subseteq> set (map enc_pkg_of_raw ps)" by auto
  from Cons.IH [OF h(1)] Cons.prems(2) h(2) show ?case by (auto split: prod.splits)
qed simp

end


section \<open>The code's receiver reassembles\<close>

definition recv_content ::
    "bytes \<Rightarrow> producer_queue option \<Rightarrow> u32 \<Rightarrow> piece list \<Rightarrow>
       producer_queue option \<times> enc_pkg list" where
  "recv_content pre q i c = snd (receive_fragment q (pre @ content i c) (length pre))"

definition pending_for :: "producer_queue option \<Rightarrow> u32 \<Rightarrow> bytes" where
  "pending_for q i = queue_pending i q"

lemma recv_content_eq:
  assumes "content_ok c"
  shows "recv_content pre q i c =
     (case take_chunks (\<not> piece_first (hd c)) (\<not> piece_last (last c)) True
             (if piece_first (hd c) then [] else pending_for q i) (map piece_bytes c) of
        (p3, out) \<Rightarrow> (Some \<lparr>lastFragmentReceived = i, pendingBytes = p3\<rparr>, map enc_pkg_of_raw out))"
  by (simp add: recv_content_def receive_fragment_content [OF assms] pending_for_def Let_def
      split: prod.splits)

lemma pending_for_next [simp]:
  "pending_for (Some \<lparr>lastFragmentReceived = i, pendingBytes = p\<rparr>) j = (if j = i + 1 then p else [])"
  by (simp add: pending_for_def queue_pending_def)

lemma first_piece_offset:
  "stream ps off c \<Longrightarrow> c \<noteq> [] \<Longrightarrow> piece_first (hd c) \<longleftrightarrow> off = 0"
  by (cases "(ps, off, c)" rule: stream.cases) (auto simp: piece_first_def)

interpretation fragment_receiver: reassembly "recv_content pre" pending_for for pre
proof
  fix ps :: "bytes list" and off c ps' off' i and q :: "producer_queue option"
  assume a: "stream ps off c" "position_ok ps off" "content_ok c" "stream_rest ps off c = (ps', off')"
  have first: "piece_first (hd c) \<longleftrightarrow> off = 0"
    using a(1,3) by (auto simp: content_ok_def first_piece_offset)
  {
    assume "pending_for q i = exact ps off"
    then have "(if piece_first (hd c) then [] else pending_for q i) = exact ps off"
      using first by (simp add: exact_def)
    with take_chunks_exact [OF a(1-4)] show "\<exists>done. ps = done @ ps' \<and>
        snd (recv_content pre q i c) = map enc_pkg_of_raw done \<and>
        pending_for (fst (recv_content pre q i c)) (i + 1) = exact ps' off'"
      by (auto simp: recv_content_eq [OF a(3)] simp del: if_split)
  }
  {
    assume p: "pending_for q i = []"
    show "\<exists>d1 d2. ps = d1 @ d2 @ ps' \<and>
        snd (recv_content pre q i c) = map enc_pkg_of_raw d2 \<and>
        pending_for (fst (recv_content pre q i c)) (i + 1) \<in> {[], exact ps' off'}"
    proof (cases "off = 0")
      case True
      with take_chunks_exact [OF a(1-4)] p show ?thesis
        by (force simp: recv_content_eq [OF a(3)] exact_def)
    next
      case False
      then obtain d1 d2 pend' where t: "ps = d1 @ d2 @ ps'" "pend' = [] \<or> pend' = exact ps' off'"
        "take_chunks (\<not> piece_first (hd c)) (\<not> piece_last (last c)) True [] (map piece_bytes c) =
           (pend', d2)"
        using take_chunks_lost [OF a(1-3) _ a(4)] by blast
      then show ?thesis
        using p by (intro exI [of _ d1] exI [of _ d2]) (auto simp: recv_content_eq [OF a(3)])
    qed
  }
next
  fix c :: "piece list" and i j :: u32 and q :: "producer_queue option"
  assume "content_ok c" "j \<noteq> i + 1"
  then show "pending_for (fst (recv_content pre q i c)) j = []"
    by (simp add: recv_content_eq split: prod.splits)
qed

end
