(* ===== verification/CM_Transfer.thy ===== *)
theory CM_Transfer
  imports CM_Package_Inv CM_Stream
begin

unbundle bit_operations_syntax

text \<open>
  From one channel end to the other: the contents \<open>encodeForAction\<close> hands to the encodings are
  contents of the abstract protocol of CM_Stream, the fragments of a link form one stream over
  its action queue, so what a receiver reassembles is what was sent.
\<close>

section \<open>The bytes of an action\<close>

definition fragment_mode :: "encoding_mode \<Rightarrow> bool" where
  "fragment_mode m \<longleftrightarrow> m = FRAGMENT_SINGLE_PRODUCER \<or> m = FRAGMENT_MULTIPLE_PRODUCER"

definition piece_of :: "cm \<Rightarrow> frag_ref \<Rightarrow> piece" where
  "piece_of s r = (getRawData (pkg_of s (frags s r)), fr_offset (frags s r), fr_len (frags s r))"

definition producer_prefix :: "cm \<Rightarrow> link \<Rightarrow> bytes" where
  "producer_prefix s lk = (if mode s = FRAGMENT_MULTIPLE_PRODUCER then producerId lk else [])"

definition small_packages :: "cm \<Rightarrow> bool" where
  "small_packages s \<longleftrightarrow> (\<forall>p. getSize (pk_pkg (pkgs s p)) < 2 ^ 32)"

lemma piece_first_of [simp]: "piece_first (piece_of s r) \<longleftrightarrow> fr_offset (frags s r) = 0"
  by (simp add: piece_first_def piece_of_def)

lemma piece_last_of [simp]: "piece_last (piece_of s r) \<longleftrightarrow> isLastFragment s (frags s r)"
  by (simp add: piece_last_def piece_of_def isLastFragment_def)

lemma fragment_payload_piece:
  assumes "fr_offset (frags s r) + fr_len (frags s r) \<le> getSize (pkg_of s (frags s r))"
    "getSize (pkg_of s (frags s r)) < 2 ^ 32"
  shows "fragment_payload s r =
      (if mode s = SINGLE then piece_bytes (piece_of s r) else chunk (piece_bytes (piece_of s r)))"
    "length (piece_bytes (piece_of s r)) = fr_len (frags s r)"
proof -
  have lt: "fr_offset (frags s r) < 2 ^ 32" "fr_len (frags s r) < 2 ^ 32" using assms by linarith+
  show len: "length (piece_bytes (piece_of s r)) = fr_len (frags s r)"
    using assms(1) by (simp add: piece_bytes_def piece_of_def)
  have "unat (word_of_nat (fr_offset (frags s r)) :: u32) = fr_offset (frags s r)"
    "unat (word_of_nat (fr_len (frags s r)) :: u32) = fr_len (frags s r)"
    using lt by (simp_all add: unat_of_nat)
  then show "fragment_payload s r =
      (if mode s = SINGLE then piece_bytes (piece_of s r) else chunk (piece_bytes (piece_of s r)))"
    unfolding chunk_def len by (simp add: fragment_payload_def Let_def piece_bytes_def piece_of_def)
qed

lemma act_payload:
  assumes "pm_ok s" "small_packages s" "r \<in> set (ai_fragments (acts s a))"
  shows "fragment_payload s r =
      (if mode s = SINGLE then piece_bytes (piece_of s r) else chunk (piece_bytes (piece_of s r)))"
    "length (piece_bytes (piece_of s r)) = fr_len (frags s r)"
    "fr_len (frags s r) < 2 ^ 32"
proof -
  have sz: "getSize (pkg_of s (frags s r)) < 2 ^ 32"
    using assms(2) by (simp add: small_packages_def pkg_of_def)
  note b = act_refsD(3) [OF assms(1,3)]
  show "fragment_payload s r =
      (if mode s = SINGLE then piece_bytes (piece_of s r) else chunk (piece_bytes (piece_of s r)))"
    "length (piece_bytes (piece_of s r)) = fr_len (frags s r)"
    using fragment_payload_piece [OF b sz] .
  show "fr_len (frags s r) < 2 ^ 32" using b sz by linarith
qed

lemma content_ok_action:
  assumes "pm_ok s" "small_packages s" "ai_fragments (acts s a) \<noteq> []"
  shows "content_ok (map (piece_of s) (ai_fragments (acts s a)))"
  using act_payload [OF assms(1,2)] act_innerD [OF assms(1)] assms(3)
  by (auto simp: content_ok_def map_butlast [symmetric])

text \<open>In the fragment modes the bytes of an action are a content of the protocol.\<close>

lemma action_content_eq:
  assumes "pm_ok s" "small_packages s" "ai_fragments (acts s a) \<noteq> []" "fragment_mode (mode s)"
  shows "action_content s lk (ai_fragments (acts s a)) =
     producer_prefix s lk @ content (fragmentCount lk) (map (piece_of s) (ai_fragments (acts s a)))"
proof -
  let ?rs = "ai_fragments (acts s a)"
  have "map (fragment_payload s) ?rs = map (\<lambda>r. chunk (piece_bytes (piece_of s r))) ?rs"
    using act_payload(1) [OF assms(1,2)] assms(4) by (auto simp: fragment_mode_def)
  moreover have "fragment_flags s ?rs = content_flags (map (piece_of s) ?rs)"
    using assms(3) by (simp add: fragment_flags_def content_flags_def hd_map last_map)
  ultimately show ?thesis
    using assms(4)
    by (auto simp: action_content_def content_header_def producer_prefix_def content_def
        fragment_mode_def comp_def cong: map_cong)
qed

text \<open>An action is never given more bytes than its encodings announced room for.\<close>

lemma length_action_content:
  assumes "pm_ok s" "small_packages s"
    "mode s = FRAGMENT_MULTIPLE_PRODUCER \<Longrightarrow> length (producerId lk) = 16"
  shows "length (action_content s lk (ai_fragments (acts s a))) = filled_bytes s (acts s a)"
proof -
  let ?rs = "ai_fragments (acts s a)"
  have "length (fragment_payload s r) = perFragmentOverhead (mode s) + fr_len (frags s r)"
    if "r \<in> set ?rs" for r
    using act_payload [OF assms(1,2) that]
    by (simp add: perFragmentOverhead_def FRAGMENT_LEN_SIZE_def)
  then have "length (concat (map (fragment_payload s) ?rs)) =
      (\<Sum>r\<leftarrow>?rs. perFragmentOverhead (mode s) + fr_len (frags s r))"
    by (simp add: length_concat comp_def cong: map_cong)
  moreover have "length (content_header s lk ?rs) = perActionOverhead (mode s)"
    using assms(3) by (cases "mode s") (auto simp: content_header_def perActionOverhead_def
        FRAGMENT_SINGLE_PRODUCER_OVERHEAD_def FRAGMENT_MULTIPLE_PRODUCER_OVERHEAD_def)
  ultimately show ?thesis by (simp add: action_content_def filled_bytes_def)
qed

lemma encode_step_calls:
  "\<exists>xs. calls (encode_step a b i s) = calls s @ xs \<and>
     set xs \<subseteq> {EncoderEncodeBytes enc h ps b |enc h ps. True}"
proof -
  have f: "calls (fold (\<lambda>r s. upd_pkg (fr_package (frags s r)) (g r) s) rs t) = calls t" for g rs t
    by (induction rs arbitrary: t) (auto simp: upd_pkg_def)
  show ?thesis
    by (auto simp: encode_step_def Let_def upd_encoding_def upd_act_def f call_def split: option.split)
qed

lemma encode_all_calls:
  "\<exists>xs. calls (encode_all a b s) = calls s @ xs \<and>
     set xs \<subseteq> {EncoderEncodeBytes enc h ps b |enc h ps. True}"
proof -
  have "\<exists>xs. calls (fold (encode_step a b) is s) = calls s @ xs \<and>
     set xs \<subseteq> {EncoderEncodeBytes enc h ps b |enc h ps. True}" for "is"
  proof (induction "is" arbitrary: s)
    case (Cons i "is")
    from encode_step_calls [of a b i s] Cons [of "encode_step a b i s"] show ?case
      by (fastforce simp del: upt.simps)
  qed simp
  then show ?thesis by (simp add: encode_all_def)
qed

section \<open>The fragments of a link form one stream\<close>

definition ours :: "cm \<Rightarrow> link_id \<Rightarrow> action_ref \<Rightarrow> frag_ref list" where
  "ours s l a = (if ai_linkId (acts s a) = l then ai_fragments (acts s a) else [])"

definition link_frags :: "cm \<Rightarrow> link_id \<Rightarrow> action_ref list \<Rightarrow> frag_ref list" where
  "link_frags s l as = concat (map (ours s l) as)"

text \<open>An action is passed when the loop of \<open>generateFragmentsForPackage\<close> passes over it.\<close>

definition passed :: "real \<Rightarrow> cm \<Rightarrow> link_id \<Rightarrow> action_ref \<Rightarrow> bool" where
  "passed now s l a \<longleftrightarrow> \<not> ((ai_linkId (acts s a) = l \<or> ai_linkId (acts s a) = []) \<and>
     1 < spaceAvailableInAction s (acts s a) \<and> isTimeToEncode s now (acts s a))"

text \<open>Before the last action in use every action is passed.\<close>

fun ordered :: "real \<Rightarrow> cm \<Rightarrow> link_id \<Rightarrow> action_ref list \<Rightarrow> bool" where
  "ordered now s l [] = True"
| "ordered now s l (a # as) =
     (if passed now s l a then ordered now s l as else (\<forall>x \<in> set as. ours s l x = []))"

lemma link_frags_Cons [simp]: "link_frags s l (a # as) = ours s l a @ link_frags s l as"
  by (simp add: link_frags_def)

lemma link_frags_empty: "(\<forall>x \<in> set as. ours s l x = []) \<Longrightarrow> link_frags s l as = []"
  by (simp add: link_frags_def)

lemma ordered_empty: "(\<forall>x \<in> set as. ours s l x = []) \<Longrightarrow> ordered now s l as"
  by (induction as) auto

lemma fits_fragment_mode:
  "fragment_mode (mode s) \<Longrightarrow> isActionAbleToFit s ai p \<longleftrightarrow> 1 < spaceAvailableInAction s ai"
  by (auto simp: isActionAbleToFit_def fragment_mode_def)

text \<open>What is left alone outside a set of actions and packages while fragments are added.\<close>

definition adds_only :: "action_ref set \<Rightarrow> pkg_ref \<Rightarrow> cm \<Rightarrow> cm \<Rightarrow> bool" where
  "adds_only A p s' s \<longleftrightarrow> same_frame s' s \<and> nextFragmentHandle s \<le> nextFragmentHandle s' \<and>
     (\<forall>r < nextFragmentHandle s. frags s' r = frags s r) \<and>
     (\<forall>a. a \<notin> A \<longrightarrow> acts s' a = acts s a) \<and>
     (\<forall>q. pk_pkg (pkgs s' q) = pk_pkg (pkgs s q)) \<and>
     (\<forall>q. q \<noteq> p \<longrightarrow> pkgs s' q = pkgs s q)"

lemma adds_only_refl [simp]: "adds_only A p s s"
  by (simp add: adds_only_def)

lemma adds_onlyD:
  assumes "adds_only A p s' s"
  shows "same_frame s' s" "\<And>r. r < nextFragmentHandle s \<Longrightarrow> frags s' r = frags s r"
    "\<And>a. a \<notin> A \<Longrightarrow> acts s' a = acts s a" "\<And>q. pk_pkg (pkgs s' q) = pk_pkg (pkgs s q)"
    "\<And>q. q \<noteq> p \<Longrightarrow> pkgs s' q = pkgs s q" "mode s' = mode s"
    "maxEncodingTime s' = maxEncodingTime s" "nextFragmentHandle s \<le> nextFragmentHandle s'"
    "links s' = links s" "next_pkg s' = next_pkg s"
  using assms by (auto simp: adds_only_def same_frame_def)

lemma passed_stable:
  assumes "pm_ok s" "adds_only A p s' s" "a \<notin> A"
  shows "passed now s' l a = passed now s l a"
proof -
  have lt: "r < nextFragmentHandle s" if "r \<in> set (ai_fragments (acts s a))" for r
    using act_refsD(1) [OF assms(1) that] .
  note d = adds_onlyD [OF assms(2)]
  have "filled_bytes s' (acts s a) = filled_bytes s (acts s a)"
    using lt by (simp add: filled_bytes_def d(2,6) cong: map_cong)
  then have "spaceAvailableInAction s' (acts s a) = spaceAvailableInAction s (acts s a)"
    by (simp add: spaceAvailableInAction_def d(6) Let_def)
  then show ?thesis by (simp add: passed_def isTimeToEncode_def d(3,7) assms(3))
qed

lemma generate_loop_skip:
  "fragment_mode (mode s) \<Longrightarrow> passed now s l a \<Longrightarrow>
     generate_loop now l p (a # as) off s = generate_loop now l p as off s"
  unfolding generate_loop.simps Let_def passed_def by (auto simp only: fits_fragment_mode if_False)

lemma generate_loop_take:
  "fragment_mode (mode s) \<Longrightarrow> \<not> passed now s l a \<Longrightarrow>
     n = min (spaceAvailableInAction s (acts s a)) (getSize (pk_pkg (pkgs s p)) - off) \<Longrightarrow>
     generate_loop now l p (a # as) off s =
       (if off + n = getSize (pk_pkg (pkgs s p)) then (True, add_fragment l p a off n s)
        else generate_loop now l p as (off + n) (add_fragment l p a off n s))"
  unfolding generate_loop.simps Let_def passed_def by (simp only: fits_fragment_mode simp_thms if_True)

lemma generate_loop_passed:
  assumes "fragment_mode (mode s)" "\<forall>a \<in> set as. passed now s l a"
  shows "generate_loop now l p as off s = (False, s)"
  using assms by (induction as) (simp_all del: generate_loop.simps(2) add: generate_loop_skip)

lemma add_fragment_adds_only: "adds_only {a} p (add_fragment l p a off n s) s"
  by (simp add: adds_only_def add_fragment_fields)

text \<open>What one run of the loop leaves behind, on the actions \<open>as\<close>.\<close>

definition extends :: "real \<Rightarrow> link_id \<Rightarrow> pkg_ref \<Rightarrow> action_ref list \<Rightarrow> bool \<Rightarrow> cm \<Rightarrow> cm \<Rightarrow> bool" where
  "extends now l p as cpl s' s \<longleftrightarrow>
     pm_ok s' \<and> adds_only (set as) p s' s \<and> ordered now s' l as \<and>
     (\<forall>a. acts s' a = acts s a \<or> ai_linkId (acts s' a) = l) \<and>
     (\<exists>new. link_frags s' l as = link_frags s l as @ new \<and>
        packageFragments (pkgs s' p) = packageFragments (pkgs s p) @ new) \<and>
     (if cpl then tiles_end (frags s') (packageFragments (pkgs s' p)) = getSize (pk_pkg (pkgs s p))
      else \<forall>a \<in> set as. passed now s' l a)"

lemma adds_only_trans:
  "adds_only A p s2 s1 \<Longrightarrow> adds_only B p s1 s \<Longrightarrow> adds_only (A \<union> B) p s2 s"
  unfolding adds_only_def by (auto intro: same_frame_trans)

lemma adds_only_mono: "adds_only A p s' s \<Longrightarrow> A \<subseteq> B \<Longrightarrow> adds_only B p s' s"
  unfolding adds_only_def by blast

lemma add_fragment_passed:
  assumes add: "adding s p a off n" and l: "l \<noteq> []"
    and part: "off + n \<noteq> getSize (pk_pkg (pkgs s p))"
  shows "passed now (add_fragment l p a off n s) l a"
proof -
  let ?s = "add_fragment l p a off n s" and ?r = "nextFragmentHandle s"
  have "act_wf ?s a" using add_fragment_ok [OF add l] by (simp add: pm_ok_def)
  moreover have "ai_fragments (acts ?s a) = ai_fragments (acts s a) @ [?r]"
    "frags ?s ?r = \<lparr>fr_handle = word_of_nat ?r, fr_package = p, fr_state = F_UNENCODED,
       fr_action = Some a, fr_offset = off, fr_len = n, markForDeletion = False\<rparr>"
    by (simp_all add: add_fragment_fields)
  moreover have "pkg_of ?s (frags ?s ?r) = pk_pkg (pkgs s p)"
    by (simp add: pkg_of_def add_fragment_fields)
  moreover have "off + n < getSize (pk_pkg (pkgs s p))" using part add_n [OF add] by simp
  ultimately have "max_bytes ?s a \<le> filled_bytes ?s (acts ?s a) + perFragmentOverhead (mode ?s)"
    by (simp add: act_wf_def Let_def isLastFragment_def)
  then have "spaceAvailableInAction ?s (acts ?s a) = 0"
    using space_pos(2) [of ?s a] by fastforce
  then show ?thesis by (simp add: passed_def)
qed

lemma ours_eq: "acts s' a = acts s a \<Longrightarrow> ours s' l a = ours s l a"
  by (simp add: ours_def)

lemma ours_add:
  assumes "pm_ok s" "ai_linkId (acts s a) = l \<or> ai_linkId (acts s a) = []"
  shows "ours (add_fragment l p a off n s) l a = ours s l a @ [nextFragmentHandle s]"
proof -
  have "ai_linkId (acts s a) = [] \<Longrightarrow> ai_fragments (acts s a) = []"
    using act_capD(2) [OF assms(1), of a] by blast
  with assms(2) show ?thesis by (auto simp: ours_def add_fragment_fields)
qed

lemma ordered_step:
  assumes "pm_ok s" "adds_only (set as) p s' s" "ordered now s' l as" "a \<notin> set as"
    "passed now s l a"
  shows "ordered now s' l (a # as)" "passed now s' l a"
  using passed_stable [OF assms(1,2,4), of now l] assms(3,5) by simp_all

lemma generate_loop_extends:
  assumes "fragment_mode (mode s)" "pm_ok s" "p < next_pkg s" "l \<noteq> []"
    "off = tiles_end (frags s) (packageFragments (pkgs s p))" "off < getSize (pk_pkg (pkgs s p))"
    "distinct as" "ordered now s l as"
  shows "case generate_loop now l p as off s of (b, s') \<Rightarrow> extends now l p as b s' s"
  using assms
proof (induction as arbitrary: off s)
  case Nil
  then show ?case by (auto simp: extends_def link_frags_def)
next
  case (Cons a as)
  let ?n = "min (spaceAvailableInAction s (acts s a)) (getSize (pk_pkg (pkgs s p)) - off)"
  let ?s1 = "add_fragment l p a off ?n s"
  have a: "a \<notin> set as" "distinct as" using Cons.prems(7) by auto
  show ?case
  proof (cases "passed now s l a")
    case True
    have "generate_loop now l p (a # as) off s = generate_loop now l p as off s"
      by (rule generate_loop_skip [OF Cons.prems(1) True])
    moreover have "ordered now s l as" using Cons.prems(8) True by simp
    moreover obtain b s' where g: "generate_loop now l p as off s = (b, s')" by fastforce
    ultimately have e: "extends now l p as b s' s" and
      eq: "generate_loop now l p (a # as) off s = (b, s')"
      using Cons.IH [OF Cons.prems(1-6) a(2)] by auto
    then have ao: "adds_only (set as) p s' s" "ordered now s' l as" by (auto simp: extends_def)
    from ordered_step [OF Cons.prems(2) ao a(1) True]
    have o: "ordered now s' l (a # as)" "passed now s' l a" .
    have "ours s' l a = ours s l a" using adds_onlyD(3) [OF ao(1) a(1)] by (rule ours_eq)
    with e o adds_only_mono [OF ao(1), of "set (a # as)"] show ?thesis
      unfolding eq by (auto simp: extends_def split: if_splits)
  next
    case False
    then have open_a: "(ai_linkId (acts s a) = l \<or> ai_linkId (acts s a) = []) \<and>
        isActionAbleToFit s (acts s a) (pk_pkg (pkgs s p)) \<and> isTimeToEncode s now (acts s a)"
      using fits_fragment_mode [OF Cons.prems(1)] by (auto simp: passed_def)
    then have add: "adding s p a off ?n" using Cons.prems by (simp add: adding_def)
    note ok1 = add_fragment_ok [OF add Cons.prems(4)] and n1 = add_n [OF add]
    have rest: "\<forall>x \<in> set as. ours s l x = []" using Cons.prems(8) False by simp
    note ao1 = add_fragment_adds_only [of a p l off ?n s]
    have rest1: "\<forall>x \<in> set as. ours ?s1 l x = []"
      using rest a(1) ours_eq adds_onlyD(3) [OF ao1] by (metis empty_iff insert_iff)
    have lf: "link_frags s l as = []" "link_frags ?s1 l as = []"
      by (rule link_frags_empty [OF rest], rule link_frags_empty [OF rest1])
    have oa: "ours ?s1 l a = ours s l a @ [nextFragmentHandle s]"
      using ours_add [OF Cons.prems(2)] open_a by blast
    have pf: "packageFragments (pkgs ?s1 p) = packageFragments (pkgs s p) @ [nextFragmentHandle s]"
      "\<forall>x. acts ?s1 x = acts s x \<or> ai_linkId (acts ?s1 x) = l"
      by (simp_all add: add_fragment_fields)
    have e1: "off + ?n = tiles_end (frags ?s1) (packageFragments (pkgs ?s1 p))"
      by (rule add_next_offset [OF add, symmetric])
    show ?thesis
    proof (cases "off + ?n = getSize (pk_pkg (pkgs s p))")
      case full: True
      have eq: "generate_loop now l p (a # as) off s = (True, ?s1)"
        unfolding generate_loop_take [OF Cons.prems(1) False refl] by (rule if_P [OF full])
      have "ordered now ?s1 l (a # as)" using rest1 by (simp add: ordered_empty)
      then have "extends now l p (a # as) True ?s1 s"
        using ok1 adds_only_mono [OF ao1, of "set (a # as)"] oa pf e1 [symmetric] lf
        by (simp del: ordered.simps add: extends_def full)
      then show ?thesis unfolding eq by (simp only: prod.case)
    next
      case part: False
      have eq: "generate_loop now l p (a # as) off s = generate_loop now l p as (off + ?n) ?s1"
        unfolding generate_loop_take [OF Cons.prems(1) False refl] by (rule if_not_P [OF part])
      have p1: "p < next_pkg ?s1" "fragment_mode (mode ?s1)"
        using Cons.prems(1,3) by (simp_all add: add_fragment_fields)
      have lt: "off + ?n < getSize (pk_pkg (pkgs ?s1 p))" using part n1 by simp
      obtain b s' where g: "generate_loop now l p as (off + ?n) ?s1 = (b, s')" by fastforce
      from Cons.IH [OF p1(2) ok1 p1(1) Cons.prems(4) e1 lt a(2) ordered_empty [OF rest1]] g
      have e: "extends now l p as b s' ?s1" by simp
      then have ao: "adds_only (set as) p s' ?s1" "ordered now s' l as" by (auto simp: extends_def)
      from ordered_step [OF ok1 ao a(1) add_fragment_passed [OF add Cons.prems(4) part]]
      have o: "ordered now s' l (a # as)" "passed now s' l a" .
      have "ours s' l a = ours ?s1 l a" using adds_onlyD(3) [OF ao(1) a(1)] by (rule ours_eq)
      moreover have "\<forall>x. acts s' x = acts s x \<or> ai_linkId (acts s' x) = l"
      proof
        fix x
        have "acts s' x = acts ?s1 x \<or> ai_linkId (acts s' x) = l" using e by (simp add: extends_def)
        with pf(2) show "acts s' x = acts s x \<or> ai_linkId (acts s' x) = l" by metis
      qed
      moreover note e o oa lf pf(1) adds_only_trans [OF ao(1) ao1]
      ultimately show ?thesis
        unfolding eq g by (auto simp: extends_def split: if_splits)
    qed
  qed
qed


subsection \<open>Sending packages one after the other\<close>

lemma passed_mono: "passed now s l a \<Longrightarrow> now \<le> now' \<Longrightarrow> passed now' s l a"
  by (auto simp: passed_def isTimeToEncode_def)

lemma ordered_mono: "ordered now s l as \<Longrightarrow> now \<le> now' \<Longrightarrow> ordered now' s l as"
  by (induction as) (auto simp: passed_mono ordered_empty split: if_splits)

definition whole :: "cm \<Rightarrow> pkg_ref \<Rightarrow> bool" where
  "whole s p \<longleftrightarrow> tiles_end (frags s) (packageFragments (pkgs s p)) = getSize (pk_pkg (pkgs s p))"

definition queue_frags :: "cm \<Rightarrow> pkg_ref list \<Rightarrow> frag_ref list" where
  "queue_frags s ps = concat (map (\<lambda>p. packageFragments (pkgs s p)) ps)"

text \<open>
  A queue of packages \<open>ps\<close> spread over the actions \<open>Q\<close>: whole packages first, and once a package
  is not wholly placed, no action takes more and the packages behind it have no fragments.
\<close>

definition placed :: "real \<Rightarrow> cm \<Rightarrow> link_id \<Rightarrow> action_ref list \<Rightarrow> pkg_ref list \<Rightarrow> bool" where
  "placed now s l Q ps \<longleftrightarrow> (\<exists>xs ys. ps = xs @ ys \<and> (\<forall>p \<in> set xs. whole s p) \<and>
     (ys \<noteq> [] \<longrightarrow> \<not> whole s (hd ys) \<and> (\<forall>a \<in> set Q. passed now s l a) \<and>
        (\<forall>p \<in> set (tl ys). packageFragments (pkgs s p) = [])))"

definition sending :: "real \<Rightarrow> link_id \<Rightarrow> action_ref list \<Rightarrow> pkg_ref list \<Rightarrow> cm \<Rightarrow> bool" where
  "sending now l Q ps s \<longleftrightarrow> pm_ok s \<and> fragment_mode (mode s) \<and> distinct Q \<and> distinct ps \<and>
     (\<forall>p \<in> set ps. p < next_pkg s) \<and> ordered now s l Q \<and>
     link_frags s l Q = queue_frags s ps \<and> placed now s l Q ps \<and>
     (\<forall>a \<in> set Q. ai_fragments (acts s a) \<noteq> [] \<longrightarrow> ai_linkId (acts s a) = l)"

lemma whole_stable:
  assumes "adds_only A p s' s" "pkg_wf s q" "q \<noteq> p"
  shows "whole s' q = whole s q" "packageFragments (pkgs s' q) = packageFragments (pkgs s q)"
proof -
  note d = adds_onlyD [OF assms(1)]
  show "packageFragments (pkgs s' q) = packageFragments (pkgs s q)" using d(5) assms(3) by simp
  have "tiles_end (frags s') (packageFragments (pkgs s q)) =
      tiles_end (frags s) (packageFragments (pkgs s q))"
    using assms(2) d(2) by (intro tiles_end_cong) (auto simp: pkg_wf_def)
  then show "whole s' q = whole s q" by (simp add: whole_def d(5) assms(3))
qed

lemma placed_mono:
  assumes "placed now s l Q ps" "now \<le> now'"
  shows "placed now' s l Q ps"
proof -
  obtain xs ys where "ps = xs @ ys" "\<forall>p \<in> set xs. whole s p"
    "ys \<noteq> [] \<longrightarrow> \<not> whole s (hd ys) \<and> (\<forall>a \<in> set Q. passed now s l a) \<and>
        (\<forall>p \<in> set (tl ys). packageFragments (pkgs s p) = [])"
    using assms(1) by (auto simp: placed_def)
  then show ?thesis unfolding placed_def
    by (intro exI [of _ xs] exI [of _ ys]) (auto intro: passed_mono [OF _ assms(2)])
qed

lemma placed_cong:
  assumes "placed now s l Q ps"
    "\<And>p. p \<in> set ps \<Longrightarrow> whole s' p = whole s p \<and> packageFragments (pkgs s' p) = packageFragments (pkgs s p)"
    "\<And>a. a \<in> set Q \<Longrightarrow> passed now s l a \<Longrightarrow> passed now s' l a"
  shows "placed now s' l Q ps"
proof -
  obtain xs ys where q: "ps = xs @ ys" "\<forall>p \<in> set xs. whole s p"
    "ys \<noteq> [] \<longrightarrow> \<not> whole s (hd ys) \<and> (\<forall>a \<in> set Q. passed now s l a) \<and>
        (\<forall>p \<in> set (tl ys). packageFragments (pkgs s p) = [])"
    using assms(1) by (auto simp: placed_def)
  have "ys \<noteq> [] \<Longrightarrow> hd ys \<in> set ps" "set (tl ys) \<subseteq> set ps"
    using q(1) by (cases ys; auto)+
  with q assms(2,3) show ?thesis unfolding placed_def
    by (intro exI [of _ xs] exI [of _ ys]) (auto simp: subset_iff)
qed

lemma sending_mono: "sending now l Q ps s \<Longrightarrow> now \<le> now' \<Longrightarrow> sending now' l Q ps s"
  unfolding sending_def using ordered_mono placed_mono by blast

text \<open>Adding a package to the queue: the loop of the package manager keeps \<open>sending\<close>.\<close>

lemma sending_generate:
  assumes snd: "sending now l Q ps s" and l: "l \<noteq> []"
    and p: "p < next_pkg s" "p \<notin> set ps" "packageFragments (pkgs s p) = []"
    and g: "generate_loop now l p Q 0 s = (b, s')"
  shows "sending now l Q (ps @ [p]) s' \<and> adds_only (set Q) p s' s"
proof -
  have s: "pm_ok s" "fragment_mode (mode s)" "distinct Q" "distinct ps"
    "\<forall>q \<in> set ps. q < next_pkg s" "ordered now s l Q" "link_frags s l Q = queue_frags s ps"
    "\<forall>a \<in> set Q. ai_fragments (acts s a) \<noteq> [] \<longrightarrow> ai_linkId (acts s a) = l"
    using snd by (simp_all add: sending_def)
  obtain xs ys where q: "ps = xs @ ys" "\<forall>q \<in> set xs. whole s q"
    "ys \<noteq> [] \<longrightarrow> \<not> whole s (hd ys) \<and> (\<forall>a \<in> set Q. passed now s l a) \<and>
        (\<forall>q \<in> set (tl ys). packageFragments (pkgs s q) = [])"
    using snd by (auto simp: sending_def placed_def)
  have nw: "\<not> whole s p" using p(3) by (simp add: whole_def getSize_def)
  show ?thesis
  proof (cases "ys = []")
    case False
    with q have "generate_loop now l p Q 0 s = (False, s)"
      by (intro generate_loop_passed s) auto
    with g have "s' = s" by simp
    moreover have "placed now s l Q (ps @ [p])"
      unfolding placed_def using q False p(3)
      by (intro exI [of _ xs] exI [of _ "ys @ [p]"]) (auto simp: tl_append split: list.split)
    ultimately show ?thesis using s p by (auto simp: sending_def queue_frags_def)
  next
    case True
    have off: "(0::nat) = tiles_end (frags s) (packageFragments (pkgs s p))"
      "0 < getSize (pk_pkg (pkgs s p))" by (simp_all add: p(3))
    from generate_loop_extends [OF s(2,1) p(1) l off s(3,6)] g
    have e: "extends now l p Q b s' s" by simp
    then have ao: "adds_only (set Q) p s' s" and ok': "pm_ok s'" and o': "ordered now s' l Q"
      by (auto simp: extends_def)
    note d = adds_onlyD [OF ao]
    have wf: "pkg_wf s q" if "q \<in> set ps" for q using s(1,5) that by (simp add: pm_ok_def)
    have same: "whole s' q = whole s q" "packageFragments (pkgs s' q) = packageFragments (pkgs s q)"
      if "q \<in> set ps" for q using whole_stable [OF ao wf [OF that]] p(2) that by auto
    have "link_frags s' l Q = queue_frags s' (ps @ [p])"
      using e s(7) p(3) same by (auto simp: extends_def queue_frags_def cong: map_cong)
    moreover have "placed now s' l Q (ps @ [p])"
    proof (cases "whole s' p")
      case True
      then show ?thesis unfolding placed_def using q same \<open>ys = []\<close>
        by (intro exI [of _ "ps @ [p]"] exI [of _ "[]"]) auto
    next
      case False
      then have "\<not> b" using e d(4) by (auto simp: extends_def whole_def)
      with False show ?thesis unfolding placed_def using q same \<open>ys = []\<close> e
        by (intro exI [of _ ps] exI [of _ "[p]"]) (auto simp: extends_def)
    qed
    moreover have "\<forall>a \<in> set Q. ai_fragments (acts s' a) \<noteq> [] \<longrightarrow> ai_linkId (acts s' a) = l"
    proof
      fix a assume "a \<in> set Q"
      moreover have "acts s' a = acts s a \<or> ai_linkId (acts s' a) = l"
        using e by (simp add: extends_def)
      ultimately show "ai_fragments (acts s' a) \<noteq> [] \<longrightarrow> ai_linkId (acts s' a) = l"
        using s(8) by auto
    qed
    moreover have "distinct (ps @ [p])" "\<forall>q \<in> set (ps @ [p]). q < next_pkg s'"
      using s(4,5) p d(10) by auto
    moreover have "fragment_mode (mode s')" using s(2) d(6) by simp
    ultimately show ?thesis using s(3) ok' o' ao by (simp add: sending_def)
  qed
qed

lemma same_framed_fields:
  "sending now l Q ps (upd_link k f s) = sending now l Q ps s" if "l \<noteq> []" "k \<noteq> []"
    "\<And>lk. set (packageQueue (f lk)) \<subseteq> insert p (set (packageQueue lk))" "p < next_pkg s"
    "\<And>lk. set (packageQueue lk) \<subseteq> set (packageQueue (f lk))"
proof -
  let ?t = "upd_link k f s"
  have eqs: "next_pkg ?t = next_pkg s" "frags ?t = frags s" "acts ?t = acts s" "pkgs ?t = pkgs s"
    "nextFragmentHandle ?t = nextFragmentHandle s" "mode ?t = mode s"
    "maxEncodingTime ?t = maxEncodingTime s"
    by (simp_all add: upd_link_def)
  have "pkg_wf ?t = pkg_wf s" by (rule ext) (simp add: pkg_wf_def eqs)
  moreover have "act_wf ?t = act_wf s"
    by (rule ext) (simp add: act_wf_def eqs isLastFragment_def pkg_of_def filled_bytes_def max_bytes_def)
  moreover have "(\<forall>l lk. links ?t l = Some lk \<longrightarrow> l \<noteq> [] \<and> set (packageQueue lk) \<subseteq> {..<next_pkg s}) =
      (\<forall>l lk. links s l = Some lk \<longrightarrow> l \<noteq> [] \<and> set (packageQueue lk) \<subseteq> {..<next_pkg s})" (is "?A = ?B")
  proof
    assume ?A
    then show ?B using that(5) unfolding upd_link_def
      by (simp, metis fun_upd_apply option.simps(9) subset_trans)
  next
    assume ?B
    then show ?A using that(2-4) unfolding upd_link_def
      by (auto split: if_splits) (metis insertE lessThan_iff subsetD)
  qed
  ultimately have "pm_ok ?t = pm_ok s" by (simp add: pm_ok_def eqs)
  moreover have "passed now ?t l = passed now s l"
    by (rule ext) (simp add: passed_def eqs spaceAvailableInAction_def filled_bytes_def isTimeToEncode_def Let_def)
  moreover have "ours ?t l = ours s l" by (rule ext) (simp add: ours_def eqs)
  moreover have "ordered now ?t l Q = ordered now s l Q"
    using calculation(2,3) by (induction Q) auto
  moreover have "whole ?t = whole s" by (rule ext) (simp add: whole_def eqs)
  ultimately show ?thesis
    by (simp add: sending_def link_frags_def queue_frags_def placed_def eqs)
qed

definition sender :: "real \<Rightarrow> conn_id \<Rightarrow> link_id \<Rightarrow> link \<Rightarrow> enc_pkg list \<Rightarrow> cm \<Rightarrow> bool" where
  "sender now c l lk0 acc s \<longleftrightarrow> conns s c = Some l \<and>
     (\<exists>lk. links s l = Some lk \<and> lk = lk0\<lparr>packageQueue := packageQueue lk\<rparr> \<and>
        sending now l (actionQueue lk0) (packageQueue lk) s \<and>
        map (\<lambda>p. pk_pkg (pkgs s p)) (packageQueue lk) = acc)"

lemma sender_mono: "sender now c l lk0 acc s \<Longrightarrow> now \<le> now' \<Longrightarrow> sender now' c l lk0 acc s"
  unfolding sender_def using sending_mono by blast

lemma sender_sendPackage:
  assumes sd: "sender now c l lk0 acc s"
    and snd: "sendPackage now h c pkg s = (r, s')"
    and small: "small_packages s" "getSize pkg < 2 ^ 32"
  shows "(r = Inr PLUGIN_TEMP_ERROR \<and> s' = s \<or> r = Inr PLUGIN_OK \<and> sender now c l lk0 (acc @ [pkg]) s')
     \<and> small_packages s' \<and> mode s' = mode s"
proof -
  obtain lk where lk: "conns s c = Some l" "links s l = Some lk"
    "lk = lk0\<lparr>packageQueue := packageQueue lk\<rparr>" "sending now l (actionQueue lk0) (packageQueue lk) s"
    "map (\<lambda>p. pk_pkg (pkgs s p)) (packageQueue lk) = acc"
    using sd by (auto simp: sender_def)
  have aq: "actionQueue lk = actionQueue lk0" using lk(3) by (metis link.select_convs(2) link.surjective link.update_convs(3))
  have ok: "pm_ok s" and fm: "fragment_mode (mode s)" using lk(4) by (simp_all add: sending_def)
  have l: "l \<noteq> []" using pm_ok_link [OF ok lk(2)] by simp
  let ?p = "next_pkg s"
  let ?s1 = "s\<lparr>next_pkg := Suc ?p, pkgs := (pkgs s)(?p := \<lparr>pk_link = l, pk_pkg = pkg,
      pk_sdkHandle = h, pk_pendingEncodeHandle = 0, packageFragments = []\<rparr>)\<rparr>"
  have gc: "getConnection s c = Inr l" using lk(1) by (simp add: getConnection_def)
  show ?thesis
  proof (cases "isPackageAbleToFit s l lk pkg")
    case False
    with snd small show ?thesis by (auto simp: sendPackage_def gc lk(2))
  next
    case True
    have old: "p \<noteq> ?p" if "p \<in> set (packageQueue lk)" for p
      using pm_ok_link(2) [OF ok lk(2) that] by simp
    have ok1: "pm_ok ?s1" by (rule new_package_ok [OF ok]) simp
    have s1: "sending now l (actionQueue lk0) (packageQueue lk) ?s1"
    proof -
      have pass: "passed now ?s1 l = passed now s l"
        by (rule ext) (simp add: passed_def spaceAvailableInAction_def filled_bytes_def isTimeToEncode_def Let_def)
      have ou: "ours ?s1 l = ours s l" by (rule ext) (simp add: ours_def)
      have ord: "ordered now ?s1 l as = ordered now s l as" for as
        using pass ou by (induction as) auto
      have pf: "packageFragments (pkgs ?s1 p) = packageFragments (pkgs s p)"
        if "p \<in> set (packageQueue lk)" for p using old [OF that] by simp
      have "placed now ?s1 l (actionQueue lk0) (packageQueue lk)"
      proof (rule placed_cong)
        show "placed now s l (actionQueue lk0) (packageQueue lk)"
          using lk(4) by (simp add: sending_def)
        show "whole ?s1 p = whole s p \<and> packageFragments (pkgs ?s1 p) = packageFragments (pkgs s p)"
          if "p \<in> set (packageQueue lk)" for p
          using old [OF that] by (simp add: whole_def)
        show "passed now s l a \<Longrightarrow> passed now ?s1 l a" for a by (simp only: pass)
      qed
      moreover have "queue_frags ?s1 (packageQueue lk) = queue_frags s (packageQueue lk)"
        unfolding queue_frags_def by (rule arg_cong [of _ _ concat], rule map_cong) (auto simp: old)
      moreover have "link_frags ?s1 l (actionQueue lk0) = link_frags s l (actionQueue lk0)"
        unfolding link_frags_def ou ..
      moreover have "\<forall>p \<in> set (packageQueue lk). p < next_pkg ?s1"
        using lk(4) by (simp add: sending_def less_SucI)
      ultimately show ?thesis using lk(4) ok1 ord unfolding sending_def by simp
    qed
    obtain b s2 where g: "generate_loop now l ?p (actionQueue lk0) 0 ?s1 = (b, s2)" by fastforce
    have gp: "generateFragmentsForPackage now l lk ?p ?s1 = (b, s2)"
      using g by (simp add: generateFragmentsForPackage_def next_offset_def aq getSize_def)
    from sending_generate [OF s1 l _ _ _ g] old
    have s2: "sending now l (actionQueue lk0) (packageQueue lk @ [?p]) s2"
      and ao: "adds_only (set (actionQueue lk0)) ?p s2 ?s1" by fastforce+
    note d = adds_onlyD [OF ao]
    have s': "r = Inr PLUGIN_OK" "s' = upd_link l (\<lambda>lk. lk\<lparr>packageQueue := packageQueue lk @ [?p]\<rparr>) s2"
      using snd True by (auto simp: sendPackage_def gc lk(2) Let_def gp)
    have lt: "?p < next_pkg s2" using d(10) by simp
    have "sending now l (actionQueue lk0) (packageQueue lk @ [?p]) s'"
      unfolding s' using s2 lt same_framed_fields [OF l l, of "\<lambda>lk. lk\<lparr>packageQueue := packageQueue lk @ [?p]\<rparr>" ?p s2]
      by auto
    moreover have "links s' l = Some (lk\<lparr>packageQueue := packageQueue lk @ [?p]\<rparr>)"
      using d(9) lk(2) by (simp add: s' upd_link_def)
    moreover have "conns s' c = Some l"
      using d(1) lk(1) by (simp add: s' upd_link_def same_frame_def)
    moreover have pk: "pk_pkg (pkgs s' q) = pk_pkg (pkgs ?s1 q)" for q
      using d(4) by (simp add: s' upd_link_def)
    moreover have "map (\<lambda>p. pk_pkg (pkgs s' p)) (packageQueue lk @ [?p]) = acc @ [pkg]"
      using lk(5) old by (simp add: pk cong: map_cong)
    moreover have "lk\<lparr>packageQueue := packageQueue lk @ [?p]\<rparr> =
        lk0\<lparr>packageQueue := packageQueue lk @ [?p]\<rparr>"
      by (subst lk(3)) simp
    ultimately have "sender now c l lk0 (acc @ [pkg]) s'" by (simp add: sender_def)
    moreover have "small_packages s'" using small pk by (auto simp: small_packages_def)
    moreover have "mode s' = mode s" using d(6) by (simp add: s' upd_link_def)
    ultimately show ?thesis using s'(1) by simp
  qed
qed

text \<open>A sequence of calls of \<open>sendPackage\<close> on one connection, and the packages accepted.\<close>

fun send_all :: "conn_id \<Rightarrow> (real \<times> u64 \<times> enc_pkg) list \<Rightarrow> cm \<Rightarrow> enc_pkg list \<times> cm" where
  "send_all c [] s = ([], s)"
| "send_all c ((now, h, pkg) # xs) s =
     (case sendPackage now h c pkg s of
        (r, s1) \<Rightarrow> (case send_all c xs s1 of
           (acc, s2) \<Rightarrow> (if r = Inr PLUGIN_OK then pkg # acc else acc, s2)))"

lemma sender_send_all:
  assumes "sender now c l lk0 acc s" "small_packages s" "sorted (now # map fst xs)"
    "\<forall>(_, _, pkg) \<in> set xs. getSize pkg < 2 ^ 32"
  shows "\<exists>now'. sender now' c l lk0 (acc @ fst (send_all c xs s)) (snd (send_all c xs s)) \<and>
     small_packages (snd (send_all c xs s)) \<and> mode (snd (send_all c xs s)) = mode s"
  using assms
proof (induction xs arbitrary: now acc s)
  case Nil
  then show ?case by auto
next
  case (Cons x xs)
  obtain t h pkg where x: "x = (t, h, pkg)" by (cases x)
  obtain r s1 where r: "sendPackage t h c pkg s = (r, s1)" by fastforce
  have sd: "sender t c l lk0 acc s"
    using sender_mono [OF Cons.prems(1)] Cons.prems(3) by (simp add: x)
  have sz: "getSize pkg < 2 ^ 32" using Cons.prems(4) by (simp add: x)
  note step = sender_sendPackage [OF sd r Cons.prems(2) sz]
  have so: "sorted (t # map fst xs)" using Cons.prems(3) by (simp add: x)
  have sm: "\<forall>(_, _, pkg) \<in> set xs. getSize pkg < 2 ^ 32" using Cons.prems(4) by simp
  obtain acc2 s2 where a2: "send_all c xs s1 = (acc2, s2)" by fastforce
  have m: "small_packages s1" "mode s1 = mode s" using step by simp_all
  show ?case
  proof (cases "r = Inr PLUGIN_OK")
    case True
    with step have "sender t c l lk0 (acc @ [pkg]) s1" by simp
    from Cons.IH [OF this m(1) so sm] True m show ?thesis by (simp add: x r a2)
  next
    case False
    with step have "sender t c l lk0 acc s1" using sd by simp
    from Cons.IH [OF this m(1) so sm] False m show ?thesis by (simp add: x r a2)
  qed
qed

subsection \<open>The stream of a placed queue\<close>

definition raw_of :: "cm \<Rightarrow> pkg_ref \<Rightarrow> bytes" where
  "raw_of s p = getRawData (pk_pkg (pkgs s p))"

lemma stream_tiles:
  assumes "tiles (frags s) off rs" "\<forall>r \<in> set rs. fr_package (frags s r) = p"
    "off + tiles_end (frags s) rs \<le> getSize (pk_pkg (pkgs s p))" "off < getSize (pk_pkg (pkgs s p))"
  shows "stream (raw_of s p # R) off (map (piece_of s) rs @ later) =
     (if off + tiles_end (frags s) rs = getSize (pk_pkg (pkgs s p)) then stream R 0 later
      else stream (raw_of s p # R) (off + tiles_end (frags s) rs) later) \<and>
     stream_rest (raw_of s p # R) off (map (piece_of s) rs @ later) =
     (if off + tiles_end (frags s) rs = getSize (pk_pkg (pkgs s p)) then stream_rest R 0 later
      else stream_rest (raw_of s p # R) (off + tiles_end (frags s) rs) later)"
  using assms
proof (induction rs arbitrary: off)
  case (Cons r rs)
  have p: "piece_of s r = (raw_of s p, off, fr_len (frags s r))" "0 < fr_len (frags s r)"
    using Cons.prems by (auto simp: piece_of_def raw_of_def pkg_of_def)
  have te: "tiles_end (frags s) (r # rs) = fr_len (frags s r) + tiles_end (frags s) rs"
    by (simp add: tiles_end_def)
  have le: "off + fr_len (frags s r) \<le> getSize (pk_pkg (pkgs s p))"
    using Cons.prems(3) by (simp add: te)
  show ?case
  proof (cases "off + fr_len (frags s r) = getSize (pk_pkg (pkgs s p))")
    case True
    have "rs = []"
    proof (rule ccontr)
      assume "rs \<noteq> []"
      then have "0 < tiles_end (frags s) rs"
        using Cons.prems(1) by (cases rs) (auto simp: tiles_end_def)
      with True Cons.prems(3) show False by (simp add: te)
    qed
    with True p show ?thesis by (simp add: raw_of_def te)
  next
    case False
    with le have lt: "off + fr_len (frags s r) < getSize (pk_pkg (pkgs s p))" by simp
    have "off + fr_len (frags s r) + tiles_end (frags s) rs \<le> getSize (pk_pkg (pkgs s p))"
      using Cons.prems(3) by (simp add: te add.assoc)
    from Cons.IH [OF _ _ this lt] Cons.prems(1,2) False le p show ?thesis
      by (simp add: raw_of_def te add.assoc)
  qed
qed simp

lemma stream_whole:
  assumes "\<forall>p \<in> set ps. pkg_wf s p \<and> whole s p"
  shows "stream (map (raw_of s) ps @ R) 0 (map (piece_of s) (queue_frags s ps) @ later) = stream R 0 later \<and>
     stream_rest (map (raw_of s) ps @ R) 0 (map (piece_of s) (queue_frags s ps) @ later) =
       stream_rest R 0 later"
  using assms
proof (induction ps)
  case (Cons p ps)
  let ?rs = "packageFragments (pkgs s p)"
  have wf: "tiles (frags s) 0 ?rs" "\<forall>r \<in> set ?rs. fr_package (frags s r) = p"
    "0 + tiles_end (frags s) ?rs = getSize (pk_pkg (pkgs s p))"
    using Cons.prems by (auto simp: pkg_wf_def whole_def)
  have "0 < getSize (pk_pkg (pkgs s p))" by simp
  from stream_tiles [OF wf(1,2) _ this, of "map (raw_of s) ps @ R"
      "map (piece_of s) (queue_frags s ps) @ later"] wf(3) Cons
  show ?case by (simp add: queue_frags_def)
qed (simp add: queue_frags_def)

lemma queue_frags_simps [simp]:
  "queue_frags s [] = []"
  "queue_frags s (p # ps) = packageFragments (pkgs s p) @ queue_frags s ps"
  "queue_frags s (ps @ qs) = queue_frags s ps @ queue_frags s qs"
  by (simp_all add: queue_frags_def)

text \<open>The packages that are wholly placed are those the stream finishes.\<close>

lemma placed_stream:
  assumes "placed now s l Q ps" "\<forall>p \<in> set ps. pkg_wf s p"
  shows "\<exists>off. stream (map (raw_of s) ps) 0 (map (piece_of s) (queue_frags s ps)) \<and>
     stream_rest (map (raw_of s) ps) 0 (map (piece_of s) (queue_frags s ps)) =
       (map (raw_of s) (dropWhile (whole s) ps), off)"
proof -
  obtain xs ys where q: "ps = xs @ ys" "\<forall>p \<in> set xs. whole s p"
    "ys \<noteq> [] \<longrightarrow> \<not> whole s (hd ys) \<and> (\<forall>a \<in> set Q. passed now s l a) \<and>
        (\<forall>p \<in> set (tl ys). packageFragments (pkgs s p) = [])"
    using assms(1) by (auto simp: placed_def)
  have sw: "stream (map (raw_of s) ps) 0 (map (piece_of s) (queue_frags s ps)) =
      stream (map (raw_of s) ys) 0 (map (piece_of s) (queue_frags s ys))"
    "stream_rest (map (raw_of s) ps) 0 (map (piece_of s) (queue_frags s ps)) =
      stream_rest (map (raw_of s) ys) 0 (map (piece_of s) (queue_frags s ys))"
    using stream_whole [of xs s "map (raw_of s) ys" "map (piece_of s) (queue_frags s ys)"]
      q(2) assms(2) by (simp_all add: q(1))
  show ?thesis
  proof (cases ys)
    case Nil
    with q sw show ?thesis by simp
  next
    case (Cons y zs)
    have dw: "dropWhile (whole s) ps = ys" using q Cons by (simp add: dropWhile_append3)
    have "queue_frags s zs = []" using q(3) Cons by (simp add: queue_frags_def)
    then have qf: "queue_frags s ys = packageFragments (pkgs s y) @ []" by (simp add: Cons)
    have wf: "pkg_wf s y" "\<not> whole s y" using assms(2) q Cons by auto
    then have t: "tiles (frags s) 0 (packageFragments (pkgs s y))"
      "\<forall>r \<in> set (packageFragments (pkgs s y)). fr_package (frags s r) = y"
      "0 + tiles_end (frags s) (packageFragments (pkgs s y)) \<le> getSize (pk_pkg (pkgs s y))"
      by (simp_all add: pkg_wf_def)
    have pos: "0 < getSize (pk_pkg (pkgs s y))" by simp
    from stream_tiles [OF t pos, of "map (raw_of s) zs" "[]"] wf(2) show ?thesis
      unfolding sw dw qf by (simp add: Cons whole_def)
  qed
qed

section \<open>Encoding the actions of a queue\<close>

text \<open>What encoding changes of what matters to the stream: nothing but the fragment count.\<close>

definition enc_same :: "cm \<Rightarrow> cm \<Rightarrow> bool" where
  "enc_same s' s \<longleftrightarrow> mode s' = mode s \<and> links s' = links s \<and>
     (\<forall>r. frag_core (frags s' r) = frag_core (frags s r)) \<and>
     (\<forall>p. pk_pkg (pkgs s' p) = pk_pkg (pkgs s p)) \<and>
     (\<forall>a. ai_fragments (acts s' a) = ai_fragments (acts s a) \<and>
        ai_linkId (acts s' a) = ai_linkId (acts s a))"

lemma enc_same_refl [simp]: "enc_same s s"
  by (simp add: enc_same_def)

lemma enc_same_trans: "enc_same a b \<Longrightarrow> enc_same b c \<Longrightarrow> enc_same a c"
  by (simp add: enc_same_def)

lemma enc_same_fold: "(\<And>x s. enc_same (f x s) s) \<Longrightarrow> enc_same (fold f xs s) s"
  by (induction xs arbitrary: s) (auto intro: enc_same_trans)

lemma enc_same_encode_step: "enc_same (encode_step a b i s) s"
proof -
  have f: "enc_same (fold (\<lambda>r s. upd_pkg (fr_package (frags s r))
      (\<lambda>p. p\<lparr>pk_pendingEncodeHandle := h\<rparr>) s) rs t) t" for h rs t
    by (rule enc_same_fold) (simp add: enc_same_def upd_pkg_def)
  let ?h = "nextEncodingHandle s + 1"
  let ?s1 = "upd_encoding a i (\<lambda>e. e\<lparr>pendingEncodeHandle := ?h, enc_state := E_ENCODING\<rparr>)
    (s\<lparr>nextEncodingHandle := ?h\<rparr>)"
  let ?s2 = "fold (\<lambda>r s. upd_pkg (fr_package (frags s r))
      (\<lambda>p. p\<lparr>pk_pendingEncodeHandle := ?h\<rparr>) s) (ai_fragments (acts ?s1 a)) ?s1"
  have 1: "enc_same ?s1 s" by (simp add: enc_same_def upd_encoding_def upd_act_def)
  have 2: "enc_same ?s2 s" by (rule enc_same_trans [OF f 1])
  have 3: "enc_same (call c (upd_encoding a i g (t\<lparr>pendingEncodings := pe\<rparr>))) t" for c g t pe
    by (simp add: enc_same_def call_def upd_encoding_def upd_act_def)
  show ?thesis using 2 enc_same_trans [OF 3 2]
    by (auto simp: encode_step_def Let_def split: option.split)
qed

lemma enc_same_encode_all: "enc_same (encode_all a b s) s"
  unfolding encode_all_def by (rule enc_same_fold) (rule enc_same_encode_step)

text \<open>The bytes \<open>encodeForAction\<close> hands to the encodings of the action.\<close>

definition sent_bytes :: "action_ref \<Rightarrow> cm \<Rightarrow> bytes" where
  "sent_bytes a s =
     (if ai_fragments (acts s a) = [] then []
      else case links s (ai_linkId (acts s a)) of None \<Rightarrow> []
           | Some lk \<Rightarrow> action_content s lk (ai_fragments (acts s a)))"

lemma encodeForAction_calls:
  "\<exists>xs. calls (snd (encodeForAction a s)) = calls s @ xs \<and>
     set xs \<subseteq> {EncoderEncodeBytes enc h ps (sent_bytes a s) |enc h ps. True}"
proof -
  have b: "calls (fold (set_fragment_state st) rs t) = calls t" for st rs t
    by (induction rs arbitrary: t) (auto simp: set_fragment_state_def upd_frag_def)
  have c: "calls (bump_fragmentCount l t) = calls t" for l t
    by (simp add: bump_fragmentCount_def upd_link_def)
  show ?thesis
  proof (cases "ai_fragments (acts s a) = []")
    case True
    then show ?thesis using encode_all_calls [of a "[]" s]
      by (simp add: encodeForAction_def Let_def sent_bytes_def)
  next
    case False
    show ?thesis
    proof (cases "links s (ai_linkId (acts s a))")
      case None
      with False show ?thesis by (auto simp: encodeForAction_def Let_def)
    next
      case (Some lk)
      from encode_all_calls [of a "action_content s lk (ai_fragments (acts s a))"
          "fold (set_fragment_state F_ENCODING) (ai_fragments (acts s a))
             (bump_fragmentCount (ai_linkId (acts s a)) s)"] False Some
      show ?thesis by (auto simp: encodeForAction_def Let_def sent_bytes_def b c)
    qed
  qed
qed

lemma encodeForAction_same:
  assumes "pm_ok s" "fragment_mode (mode s)" "links s l = Some lk"
    "ai_fragments (acts s a) \<noteq> [] \<Longrightarrow> ai_linkId (acts s a) = l"
  shows "fst (encodeForAction a s) = None"
    "enc_same (snd (encodeForAction a s))
       (if ai_fragments (acts s a) = [] then s
        else s\<lparr>links := (links s)(l := Some (lk\<lparr>fragmentCount := fragmentCount lk + 1\<rparr>))\<rparr>)"
proof -
  let ?rs = "ai_fragments (acts s a)"
  have l: "?rs \<noteq> [] \<Longrightarrow> l \<noteq> []" using act_capD(2) [OF assms(1)] assms(4) by auto
  have ns: "mode s \<noteq> SINGLE" using assms(2) by (auto simp: fragment_mode_def)
  have e: "enc_same (fold (set_fragment_state st) rs t) t" for st rs t
    by (rule enc_same_fold) (simp add: set_fragment_state_def enc_same_def upd_frag_def frag_core_def)
  have b: "bump_fragmentCount l s =
      s\<lparr>links := (links s)(l := Some (lk\<lparr>fragmentCount := fragmentCount lk + 1\<rparr>))\<rparr>"
    using assms(2,3) by (auto simp: bump_fragmentCount_def upd_link_def fragment_mode_def)
  show "fst (encodeForAction a s) = None"
  proof (cases "?rs = []")
    case False
    then show ?thesis using l assms(3) assms(4) [OF False] ns by (simp add: encodeForAction_def Let_def)
  qed (simp add: encodeForAction_def Let_def)
  show "enc_same (snd (encodeForAction a s)) (if ?rs = [] then s
        else s\<lparr>links := (links s)(l := Some (lk\<lparr>fragmentCount := fragmentCount lk + 1\<rparr>))\<rparr>)"
  proof (cases "?rs = []")
    case True
    then show ?thesis by (simp add: encodeForAction_def Let_def enc_same_encode_all)
  next
    case False
    then have "snd (encodeForAction a s) = encode_all a (action_content s lk ?rs)
        (fold (set_fragment_state F_ENCODING) ?rs (bump_fragmentCount l s))"
      using l assms(3) assms(4) [OF False] ns by (simp add: encodeForAction_def Let_def)
    with False enc_same_trans [OF enc_same_encode_all e] b show ?thesis by simp
  qed
qed

text \<open>
  Encoding the actions one after the other, each once. (\<open>encodeActions\<close> can pass an action to
  \<open>encodeForAction\<close> a second time, which numbers a content anew: see CM_Runs.)
\<close>

fun transmit :: "action_ref list \<Rightarrow> cm \<Rightarrow> bytes list \<times> cm" where
  "transmit [] s = ([], s)"
| "transmit (a # as) s =
     (case transmit as (snd (encodeForAction a s)) of (bs, s2) \<Rightarrow> (sent_bytes a s # bs, s2))"

definition action_contents :: "cm \<Rightarrow> link_id \<Rightarrow> action_ref list \<Rightarrow> piece list list" where
  "action_contents s l as = map (map (piece_of s)) (filter (\<lambda>rs. rs \<noteq> []) (map (ours s l) as))"

lemma enc_same_stream:
  assumes "enc_same s' (s\<lparr>links := lm\<rparr>)"
  shows "piece_of s' = piece_of s" "ours s' l = ours s l" "small_packages s' = small_packages s"
    "mode s' = mode s" "links s' = lm" "\<And>a. ai_fragments (acts s' a) = ai_fragments (acts s a)"
    "\<And>a. ai_linkId (acts s' a) = ai_linkId (acts s a)"
proof -
  have core: "fr_package (frags s' r) = fr_package (frags s r)"
    "fr_offset (frags s' r) = fr_offset (frags s r)" "fr_len (frags s' r) = fr_len (frags s r)" for r
    using assms by (auto simp: enc_same_def frag_core_def)
  show "piece_of s' = piece_of s"
    using assms by (intro ext) (simp add: piece_of_def pkg_of_def core enc_same_def)
  show "ours s' l = ours s l" "small_packages s' = small_packages s" "mode s' = mode s"
    "links s' = lm" "\<And>a. ai_fragments (acts s' a) = ai_fragments (acts s a)"
    "\<And>a. ai_linkId (acts s' a) = ai_linkId (acts s a)"
    using assms by (auto simp: enc_same_def ours_def small_packages_def fun_eq_iff)
qed

lemma transmit_contents:
  assumes "pm_ok s" "small_packages s" "fragment_mode (mode s)" "links s l = Some lk"
    "\<forall>a \<in> set as. ai_fragments (acts s a) \<noteq> [] \<longrightarrow> ai_linkId (acts s a) = l"
  shows "filter (\<lambda>b. b \<noteq> []) (fst (transmit as s)) =
     map (\<lambda>(i, c). producer_prefix s lk @ content i c)
       (numbered (fragmentCount lk) (action_contents s l as))"
  using assms
proof (induction as arbitrary: s lk)
  case (Cons a as)
  let ?rs = "ai_fragments (acts s a)" and ?s1 = "snd (encodeForAction a s)"
  have al: "?rs \<noteq> [] \<Longrightarrow> ai_linkId (acts s a) = l" using Cons.prems(5) by simp
  note same = encodeForAction_same(2) [OF Cons.prems(1,3,4) al]
  have ok1: "pm_ok ?s1" using pm_ok_le [OF pm_le_encodeForAction Cons.prems(1)] .
  define lk1 where "lk1 = (if ?rs = [] then lk else lk\<lparr>fragmentCount := fragmentCount lk + 1\<rparr>)"
  have es: "enc_same ?s1 (s\<lparr>links := (links s)(l := Some lk1)\<rparr>)"
  proof (cases "?rs = []")
    case True
    have "s\<lparr>links := (links s)(l := Some lk1)\<rparr> = s"
      using True Cons.prems(4) by (simp add: lk1_def fun_upd_idem)
    with same True show ?thesis by simp
  next
    case False
    with same show ?thesis by (simp add: lk1_def)
  qed
  note st = enc_same_stream [OF es]
  have pp: "producer_prefix ?s1 lk1 = producer_prefix s lk"
    by (simp add: producer_prefix_def st lk1_def)
  have ac: "action_contents ?s1 l as = action_contents s l as"
    by (simp add: action_contents_def st)
  have IH: "filter (\<lambda>b. b \<noteq> []) (fst (transmit as ?s1)) =
     map (\<lambda>(i, c). producer_prefix s lk @ content i c)
       (numbered (fragmentCount lk1) (action_contents s l as))"
    using Cons.IH [OF ok1, of lk1] Cons.prems st unfolding pp ac by simp
  obtain bs s2 where t: "transmit as ?s1 = (bs, s2)" by fastforce
  show ?case
  proof (cases "?rs = []")
    case True
    with IH t show ?thesis
      by (simp add: sent_bytes_def action_contents_def ours_def lk1_def split: prod.split)
  next
    case False
    have sb: "sent_bytes a s = producer_prefix s lk @
        content (fragmentCount lk) (map (piece_of s) ?rs)"
      using False al Cons.prems(4) action_content_eq [OF Cons.prems(1,2) False Cons.prems(3)]
      by (simp add: sent_bytes_def)
    have ne: "content i c \<noteq> []" for i c by (simp add: content_def)
    show ?thesis using IH t False al sb ne
      by (simp add: action_contents_def ours_def lk1_def split: prod.split)
  qed
qed (simp add: action_contents_def)

section \<open>The receiving end\<close>

text \<open>
  Each content arrives through the transport (\<open>onReceive\<close>), is decoded by the encoding, which
  gives back the bytes that were encoded, and comes back (\<open>onBytesDecoded\<close>).
\<close>

fun receive_contents ::
    "link_id \<Rightarrow> encoding_parameters \<Rightarrow> bytes list \<Rightarrow> cm \<Rightarrow> cm_internal_status list \<times> cm" where
  "receive_contents l params [] r = ([], r)"
| "receive_contents l params (b # bs) r =
     (case onReceive l params b r of (st1, r1) \<Rightarrow>
        (case onBytesDecoded (nextDecodingHandle r1) b ENCODE_OK r1 of (st2, r2) \<Rightarrow>
           (case receive_contents l params bs r2 of (sts, r3) \<Rightarrow> (st1 # st2 # sts, r3))))"

definition delivered :: "cm_call list \<Rightarrow> enc_pkg list" where
  "delivered cs = List.map_filter (\<lambda>c. case c of SdkReceiveEncPkg p _ \<Rightarrow> Some p | _ \<Rightarrow> None) cs"

lemma delivered_append [simp]:
  "delivered (xs @ ys) = delivered xs @ delivered ys"
  by (induction xs) (auto simp: delivered_def map_filter_simps split: option.split)

lemma delivered_receive [simp]: "delivered (map (\<lambda>p. SdkReceiveEncPkg p c) ps) = ps"
  by (induction ps) (auto simp: delivered_def map_filter_simps)

lemma delivered_decode [simp]: "delivered [EncoderDecodeBytes e h ps b] = []"
  by (simp add: delivered_def map_filter_simps)

definition receiver ::
    "link_id \<Rightarrow> bytes \<Rightarrow> encoding_mode \<Rightarrow> encoding_parameters \<Rightarrow> producer_queue option \<Rightarrow> cm \<Rightarrow> bool" where
  "receiver l pre m params q r \<longleftrightarrow> mode r = m \<and>
     encodingComponentFromEncodingParams r params \<noteq> None \<and>
     (\<exists>lk. links r l = Some lk \<and> producerQueues lk pre = q)"

definition prefix_fits :: "encoding_mode \<Rightarrow> bytes \<Rightarrow> bool" where
  "prefix_fits m pre \<longleftrightarrow> m = FRAGMENT_SINGLE_PRODUCER \<and> pre = [] \<or>
     m = FRAGMENT_MULTIPLE_PRODUCER \<and> length pre = 16"

lemma receive_fragment_eq:
  "content_ok c \<Longrightarrow> receive_fragment q (pre @ content i c) (length pre) =
     (None, fst (recv_content pre q i c), snd (recv_content pre q i c))"
  by (simp add: recv_content_def receive_fragment_content Let_def split: prod.split)

lemma receiver_onReceive:
  assumes "receiver l pre m params q r"
  shows "\<exists>enc. onReceive l params b r = (OK, call (EncoderDecodeBytes enc (nextDecodingHandle r + 1) params b)
     (r\<lparr>nextDecodingHandle := nextDecodingHandle r + 1,
        pendingDecodings := (pendingDecodings r)(nextDecodingHandle r + 1 := Some l)\<rparr>))"
  using assms by (auto simp: receiver_def onReceive_def Let_def)

lemma receiver_frame:
  "receiver l pre m params q (call c r) = receiver l pre m params q r"
  "receiver l pre m params q (r\<lparr>pendingDecodings := pd\<rparr>) = receiver l pre m params q r"
  "receiver l pre m params q (r\<lparr>nextDecodingHandle := h, pendingDecodings := pd\<rparr>) =
     receiver l pre m params q r"
  "receiver l pre m params q (r\<lparr>nextDecodingHandle := h\<rparr>) = receiver l pre m params q r"
  "receiver l pre m params q (deliver cv out r) = receiver l pre m params q r"
  by (auto simp: receiver_def call_def deliver_def encodingComponentFromEncodingParams_def)

lemma receiver_onBytesDecoded:
  assumes rc: "receiver l pre m params q r" and pd: "pendingDecodings r h = Some l"
    and fits: "prefix_fits m pre" and c: "content_ok c"
  shows "fst (onBytesDecoded h (pre @ content i c) st r) = OK \<and>
     receiver l pre m params (fst (recv_content pre q i c))
       (snd (onBytesDecoded h (pre @ content i c) st r)) \<and>
     delivered (calls (snd (onBytesDecoded h (pre @ content i c) st r))) =
       delivered (calls r) @ snd (recv_content pre q i c)"
proof -
  obtain lk where lk: "links r l = Some lk" "producerQueues lk pre = q" "mode r = m"
    "encodingComponentFromEncodingParams r params \<noteq> None"
    using rc by (auto simp: receiver_def)
  let ?r1 = "r\<lparr>pendingDecodings := (pendingDecodings r)(h := None)\<rparr>"
  let ?b = "pre @ content i c"
  have ne: "?b \<noteq> []" by (simp add: content_def)
  have rd: "m = FRAGMENT_MULTIPLE_PRODUCER \<Longrightarrow> readFromBuffer 16 ?b 0 = Inr (pre, length pre)"
    using fits readFromBuffer_append [of 16 pre "[]" "content i c"] by (simp add: prefix_fits_def)
  have q': "receiveFragmentProducer pre (length pre) l ?b cv ?r1 =
      (Inr OK, deliver cv (snd (recv_content pre q i c))
        (upd_link l (\<lambda>lk. lk\<lparr>producerQueues := (producerQueues lk)(pre := fst (recv_content pre q i c))\<rparr>) ?r1))"
    for cv using lk by (simp add: receiveFragmentProducer_def receive_fragment_eq [OF c] split: prod.split)
  have eq: "onBytesDecoded h ?b st r = (OK, deliver (connections lk) (snd (recv_content pre q i c))
        (upd_link l (\<lambda>lk. lk\<lparr>producerQueues := (producerQueues lk)(pre := fst (recv_content pre q i c))\<rparr>) ?r1))"
    using fits ne pd lk rd q'
    by (auto simp: onBytesDecoded_def prefix_fits_def receiveFragmentSingleProducer_def
        receiveFragmentMultipleProducer_def Let_def)
  have "receiver l pre m params (fst (recv_content pre q i c))
     (upd_link l (\<lambda>lk. lk\<lparr>producerQueues := (producerQueues lk)(pre := fst (recv_content pre q i c))\<rparr>) ?r1)"
    using lk by (auto simp: receiver_def upd_link_def encodingComponentFromEncodingParams_def)
  then show ?thesis by (simp add: eq receiver_frame) (simp add: deliver_def upd_link_def)
qed

lemma onBytesDecoded_empty: "onBytesDecoded h [] st r = (OK, r)"
  by (simp add: onBytesDecoded_def)

lemma receive_contents_seq:
  assumes "receiver l pre m params q r" "prefix_fits m pre" "\<forall>(i, c) \<in> set xs. content_ok c"
    "filter (\<lambda>b. b \<noteq> []) bs = map (\<lambda>(i, c). pre @ content i c) xs"
  shows "set (fst (receive_contents l params bs r)) \<subseteq> {OK} \<and>
     delivered (calls (snd (receive_contents l params bs r))) =
       delivered (calls r) @ snd (fragment_receiver.receive_seq pre q xs)"
  using assms
proof (induction bs arbitrary: xs q r)
  case Nil
  then show ?case by simp
next
  case (Cons b bs)
  obtain r1 where r1: "onReceive l params b r = (OK, r1)" "receiver l pre m params q r1"
    "pendingDecodings r1 (nextDecodingHandle r1) = Some l" "delivered (calls r1) = delivered (calls r)"
    using receiver_onReceive [OF Cons.prems(1), of b] Cons.prems(1)
    by (auto simp: receiver_frame) (auto simp: call_def)
  show ?case
  proof (cases "b = []")
    case True
    obtain sts r3 where t: "receive_contents l params bs r1 = (sts, r3)" by fastforce
    from Cons.IH [OF r1(2) Cons.prems(2,3)] Cons.prems(4) True t r1 show ?thesis
      by (simp add: onBytesDecoded_empty)
  next
    case False
    with Cons.prems(4) obtain i c ys where xs: "xs = (i, c) # ys" "b = pre @ content i c"
      "filter (\<lambda>b. b \<noteq> []) bs = map (\<lambda>(i, c). pre @ content i c) ys"
      by (cases xs) auto
    have c: "content_ok c" "\<forall>(i, c) \<in> set ys. content_ok c" using Cons.prems(3) xs(1) by auto
    obtain st2 r2 where d: "onBytesDecoded (nextDecodingHandle r1) b ENCODE_OK r1 = (st2, r2)"
      by fastforce
    obtain q1 out where q1: "recv_content pre q i c = (q1, out)" by fastforce
    from receiver_onBytesDecoded [OF r1(2,3) Cons.prems(2) c(1), of i ENCODE_OK] d xs(2) q1
    have s2: "st2 = OK" "receiver l pre m params q1 r2"
      "delivered (calls r2) = delivered (calls r1) @ out" by simp_all
    obtain sts r3 where t: "receive_contents l params bs r2 = (sts, r3)" by fastforce
    from Cons.IH [OF s2(2) Cons.prems(2) c(2) xs(3)] t r1 d s2 q1 xs(1) show ?thesis
      by (simp split: prod.split)
  qed
qed

section \<open>End to end\<close>

text \<open>A link whose coming actions are empty, as the end of a channel that starts to send.\<close>

definition fresh_link :: "cm \<Rightarrow> conn_id \<Rightarrow> link_id \<Rightarrow> link \<Rightarrow> bool" where
  "fresh_link s c l lk \<longleftrightarrow> pm_ok s \<and> small_packages s \<and> fragment_mode (mode s) \<and>
     conns s c = Some l \<and> links s l = Some lk \<and> packageQueue lk = [] \<and>
     distinct (actionQueue lk) \<and> (\<forall>a \<in> set (actionQueue lk). ai_fragments (acts s a) = []) \<and>
     (mode s = FRAGMENT_MULTIPLE_PRODUCER \<longrightarrow> length (producerId lk) = 16)"

lemma fresh_sender:
  assumes "fresh_link s c l lk"
  shows "sender now c l lk [] s"
proof -
  have e: "\<forall>a \<in> set (actionQueue lk). ours s l a = []"
    using assms by (auto simp: fresh_link_def ours_def)
  have "sending now l (actionQueue lk) [] s"
    using assms ordered_empty [OF e] link_frags_empty [OF e]
    by (auto simp: fresh_link_def sending_def placed_def)
  then show ?thesis using assms by (auto simp: sender_def fresh_link_def)
qed

lemma concat_action_contents:
  "concat (action_contents s l as) = map (piece_of s) (link_frags s l as)"
  by (induction as) (auto simp: action_contents_def link_frags_def)

text \<open>The state after sending, and the stream its actions carry.\<close>

lemma sent_stream:
  assumes f: "fresh_link s c l lk" and so: "sorted (map fst xs)"
    and sz: "\<forall>(_, _, pkg) \<in> set xs. getSize pkg < 2 ^ 32"
    and sa: "send_all c xs s = (accepted, s1)" and tr: "transmit (actionQueue lk) s1 = (bs, s2)"
  shows "\<exists>lk1 off. links s1 l = Some lk1 \<and> map (\<lambda>p. pk_pkg (pkgs s1 p)) (packageQueue lk1) = accepted \<and>
     fragmentCount lk1 = fragmentCount lk \<and> mode s1 = mode s \<and>
     filter (\<lambda>b. b \<noteq> []) bs = map (\<lambda>(i, x). producer_prefix s lk @ content i x)
       (numbered (fragmentCount lk) (action_contents s1 l (actionQueue lk))) \<and>
     (\<forall>x \<in> set (action_contents s1 l (actionQueue lk)). content_ok x) \<and>
     stream (map getRawData accepted) 0 (concat (action_contents s1 l (actionQueue lk))) \<and>
     stream_rest (map getRawData accepted) 0 (concat (action_contents s1 l (actionQueue lk))) =
       (map (raw_of s1) (dropWhile (whole s1) (packageQueue lk1)), off)"
proof -
  let ?t0 = "case xs of [] \<Rightarrow> 0 | x # _ \<Rightarrow> fst x"
  have so': "sorted (?t0 # map fst xs)" using so by (cases xs) auto
  have sm: "small_packages s" using f by (simp add: fresh_link_def)
  from sender_send_all [OF fresh_sender [OF f] sm so' sz] sa
  obtain now' where n: "sender now' c l lk accepted s1" "small_packages s1" "mode s1 = mode s" by auto
  then obtain lk1 where lk1: "links s1 l = Some lk1" "lk1 = lk\<lparr>packageQueue := packageQueue lk1\<rparr>"
    "sending now' l (actionQueue lk) (packageQueue lk1) s1"
    "map (\<lambda>p. pk_pkg (pkgs s1 p)) (packageQueue lk1) = accepted"
    by (auto simp: sender_def)
  have fc: "fragmentCount lk1 = fragmentCount lk" "producerId lk1 = producerId lk"
    by (subst lk1(2), simp)+
  have sd: "pm_ok s1" "fragment_mode (mode s1)"
    "link_frags s1 l (actionQueue lk) = queue_frags s1 (packageQueue lk1)"
    "placed now' s1 l (actionQueue lk) (packageQueue lk1)"
    "\<forall>a \<in> set (actionQueue lk). ai_fragments (acts s1 a) \<noteq> [] \<longrightarrow> ai_linkId (acts s1 a) = l"
    "\<forall>p \<in> set (packageQueue lk1). p < next_pkg s1"
    using lk1(3) by (simp_all add: sending_def)
  have pp: "producer_prefix s1 lk1 = producer_prefix s lk"
    by (simp add: producer_prefix_def n(3) fc)
  have "content_ok x" if "x \<in> set (action_contents s1 l (actionQueue lk))" for x
    using that content_ok_action [OF sd(1) n(2)]
    by (auto simp: action_contents_def ours_def split: if_splits)
  moreover have "\<forall>p \<in> set (packageQueue lk1). pkg_wf s1 p" using sd(1,6) by (simp add: pm_ok_def)
  moreover have "map getRawData accepted = map (raw_of s1) (packageQueue lk1)"
    by (simp add: lk1(4) [symmetric] raw_of_def)
  ultimately show ?thesis
    using lk1(1,4) fc n(3) placed_stream [OF sd(4)]
      transmit_contents [OF sd(1) n(2) sd(2) lk1(1) sd(5)] tr pp
    by (auto simp: concat_action_contents sd(3))
qed

lemma fresh_prefix_fits: "fresh_link s c l lk \<Longrightarrow> prefix_fits (mode s) (producer_prefix s lk)"
  by (auto simp: fresh_link_def prefix_fits_def producer_prefix_def fragment_mode_def)

lemma length_numbered [simp]: "length (numbered i cs) = length cs"
  by (induction cs arbitrary: i) auto

lemma nth_numbered: "j < length cs \<Longrightarrow> numbered i cs ! j = (i + word_of_nat j, cs ! j)"
  by (induction cs arbitrary: i j) (auto simp: nth_Cons add.assoc split: nat.split)

lemma snd_numbered: "(i', c) \<in> set (numbered i cs) \<Longrightarrow> c \<in> set cs"
  by (induction cs arbitrary: i) auto

lemma deliver_in_order:
  assumes "receiver l pre m params None r" "prefix_fits m pre" "\<forall>x \<in> set cs. content_ok x"
    "filter (\<lambda>b. b \<noteq> []) bs = map (\<lambda>(i, x). pre @ content i x) (numbered i cs)"
    "stream ps 0 (concat cs)" "stream_rest ps 0 (concat cs) = (ps', off)" "ps = done @ ps'"
  shows "set (fst (receive_contents l params bs r)) \<subseteq> {OK} \<and>
     delivered (calls (snd (receive_contents l params bs r))) =
       delivered (calls r) @ map enc_pkg_of_raw done"
proof -
  have "\<forall>(i, x) \<in> set (numbered i cs). content_ok x" using assms(3) snd_numbered by fastforce
  note seq = receive_contents_seq [OF assms(1,2) this assms(4)]
  have pend: "pending_for None i = exact ps 0" by (simp add: pending_for_def queue_pending_def exact_def)
  have pos: "position_ok ps 0" by (simp add: position_ok_def)
  obtain dn where dn: "ps = dn @ ps'"
    "snd (fragment_receiver.receive_seq pre None (numbered i cs)) = map enc_pkg_of_raw dn"
    using fragment_receiver.in_order [OF assms(5) pos assms(3,6) pend, where pre = pre] by metis
  have "dn = done" using dn(1) assms(7) by simp
  with dn(2) seq show ?thesis by simp
qed

lemma select_contents:
  assumes "\<forall>b \<in> set bs'. b \<in> set bs"
    "filter (\<lambda>b. b \<noteq> []) bs = map (\<lambda>(i, x). pre @ content i x) (numbered i cs)"
  shows "\<exists>js. (\<forall>j \<in> set js. j < length cs) \<and>
     filter (\<lambda>b. b \<noteq> []) bs' =
       map (\<lambda>(i, x). pre @ content i x) (map (\<lambda>j. (i + word_of_nat j, cs ! j)) js)"
  using assms(1)
proof (induction bs')
  case Nil
  then show ?case by (intro exI [of _ "[]"]) simp
next
  case (Cons b bs')
  from Cons obtain js where js: "\<forall>j \<in> set js. j < length cs" "filter (\<lambda>b. b \<noteq> []) bs' =
       map (\<lambda>(i, x). pre @ content i x) (map (\<lambda>j. (i + word_of_nat j, cs ! j)) js)" by auto
  show ?case
  proof (cases "b = []")
    case True
    with js show ?thesis by auto
  next
    case False
    with Cons.prems have "b \<in> set (filter (\<lambda>b. b \<noteq> []) bs)" by simp
    then obtain x where x: "x \<in> set (numbered i cs)" "b = (\<lambda>(i, x). pre @ content i x) x"
      unfolding assms(2) set_map by (elim imageE) (rule that)
    then obtain j where "j < length cs" "x = numbered i cs ! j"
      by (auto simp: in_set_conv_nth)
    with js False x(2) show ?thesis by (intro exI [of _ "j # js"]) (simp add: nth_numbered)
  qed
qed

lemma deliver_any_order:
  assumes "receiver l pre m params None r" "prefix_fits m pre" "\<forall>x \<in> set cs. content_ok x"
    "filter (\<lambda>b. b \<noteq> []) bs = map (\<lambda>(i, x). pre @ content i x) (numbered i cs)"
    "stream ps 0 (concat cs)" "length cs < 2 ^ 32" "\<forall>b \<in> set bs'. b \<in> set bs"
  shows "set (fst (receive_contents l params bs' r)) \<subseteq> {OK} \<and>
     (\<exists>ds. delivered (calls (snd (receive_contents l params bs' r))) = delivered (calls r) @ ds \<and>
        set ds \<subseteq> set (map enc_pkg_of_raw ps))"
proof -
  obtain js where js: "\<forall>j \<in> set js. j < length cs" "filter (\<lambda>b. b \<noteq> []) bs' =
       map (\<lambda>(i, x). pre @ content i x) (map (\<lambda>j. (i + word_of_nat j, cs ! j)) js)"
    using select_contents [OF assms(7,4)] by blast
  have "\<forall>(i, x) \<in> set (map (\<lambda>j. (i + word_of_nat j, cs ! j)) js). content_ok x"
    using js(1) assms(3) by auto
  note seq = receive_contents_seq [OF assms(1,2) this js(2)]
  have "fragment_receiver.holds ps cs i None"
    by (simp add: fragment_receiver.holds_def pending_for_def queue_pending_def)
  from fragment_receiver.any_order [OF assms(5,3,6) this js(1)] seq show ?thesis by blast
qed



end
