(* ===== verification/CM_Action.thy ===== *)
theory CM_Action
  imports CM_Package
begin

text \<open>
  The timeline of actions: racesdk/core/source/decomposed-comms/ComponentActionManager.cpp. The
  user model says when the channel acts; the action manager keeps the coming actions in order,
  shares them out to the links, has their content encoded in time and performs them.

  An exception that leaves \<open>insertActions\<close> or \<open>updateGlobalTimeline\<close> half way leaves null pointers in
  \<open>actions\<close> for the entries already moved; the handler of the exception tears the manager down, so
  the model drops these entries.
\<close>

section \<open>Creating actions\<close>

text \<open>
  The loop of \<open>createActionInfo\<close> over the encoding parameters. A type without encoding is a call
  through a null pointer.
\<close>

fun action_params_loop ::
    "env \<Rightarrow> cm \<Rightarrow> encoding_parameters list \<Rightarrow> action_info \<Rightarrow> exn + action_info" where
  "action_params_loop E s [] info = Inr info"
| "action_params_loop E s (param # params) info =
     (if encodePackage param \<and> param_linkId param \<noteq> [] \<and> ai_linkId info \<noteq> [] \<and>
         ai_linkId info \<noteq> param_linkId param then Inl RuntimeError
      else
        let info1 =
              (if encodePackage param then
                 info\<lparr>ai_linkId := (if param_linkId param \<noteq> [] \<and> ai_linkId info = []
                                    then param_linkId param else ai_linkId info),
                      wildcardLink := (wildcardLink info \<or> param_linkId param = ''*'')\<rparr>
               else info)
        in case encodingComponentFromEncodingParams s param of
             None \<Rightarrow> Inl Undefined
           | Some enc \<Rightarrow>
               action_params_loop E s params (info1\<lparr>encoding := encoding info1 @
                 [\<lparr>enc_params = param, enc_maxBytes = env_maxBytes E enc param,
                   pendingEncodeHandle = 0, enc_state = E_UNENCODED\<rparr>]\<rparr>))"

definition createActionInfo :: "env \<Rightarrow> action \<Rightarrow> cm \<Rightarrow> (exn + action_ref) \<times> cm" where
  "createActionInfo E a s =
     (case action_params_loop E s (env_getActionParams E a)
             \<lparr>ai_action = a, wildcardLink = False, ai_linkId = [], encoding = [],
              ai_fragments = [], toBeRemoved = False\<rparr> of
        Inl e \<Rightarrow> (Inl e, s)
      | Inr info \<Rightarrow>
          let r = next_act s;
              info1 = (if wildcardLink info then info\<lparr>ai_linkId := []\<rparr> else info)
          in (Inr r, s\<lparr>next_act := Suc r, acts := (acts s)(r := info1)\<rparr>))"

section \<open>Merging timelines\<close>

text \<open>
  The loop \<open>insertActions\<close> and \<open>updateGlobalTimeline\<close> share: \<open>mark\<close> tells whether an old action that
  is not in the new timeline is marked for removal (it is in \<open>updateGlobalTimeline\<close>).
\<close>

definition keep_action :: "bool \<Rightarrow> action_ref \<Rightarrow> cm \<Rightarrow> cm" where
  "keep_action mark r s = (if mark then upd_act r (\<lambda>ai. ai\<lparr>toBeRemoved := True\<rparr>) s else s)"

fun merge_actions ::
    "env \<Rightarrow> bool \<Rightarrow> action_ref list \<Rightarrow> action list \<Rightarrow> cm \<Rightarrow> (exn + action_ref list) \<times> cm" where
  "merge_actions E mark [] [] s = (Inr [], s)"
| "merge_actions E mark [] (n # ns) s =
     (case createActionInfo E n s of
        (Inl e, s1) \<Rightarrow> (Inl e, s1)
      | (Inr r, s1) \<Rightarrow> (case merge_actions E mark [] ns s1 of
            (Inl e, s2) \<Rightarrow> (Inl e, s2) | (Inr rs, s2) \<Rightarrow> (Inr (r # rs), s2)))"
| "merge_actions E mark (x # xs) [] s =
     (case merge_actions E mark xs [] (keep_action mark x s) of
        (Inl e, s2) \<Rightarrow> (Inl e, s2) | (Inr rs, s2) \<Rightarrow> (Inr (x # rs), s2))"
| "merge_actions E mark (x # xs) (n # ns) s =
     (if action_lt n (ai_action (acts s x)) then
        (case createActionInfo E n s of
           (Inl e, s1) \<Rightarrow> (Inl e, s1)
         | (Inr r, s1) \<Rightarrow> (case merge_actions E mark (x # xs) ns s1 of
               (Inl e, s2) \<Rightarrow> (Inl e, s2) | (Inr rs, s2) \<Rightarrow> (Inr (r # rs), s2)))
      else if action_lt (ai_action (acts s x)) n then
        (case merge_actions E mark xs (n # ns) (keep_action mark x s) of
           (Inl e, s2) \<Rightarrow> (Inl e, s2) | (Inr rs, s2) \<Rightarrow> (Inr (x # rs), s2))
      else
        (case merge_actions E mark xs ns s of
           (Inl e, s2) \<Rightarrow> (Inl e, s2) | (Inr rs, s2) \<Rightarrow> (Inr (x # rs), s2)))"

definition insertActions :: "env \<Rightarrow> action list \<Rightarrow> cm \<Rightarrow> exn option \<times> cm" where
  "insertActions E usermodelActions s =
     (case merge_actions E False (actions s) usermodelActions s of
        (Inl e, s1) \<Rightarrow> (Some e, s1\<lparr>actions := []\<rparr>)
      | (Inr rs, s1) \<Rightarrow> (None, s1\<lparr>actions := rs\<rparr>))"

definition updateGlobalTimeline :: "env \<Rightarrow> action list \<Rightarrow> real \<Rightarrow> cm \<Rightarrow> exn option \<times> cm" where
  "updateGlobalTimeline E usermodelActions start s =
     (let before = takeWhile (\<lambda>r. timestamp (ai_action (acts s r)) < start) (actions s);
          olds = dropWhile (\<lambda>r. timestamp (ai_action (acts s r)) < start) (actions s)
      in case merge_actions E True olds usermodelActions s of
           (Inl e, s1) \<Rightarrow> (Some e, s1\<lparr>actions := []\<rparr>)
         | (Inr rs, s1) \<Rightarrow> (None, s1\<lparr>actions := before @ rs\<rparr>))"

section \<open>The queues of the links\<close>

definition on_link :: "cm \<Rightarrow> link_id \<Rightarrow> action_ref \<Rightarrow> bool" where
  "on_link s l r \<longleftrightarrow> wildcardLink (acts s r) \<or>
     (ai_linkId (acts s r) \<noteq> [] \<and> ai_linkId (acts s r) = l)"

definition set_link_queues :: "cm \<Rightarrow> cm" where
  "set_link_queues s = s\<lparr>links := (\<lambda>l. if l \<in> set (getLinks s)
     then map_option (\<lambda>lk. lk\<lparr>actionQueue := filter (on_link s l) (actions s)\<rparr>) (links s l)
     else links s l)\<rparr>"

definition updateLinkTimelines :: "cm \<Rightarrow> cm" where
  "updateLinkTimelines s = updatedActions (set_link_queues s)"

definition removeDeletedActions :: "cm \<Rightarrow> cm" where
  "removeDeletedActions s =
     updateLinkTimelines (s\<lparr>actions := filter (\<lambda>r. \<not> toBeRemoved (acts s r)) (actions s)\<rparr>)"

section \<open>The next times\<close>

definition updateActionTimestamp :: "cm \<Rightarrow> cm" where
  "updateActionTimestamp s = s\<lparr>nextActionTime := (case actions s of [] \<Rightarrow> Infinity
     | r # _ \<Rightarrow> At (timestamp (ai_action (acts s r))))\<rparr>"

text \<open>\<open>encode_time_of\<close> is \<open>infinity\<close>, or the time stamp of the first action left less the encoding time.\<close>

definition encode_time_of :: "cm \<Rightarrow> action_ref list \<Rightarrow> timestamp" where
  "encode_time_of s rs = (case rs of [] \<Rightarrow> Infinity
     | r # _ \<Rightarrow> At (timestamp (ai_action (acts s r)) - maxEncodingTime s))"

definition updateEncodeTimestamp :: "cm \<Rightarrow> cm" where
  "updateEncodeTimestamp s = s\<lparr>nextEncodeTime := encode_time_of s
     (dropWhile (\<lambda>r. timestamp (ai_action (acts s r)) \<le> lastEncodeTime s) (actions s))\<rparr>"

section \<open>Fetching the timeline\<close>

definition updateTimeline :: "env \<Rightarrow> action list \<Rightarrow> real \<Rightarrow> cm \<Rightarrow> exn option \<times> cm" where
  "updateTimeline E usermodelActions start s =
     (case updateGlobalTimeline E usermodelActions start s of
        (Some e, s1) \<Rightarrow> (Some e, s1)
      | (None, s1) \<Rightarrow>
          (None, updateEncodeTimestamp (updateActionTimestamp
             (removeDeletedActions (updateLinkTimelines s1)))))"

definition fetchTimeline :: "env \<Rightarrow> cm \<Rightarrow> exn option \<times> cm" where
  "fetchTimeline E s0 =
     (let (now, s) = currentTime s0;
          start = now + maxEncodingTime s;
          end_time = start + timelineLength s;
          usermodelActions = env_getTimeline E start end_time
      in updateTimeline E usermodelActions start
           (s\<lparr>nextFetchTime := At (start + timelineFetchPeriod s)\<rparr>))"

definition onTimelineUpdated :: "env \<Rightarrow> cm \<Rightarrow> (exn + cm_internal_status) \<times> cm" where
  "onTimelineUpdated E s = (case fetchTimeline E s of
     (Some e, s1) \<Rightarrow> (Inl e, s1) | (None, s1) \<Rightarrow> (Inr OK, s1))"

definition action_onSendPackage ::
    "env \<Rightarrow> real \<Rightarrow> conn_id \<Rightarrow> enc_pkg \<Rightarrow> cm \<Rightarrow> (exn + cm_internal_status) \<times> cm" where
  "action_onSendPackage E now connId pkg s =
     (case getConnection s connId of
        Inl e \<Rightarrow> (Inl e, s)
      | Inr l \<Rightarrow>
          let usermodelActions = map (\<lambda>a. if timestamp a < now + maxEncodingTime s
                then a\<lparr>timestamp := now + maxEncodingTime s\<rparr> else a)
                (env_onSendPackage E l (getSize pkg))
          in if usermodelActions = [] then (Inr OK, s)
             else case insertActions E usermodelActions s of
               (Some e, s1) \<Rightarrow> (Inl e, s1)
             | (None, s1) \<Rightarrow> (Inr OK,
                 updateEncodeTimestamp (updateActionTimestamp (updateLinkTimelines s1))))"

text \<open>
  What \<open>onLinkStatusChanged\<close> does when a link is destroyed. The set of actions to remove is built
  from the range \<open>begin .. begin\<close>, which is empty.
\<close>

definition action_onLinkStatusChanged ::
    "link_id \<Rightarrow> link_status \<Rightarrow> cm \<Rightarrow> cm_internal_status \<times> cm" where
  "action_onLinkStatusChanged l status s =
     (if status = LINK_DESTROYED then
        (case getLink s l of
           Inl e \<Rightarrow> (OK, s)
         | Inr lk \<Rightarrow>
             let gone = take 0 (actionQueue lk);
                 s1 = s\<lparr>actions := filter (\<lambda>r. r \<notin> set gone) (actions s)\<rparr>
             in (OK, upd_link l (\<lambda>lk. lk\<lparr>actionQueue := []\<rparr>) s1))
      else (OK, s))"

section \<open>Performing actions\<close>

text \<open>
  Taking the finished action off the queue of a link. \<open>front\<close> and \<open>pop_front\<close> of an empty queue
  are undefined.
\<close>

fun pop_wildcard :: "u64 \<Rightarrow> link_id list \<Rightarrow> cm \<Rightarrow> exn option \<times> cm" where
  "pop_wildcard i [] s = (None, s)"
| "pop_wildcard i (l # ls) s =
     (case links s l of None \<Rightarrow> pop_wildcard i ls s
      | Some lk \<Rightarrow>
         (case actionQueue lk of [] \<Rightarrow> (Some Undefined, s)
          | r # rs \<Rightarrow> pop_wildcard i ls
              (if actionId (ai_action (acts s r)) = i
               then upd_link l (\<lambda>lk. lk\<lparr>actionQueue := rs\<rparr>) s else s)))"

definition pop_link :: "link_id \<Rightarrow> cm \<Rightarrow> exn option \<times> cm" where
  "pop_link l s = (case getLink s l of
      Inl e \<Rightarrow> (None, s)
    | Inr lk \<Rightarrow> (case actionQueue lk of [] \<Rightarrow> (Some Undefined, s)
        | r # rs \<Rightarrow> (None, upd_link l (\<lambda>lk. lk\<lparr>actionQueue := rs\<rparr>) s)))"

definition doAction :: "cm \<Rightarrow> exn option \<times> cm" where
  "doAction s =
     (case actions s of [] \<Rightarrow> (Some Undefined, s)
      | r # rs \<Rightarrow>
          let a = ai_action (acts s r);
              s1 = call (TransportDoAction (getPackageHandlesForAction r s) a) s;
              s2 = actionDone r s1
          in case (if wildcardLink (acts s2 r) then pop_wildcard (actionId a) (getLinks s2) s2
                   else if ai_linkId (acts s2 r) \<noteq> [] then pop_link (ai_linkId (acts s2 r)) s2
                   else (None, s2)) of
               (Some e, s3) \<Rightarrow> (Some e, s3)
             | (None, s3) \<Rightarrow> (None, updateActionTimestamp (s3\<lparr>actions := tl (actions s3)\<rparr>)))"

text \<open>The second loop of \<open>encodeActions\<close>; it returns the actions not reached.\<close>

fun encode_loop :: "real \<Rightarrow> action_ref list \<Rightarrow> cm \<Rightarrow> (exn + action_ref list) \<times> cm" where
  "encode_loop now [] s = (Inr [], s)"
| "encode_loop now (r # rs) s =
     (if timestamp (ai_action (acts s r)) < now + maxEncodingTime s then
        (case encodeForAction r s of
           (Some e, s1) \<Rightarrow> (Inl e, s1)
         | (None, s1) \<Rightarrow>
             encode_loop now rs (s1\<lparr>lastEncodeTime := timestamp (ai_action (acts s1 r))\<rparr>))
      else (Inr (r # rs), s))"

definition encodeActions :: "real \<Rightarrow> cm \<Rightarrow> exn option \<times> cm" where
  "encodeActions now s =
     (case encode_loop now (dropWhile (\<lambda>r. At (timestamp (ai_action (acts s r))) < nextEncodeTime s)
             (actions s)) s of
        (Inl e, s1) \<Rightarrow> (Some e, s1)
      | (Inr rest, s1) \<Rightarrow> (None, s1\<lparr>nextEncodeTime := encode_time_of s1 rest\<rparr>))"

text \<open>One round of the action thread; \<open>True\<close> ends the thread.\<close>

definition actionThreadLogic :: "env \<Rightarrow> real \<Rightarrow> cm \<Rightarrow> (exn + bool) \<times> cm" where
  "actionThreadLogic E now s =
     (if state s \<noteq> ACTIVATED then (Inr True, s)
      else
        (case (if nextFetchTime s \<le> At now then fetchTimeline E s
               else if nextActionTime s \<le> At now then doAction s
               else if nextEncodeTime s \<le> At now then encodeActions now s
               else (None, s)) of
           (Some e, s1) \<Rightarrow> (Inl e, s1) | (None, s1) \<Rightarrow> (Inr False, s1)))"

section \<open>Setup and teardown\<close>

fun sum_encodingTime :: "env \<Rightarrow> cm \<Rightarrow> string list \<Rightarrow> exn + real" where
  "sum_encodingTime E s [] = Inr 0"
| "sum_encodingTime E s (ty # tys) =
     (case encodingComponentFromEncodingParams s
             \<lparr>param_linkId = [], param_type = ty, encodePackage = False, param_json = []\<rparr> of
        None \<Rightarrow> Inl OutOfRange
      | Some enc \<Rightarrow> (case sum_encodingTime E s tys of Inl e \<Rightarrow> Inl e
          | Inr t \<Rightarrow> Inr (env_encodingTime E enc + t)))"

fun max_encodingTime_loop :: "env \<Rightarrow> (string \<times> string list) list \<Rightarrow> cm \<Rightarrow> exn option \<times> cm" where
  "max_encodingTime_loop E [] s = (None, s)"
| "max_encodingTime_loop E ((_, tys) # as) s =
     (case sum_encodingTime E s tys of Inl e \<Rightarrow> (Some e, s)
      | Inr t \<Rightarrow> max_encodingTime_loop E as (s\<lparr>maxEncodingTime := max (maxEncodingTime s) t\<rparr>))"

definition action_setup :: "env \<Rightarrow> cm \<Rightarrow> exn option \<times> cm" where
  "action_setup E s =
     (case max_encodingTime_loop E (env_supportedActions E) (s\<lparr>maxEncodingTime := 0\<rparr>) of
        (Some e, s1) \<Rightarrow> (Some e, s1)
      | (None, s1) \<Rightarrow>
          (case fetchTimeline E (s1\<lparr>maxEncodingTime := maxEncodingTime s1 + 1 / 10,
                 timelineLength := env_timelineLength E,
                 timelineFetchPeriod := env_timelineFetchPeriod E\<rparr>) of
             (Some e, s2) \<Rightarrow> (Some e, s2)
           | (None, s2) \<Rightarrow> (None, s2\<lparr>action_thread := True\<rparr>)))"

definition action_teardown :: "cm \<Rightarrow> cm" where
  "action_teardown s = s\<lparr>actions := [], nextFetchTime := At 0, nextActionTime := Infinity,
     nextEncodeTime := Infinity, lastEncodeTime := 0\<rparr>"

definition joinActionThread :: "cm \<Rightarrow> cm" where
  "joinActionThread s = s\<lparr>action_thread := False\<rparr>"

end
