(* ===== verification/CM_Links.thy ===== *)
theory CM_Links
  imports CM_Types
begin

text \<open>
  Links and connections of a decomposed channel:
  racesdk/core/source/decomposed-comms/ComponentLinkManager.cpp and
  ComponentConnectionManager.cpp. The SDK generates link and connection ids; what it generates is
  an argument. \<open>manager.closeConnection\<close> checks the state of the manager, which is ACTIVATED
  whenever \<open>onLinkStatusChanged\<close> runs, so the link manager calls the connection manager here.
\<close>

section \<open>Connections\<close>

definition openConnection ::
    "u64 \<Rightarrow> link_id \<Rightarrow> conn_id \<Rightarrow> cm \<Rightarrow> (exn + cm_internal_status) \<times> cm" where
  "openConnection h l connId s =
     (case getLink s l of
        Inl e \<Rightarrow> (Inl e, s)
      | Inr lk \<Rightarrow>
          (Inr OK, call (SdkOnConnectionStatusChanged h connId CONNECTION_OPEN (link_properties lk))
             (upd_link l (\<lambda>lk. lk\<lparr>connections := List.insert connId (connections lk)\<rparr>)
                (s\<lparr>conns := (conns s)(connId := Some l)\<rparr>))))"

definition closeConnection ::
    "u64 \<Rightarrow> conn_id \<Rightarrow> cm \<Rightarrow> (exn + cm_internal_status) \<times> cm" where
  "closeConnection h connId s =
     (case conns s connId of
        None \<Rightarrow> (Inr ERROR, s)
      | Some l \<Rightarrow>
          (case getLink s l of
             Inl e \<Rightarrow> (Inl e, s)
           | Inr lk \<Rightarrow>
               let s1 = upd_link l (\<lambda>lk. lk\<lparr>connections := removeAll connId (connections lk)\<rparr>) s;
                   s2 = call (SdkOnConnectionStatusChanged h connId CONNECTION_CLOSED
                          (link_properties lk)) s1
               in (Inr OK, s2\<lparr>conns := (conns s2)(connId := None)\<rparr>)))"

definition connection_teardown :: "cm \<Rightarrow> cm" where
  "connection_teardown s = s\<lparr>conns := \<lambda>_. None\<rparr>"

section \<open>Links\<close>

definition destroyLink :: "u64 \<Rightarrow> link_id \<Rightarrow> cm \<Rightarrow> (exn + cm_internal_status) \<times> cm" where
  "destroyLink h l s = (Inr OK, call (TransportDestroyLink h l) s)"

definition createLink :: "u64 \<Rightarrow> link_id \<Rightarrow> cm \<Rightarrow> (exn + cm_internal_status) \<times> cm" where
  "createLink h l s = (Inr OK, call (TransportCreateLink h l) s)"

definition loadLinkAddress ::
    "u64 \<Rightarrow> string \<Rightarrow> link_id \<Rightarrow> cm \<Rightarrow> (exn + cm_internal_status) \<times> cm" where
  "loadLinkAddress h addr l s = (Inr OK, call (TransportLoadLinkAddress h l addr) s)"

definition loadLinkAddresses ::
    "u64 \<Rightarrow> string list \<Rightarrow> link_id \<Rightarrow> cm \<Rightarrow> (exn + cm_internal_status) \<times> cm" where
  "loadLinkAddresses h addrs l s = (Inr OK, call (TransportLoadLinkAddresses h l addrs) s)"

definition createLinkFromAddress ::
    "u64 \<Rightarrow> string \<Rightarrow> link_id \<Rightarrow> cm \<Rightarrow> (exn + cm_internal_status) \<times> cm" where
  "createLinkFromAddress h addr l s = (Inr OK, call (TransportCreateLinkFromAddress h l addr) s)"

text \<open>A link that exists already is replaced: \<open>links[linkId] = std::move(link)\<close>.\<close>

definition new_link :: "env \<Rightarrow> link_id \<Rightarrow> link" where
  "new_link E l = \<lparr>connections = [], actionQueue = [], packageQueue = [],
     link_properties = env_getLinkProperties E l, producerId = env_getEntropy E 16,
     fragmentCount = 0, producerQueues = (\<lambda>_. None)\<rparr>"

definition put_link :: "link_id \<Rightarrow> link \<Rightarrow> cm \<Rightarrow> cm" where
  "put_link l lk s = s\<lparr>links := (links s)(l := Some lk),
     link_order := (if l \<in> set (link_order s) then link_order s else link_order s @ [l])\<rparr>"

definition erase_link :: "link_id \<Rightarrow> cm \<Rightarrow> cm" where
  "erase_link l s = s\<lparr>links := (links s)(l := None), link_order := removeAll l (link_order s)\<rparr>"

text \<open>The status \<open>closeConnection\<close> returns is ignored, an exception is not.\<close>

fun close_connections :: "conn_id list \<Rightarrow> cm \<Rightarrow> exn option \<times> cm" where
  "close_connections [] s = (None, s)"
| "close_connections (c # cs) s =
     (case closeConnection 0 c s of
        (Inl e, s1) \<Rightarrow> (Some e, s1)
      | (Inr _, s1) \<Rightarrow> close_connections cs s1)"

definition link_onLinkStatusChanged ::
    "env \<Rightarrow> u64 \<Rightarrow> link_id \<Rightarrow> link_status \<Rightarrow> link_props \<Rightarrow> cm \<Rightarrow>
       (exn + cm_internal_status) \<times> cm" where
  "link_onLinkStatusChanged E h l status params s =
     (let props = env_getLinkProperties E l;
          (r, s1) =
            (if status = LINK_CREATED \<or> status = LINK_LOADED then
               (None, put_link l (new_link E l) (call (UserModelAddLink l params) s))
             else if status = LINK_DESTROYED then
               (case getLink s l of
                  Inl e \<Rightarrow> (Some e, s)
                | Inr lk \<Rightarrow>
                    (case close_connections (connections lk) s of
                       (Some e, s1) \<Rightarrow> (Some e, s1)
                     | (None, s1) \<Rightarrow> (None, call (UserModelRemoveLink l) (erase_link l s1))))
             else (None, s))
      in case r of Some e \<Rightarrow> (Inl e, s1)
         | None \<Rightarrow> (Inr OK, call (SdkOnLinkStatusChanged h l status props) s1))"

definition link_teardown :: "cm \<Rightarrow> cm" where
  "link_teardown s = s\<lparr>links := \<lambda>_. None, link_order := []\<rparr>"

end
