(* ===== verification/CM_Manager.thy ===== *)
theory CM_Manager
  imports CM_Receive CM_Action CM_Links
begin

unbundle bit_operations_syntax

text \<open>
  The life of a decomposed channel and the entry points of its manager:
  racesdk/core/source/decomposed-comms/ComponentLifetimeManager.cpp and ComponentManager.cpp
  (class \<open>ComponentManagerInternal\<close>). Every entry point runs on the manager's thread with
  \<open>dataMutex\<close> held, checks the state of the channel and hands on to one of the managers.
\<close>

section \<open>Construction, teardown and setup\<close>

definition new_cm :: "(nat \<Rightarrow> real) \<Rightarrow> cm" where
  "new_cm clk = \<lparr>mode = FRAGMENT_SINGLE_PRODUCER, clock = clk, clock_reads = 0, calls = [],
     frags = (\<lambda>_. \<lparr>fr_handle = 0, fr_package = 0, fr_state = F_UNENCODED, fr_action = None,
       fr_offset = 0, fr_len = 0, markForDeletion = False\<rparr>),
     pkgs = (\<lambda>_. \<lparr>pk_link = [], pk_pkg = enc_pkg_new 0 0 [], pk_sdkHandle = 0,
       pk_pendingEncodeHandle = 0, packageFragments = []\<rparr>), next_pkg = 0,
     acts = (\<lambda>_. \<lparr>ai_action = \<lparr>timestamp = 0, actionId = 0, action_json = []\<rparr>,
       wildcardLink = False, ai_linkId = [], encoding = [], ai_fragments = [],
       toBeRemoved = False\<rparr>), next_act = 0,
     pendingEncodings = (\<lambda>_. None), nextEncodingHandle = 0, nextFragmentHandle = 0,
     fragments = (\<lambda>_. None), pendingDecodings = (\<lambda>_. None), nextDecodingHandle = 0,
     link_order = [], links = (\<lambda>_. None), conns = (\<lambda>_. None), actions = [],
     maxEncodingTime = 0, timelineLength = 600, timelineFetchPeriod = 300,
     nextFetchTime = At 0, nextActionTime = Infinity, nextEncodeTime = Infinity,
     lastEncodeTime = 0, action_thread = False, state = INITIALIZING, componentStates = [],
     activateHandle = 0, encodings = [], has_transport = False, has_usermodel = False,
     wrappers = [], encodingsByType = [], idComponentMap = [], userInputMap = (\<lambda>_. None)\<rparr>"

definition lifetime_teardown :: "cm \<Rightarrow> cm" where
  "lifetime_teardown s = s\<lparr>has_transport := False, has_usermodel := False, encodingsByType := [],
     encodings := [], wrappers := [], componentStates := [], idComponentMap := []\<rparr>"

definition teardown :: "cm \<Rightarrow> cm" where
  "teardown s = (receive_teardown (package_teardown (link_teardown (lifetime_teardown
     (connection_teardown (action_teardown s))))))\<lparr>userInputMap := \<lambda>_. None\<rparr>"

definition lifetime_setup :: "env \<Rightarrow> cm \<Rightarrow> cm" where
  "lifetime_setup E s = s\<lparr>encodingsByType := encodingsByType s @
     map (\<lambda>name. (env_encodingType E name, name)) (encodings s)\<rparr>"

definition setup_cm :: "env \<Rightarrow> cm \<Rightarrow> exn option \<times> cm" where
  "setup_cm E s = action_setup E (lifetime_setup E s)"

section \<open>The lifetime manager\<close>

definition fail :: "env \<Rightarrow> cm \<Rightarrow> cm" where
  "fail E s = call (SdkOnChannelStatusChanged (activateHandle s) (env_compositionId E) CHANNEL_FAILED)
     ((teardown s)\<lparr>state := FAILED\<rparr>)"

definition checkActivated :: "env \<Rightarrow> cm \<Rightarrow> exn option \<times> cm" where
  "checkActivated E s =
     (if state s \<noteq> WAITING_FOR_COMPONENTS then (None, s)
      else if list_all (\<lambda>(_, st). st = COMPONENT_STATE_STARTED) (componentStates s) then
        (case setup_cm E (s\<lparr>state := ACTIVATED\<rparr>) of
           (Some e, s1) \<Rightarrow> (Some e, s1)
         | (None, s1) \<Rightarrow> (None, call (SdkOnChannelStatusChanged (activateHandle s1)
             (env_compositionId E) CHANNEL_AVAILABLE) s1))
      else (None, s))"

definition lifetime_updateState ::
    "env \<Rightarrow> string \<Rightarrow> component_state \<Rightarrow> cm \<Rightarrow> (exn + cm_internal_status) \<times> cm" where
  "lifetime_updateState E cid st s =
     (let s1 = s\<lparr>componentStates := AList.update cid st (componentStates s)\<rparr>
      in if st = COMPONENT_STATE_FAILED then (Inr OK, fail E s1)
         else if st = COMPONENT_STATE_STARTED then
           (case checkActivated E s1 of (Some e, s2) \<Rightarrow> (Inl e, s2) | (None, s2) \<Rightarrow> (Inr OK, s2))
         else (Inr OK, s1))"

definition lifetime_deactivateChannel :: "u64 \<Rightarrow> string \<Rightarrow> cm \<Rightarrow> cm" where
  "lifetime_deactivateChannel h gid s =
     call (SdkOnChannelStatusChanged h gid CHANNEL_ENABLED) ((teardown s)\<lparr>state := UNACTIVATED\<rparr>)"

text \<open>The components are created one after the other; a factory that returns null is fatal.\<close>

fun create_encodings :: "env \<Rightarrow> string \<Rightarrow> string list \<Rightarrow> cm \<Rightarrow> bool \<times> cm" where
  "create_encodings E role [] s = (True, s)"
| "create_encodings E role (name # names) s =
     (let s1 = s\<lparr>componentStates := AList.update name COMPONENT_STATE_INIT (componentStates s)\<rparr>
      in if env_createEncoding E name role then
           create_encodings E role names (s1\<lparr>encodings := encodings s1 @ [name],
             idComponentMap := List.insert name (idComponentMap s1), wrappers := wrappers s1 @ [name]\<rparr>)
         else (False, s1))"

definition lifetime_activateChannel ::
    "env \<Rightarrow> u64 \<Rightarrow> string \<Rightarrow> cm \<Rightarrow> (exn + cm_internal_status) \<times> cm" where
  "lifetime_activateChannel E h role s =
     (let t = env_transport E; u = env_usermodel E;
          s1 = s\<lparr>activateHandle := h, state := CREATING_COMPONENTS,
                 componentStates := AList.update t COMPONENT_STATE_INIT (componentStates s)\<rparr>
      in if \<not> env_createTransport E role then (Inr FATAL, s1)
      else
        let s2 = s1\<lparr>has_transport := True, idComponentMap := List.insert t (idComponentMap s1),
                    wrappers := wrappers s1 @ [t],
                    componentStates := AList.update u COMPONENT_STATE_INIT (componentStates s1)\<rparr>
        in if \<not> env_createUserModel E role then (Inr FATAL, s2)
        else
          let s3 = s2\<lparr>has_usermodel := True, idComponentMap := List.insert u (idComponentMap s2),
                      wrappers := wrappers s2 @ [u]\<rparr>
          in case create_encodings E role (env_encodings E) s3 of
               (False, s4) \<Rightarrow> (Inr FATAL, s4)
             | (True, s4) \<Rightarrow>
                 (case checkActivated E (s4\<lparr>state := WAITING_FOR_COMPONENTS\<rparr>) of
                    (Some e, s5) \<Rightarrow> (Inl e, s5)
                  | (None, s5) \<Rightarrow> (Inr OK, s5)))"

section \<open>Entry points\<close>

text \<open>
  \<open>EXPECT_STATE\<close> tests \<open>(lifetimeManager.state & expected_state) == 0\<close> on a mask of states. The
  macro does not put its argument in parentheses: \<open>EXPECT_STATE(WAITING_FOR_COMPONENTS | ACTIVATED)\<close>
  tests \<open>((state & WAITING_FOR_COMPONENTS) | ACTIVATED) == 0\<close>.
\<close>

definition expect_state :: "u32 \<Rightarrow> cm \<Rightarrow> bool" where
  "expect_state states s \<longleftrightarrow> state_bit (state s) AND states \<noteq> 0"

definition expect_deactivate :: "cm \<Rightarrow> bool" where
  "expect_deactivate s \<longleftrightarrow>
     (state_bit (state s) AND state_bit WAITING_FOR_COMPONENTS) OR state_bit ACTIVATED \<noteq> 0"

definition components_mask :: u32 where
  "components_mask = state_bit CREATING_COMPONENTS OR state_bit WAITING_FOR_COMPONENTS OR
     state_bit ACTIVATED"

text \<open>
  The API calls of the SDK, the transport, the user model and the encodings that are posted
  asynchronously; \<open>sendPackage\<close> and \<open>shutdown\<close> are posted by \<open>post_sync\<close> below. What the SDK
  generates in a call (link and connection ids, handles) is part of the request.
\<close>

datatype request =
    ReqInit
  | ReqOpenConnection u64 link_id conn_id
  | ReqCloseConnection u64 conn_id
  | ReqCreateLink u64 string link_id
  | ReqLoadLinkAddress u64 string string link_id
  | ReqLoadLinkAddresses u64 string "string list" link_id
  | ReqCreateLinkFromAddress u64 string string link_id
  | ReqDestroyLink u64 link_id
  | ReqDeactivateChannel u64 string
  | ReqActivateChannel u64 string string
  | ReqOnUserInputReceived u64 bool string
  | ReqOnUserAcknowledgementReceived u64
  | ReqRequestPluginUserInput string string string bool u64 u64
  | ReqRequestCommonUserInput string string u64 u64
  | ReqUpdateState string component_state
  | ReqOnBytesEncoded u64 bytes encoding_status
  | ReqOnBytesDecoded u64 bytes encoding_status
  | ReqOnLinkStatusChanged u64 link_id link_status link_props
  | ReqOnPackageStatusChanged u64 package_status
  | ReqOnEvent string
  | ReqOnReceive link_id encoding_parameters bytes
  | ReqOnTimelineUpdated
  | ReqMarkFailed

definition lift_status :: "cm_internal_status \<times> cm \<Rightarrow> (exn + cm_internal_status) \<times> cm" where
  "lift_status r = (Inr (fst r), snd r)"

definition internal_deactivateChannel ::
    "env \<Rightarrow> u64 \<Rightarrow> string \<Rightarrow> cm \<Rightarrow> (exn + cm_internal_status) \<times> cm" where
  "internal_deactivateChannel E h gid s =
     (if \<not> expect_deactivate s then (Inr ERROR, s)
      else if gid \<noteq> env_compositionId E then (Inr ERROR, s)
      else (Inr OK, joinActionThread (lifetime_deactivateChannel h gid s)))"

definition internal_shutdown :: "env \<Rightarrow> cm \<Rightarrow> (exn + plugin_response) \<times> cm" where
  "internal_shutdown E s =
     (let s1 = (if has_transport s \<or> has_usermodel s \<or> length (encodings s) > 0
                then snd (internal_deactivateChannel E 0 (env_compositionId E) s) else s)
      in (Inr PLUGIN_OK, s1\<lparr>state := SHUTTING_DOWN\<rparr>))"

definition internal_sendPackage ::
    "env \<Rightarrow> u64 \<Rightarrow> conn_id \<Rightarrow> enc_pkg \<Rightarrow> cm \<Rightarrow> (exn + plugin_response) \<times> cm" where
  "internal_sendPackage E h connId pkg s0 =
     (if \<not> expect_state (state_bit ACTIVATED) s0 then (Inr PLUGIN_ERROR, s0)
      else
        let (now, s) = currentTime s0
        in case action_onSendPackage E now connId pkg s of
             (Inl e, s1) \<Rightarrow> (Inl e, s1)
           | (Inr _, s1) \<Rightarrow> sendPackage now h connId pkg s1)"

definition internal_onLinkStatusChanged ::
    "env \<Rightarrow> u64 \<Rightarrow> link_id \<Rightarrow> link_status \<Rightarrow> link_props \<Rightarrow> cm \<Rightarrow>
       (exn + cm_internal_status) \<times> cm" where
  "internal_onLinkStatusChanged E h l status params s =
     (if \<not> expect_state (state_bit ACTIVATED) s then (Inr ERROR, s)
      else link_onLinkStatusChanged E h l status params
             (snd (action_onLinkStatusChanged l status (snd (package_onLinkStatusChanged l status s)))))"

definition internal_onUserInputReceived ::
    "u64 \<Rightarrow> bool \<Rightarrow> string \<Rightarrow> cm \<Rightarrow> (exn + cm_internal_status) \<times> cm" where
  "internal_onUserInputReceived h answered response s =
     (if \<not> expect_state components_mask s then (Inr ERROR, s)
      else case userInputMap s h of
        None \<Rightarrow> (Inr ERROR, s)
      | Some (ch, cid) \<Rightarrow>
          let s1 = s\<lparr>userInputMap := (userInputMap s)(h := None)\<rparr>
          in if cid \<in> set (idComponentMap s1)
             then (Inr OK, call (ComponentOnUserInputReceived cid ch answered response) s1)
             else (Inr ERROR, s1))"

text \<open>\<open>sdkHandle\<close> is the handle the SDK returned, \<open>postId\<close> the handle given to the component.\<close>

definition internal_requestUserInput ::
    "cm_call \<Rightarrow> string \<Rightarrow> u64 \<Rightarrow> u64 \<Rightarrow> cm \<Rightarrow> (exn + cm_internal_status) \<times> cm" where
  "internal_requestUserInput c cid sdkHandle postId s =
     (if \<not> expect_state components_mask s then (Inr ERROR, s)
      else (Inr OK, (call c s)\<lparr>userInputMap := (userInputMap s)(sdkHandle := Some (postId, cid))\<rparr>))"

text \<open>A guard on the state, and one on the channel id as well.\<close>

definition guarded ::
    "u32 \<Rightarrow> (cm \<Rightarrow> (exn + cm_internal_status) \<times> cm) \<Rightarrow> cm \<Rightarrow> (exn + cm_internal_status) \<times> cm" where
  "guarded states f s = (if \<not> expect_state states s then (Inr ERROR, s) else f s)"

definition guarded_channel ::
    "env \<Rightarrow> string \<Rightarrow> u32 \<Rightarrow> (cm \<Rightarrow> (exn + cm_internal_status) \<times> cm) \<Rightarrow> cm \<Rightarrow>
       (exn + cm_internal_status) \<times> cm" where
  "guarded_channel E gid states f s =
     (if \<not> expect_state states s then (Inr ERROR, s)
      else if gid \<noteq> env_compositionId E then (Inr ERROR, s) else f s)"

text \<open>The entry points of the component managers, one each.\<close>

definition internal_init :: "cm \<Rightarrow> (exn + cm_internal_status) \<times> cm" where
  "internal_init s =
     (if \<not> expect_state (state_bit INITIALIZING) s then (Inr FATAL, s)
      else (Inr OK, s\<lparr>state := UNACTIVATED\<rparr>))"

definition internal_openConnection ::
    "u64 \<Rightarrow> link_id \<Rightarrow> conn_id \<Rightarrow> cm \<Rightarrow> (exn + cm_internal_status) \<times> cm" where
  "internal_openConnection h l c s =
     guarded (state_bit ACTIVATED) (openConnection h l c) s"

definition internal_closeConnection ::
    "u64 \<Rightarrow> conn_id \<Rightarrow> cm \<Rightarrow> (exn + cm_internal_status) \<times> cm" where
  "internal_closeConnection h c s =
     guarded (state_bit ACTIVATED) (closeConnection h c) s"

definition internal_createLink ::
    "env \<Rightarrow> u64 \<Rightarrow> string \<Rightarrow> link_id \<Rightarrow> cm \<Rightarrow> (exn + cm_internal_status) \<times> cm" where
  "internal_createLink E h gid l s =
     guarded_channel E gid (state_bit ACTIVATED) (createLink h l) s"

definition internal_loadLinkAddress ::
    "env \<Rightarrow> u64 \<Rightarrow> string \<Rightarrow> string \<Rightarrow> link_id \<Rightarrow> cm \<Rightarrow> (exn + cm_internal_status) \<times> cm" where
  "internal_loadLinkAddress E h gid addr l s =
     guarded_channel E gid (state_bit ACTIVATED) (loadLinkAddress h addr l) s"

definition internal_loadLinkAddresses ::
    "env \<Rightarrow> u64 \<Rightarrow> string \<Rightarrow> string list \<Rightarrow> link_id \<Rightarrow> cm \<Rightarrow> (exn + cm_internal_status) \<times> cm" where
  "internal_loadLinkAddresses E h gid addrs l s =
     guarded_channel E gid (state_bit ACTIVATED) (loadLinkAddresses h addrs l) s"

definition internal_createLinkFromAddress ::
    "env \<Rightarrow> u64 \<Rightarrow> string \<Rightarrow> string \<Rightarrow> link_id \<Rightarrow> cm \<Rightarrow> (exn + cm_internal_status) \<times> cm" where
  "internal_createLinkFromAddress E h gid addr l s =
     guarded_channel E gid (state_bit ACTIVATED) (createLinkFromAddress h addr l) s"

definition internal_destroyLink ::
    "u64 \<Rightarrow> link_id \<Rightarrow> cm \<Rightarrow> (exn + cm_internal_status) \<times> cm" where
  "internal_destroyLink h l s =
     guarded (state_bit ACTIVATED) (destroyLink h l) s"

definition internal_activateChannel ::
    "env \<Rightarrow> u64 \<Rightarrow> string \<Rightarrow> string \<Rightarrow> cm \<Rightarrow> (exn + cm_internal_status) \<times> cm" where
  "internal_activateChannel E h gid role s =
     guarded_channel E gid (state_bit UNACTIVATED) (lifetime_activateChannel E h role) s"

definition internal_onUserAcknowledgementReceived ::
    "u64 \<Rightarrow> cm \<Rightarrow> (exn + cm_internal_status) \<times> cm" where
  "internal_onUserAcknowledgementReceived h s =
     (Inr OK, s)"

definition internal_requestPluginUserInput ::
    "string \<Rightarrow> string \<Rightarrow> string \<Rightarrow> bool \<Rightarrow> u64 \<Rightarrow> u64 \<Rightarrow> cm \<Rightarrow> (exn + cm_internal_status) \<times> cm" where
  "internal_requestPluginUserInput cid key prompt cache h p s =
     internal_requestUserInput (SdkRequestPluginUserInput key prompt cache) cid h p s"

definition internal_requestCommonUserInput ::
    "string \<Rightarrow> string \<Rightarrow> u64 \<Rightarrow> u64 \<Rightarrow> cm \<Rightarrow> (exn + cm_internal_status) \<times> cm" where
  "internal_requestCommonUserInput cid key h p s =
     internal_requestUserInput (SdkRequestCommonUserInput key) cid h p s"

definition internal_updateState ::
    "env \<Rightarrow> string \<Rightarrow> component_state \<Rightarrow> cm \<Rightarrow> (exn + cm_internal_status) \<times> cm" where
  "internal_updateState E cid st s =
     guarded components_mask (lifetime_updateState E cid st) s"

definition internal_onBytesEncoded ::
    "u64 \<Rightarrow> bytes \<Rightarrow> encoding_status \<Rightarrow> cm \<Rightarrow> (exn + cm_internal_status) \<times> cm" where
  "internal_onBytesEncoded h bytes st s =
     guarded (state_bit ACTIVATED) (\<lambda>s. lift_status (onBytesEncoded h bytes st s)) s"

definition internal_onBytesDecoded ::
    "u64 \<Rightarrow> bytes \<Rightarrow> encoding_status \<Rightarrow> cm \<Rightarrow> (exn + cm_internal_status) \<times> cm" where
  "internal_onBytesDecoded h bytes st s =
     guarded (state_bit ACTIVATED) (\<lambda>s. lift_status (onBytesDecoded h bytes st s)) s"

definition internal_onPackageStatusChanged ::
    "u64 \<Rightarrow> package_status \<Rightarrow> cm \<Rightarrow> (exn + cm_internal_status) \<times> cm" where
  "internal_onPackageStatusChanged h st s =
     guarded (state_bit ACTIVATED) (\<lambda>s. lift_status (onPackageStatusChanged h st s)) s"

definition internal_onEvent ::
    "string \<Rightarrow> cm \<Rightarrow> (exn + cm_internal_status) \<times> cm" where
  "internal_onEvent json s =
     guarded (state_bit ACTIVATED) (\<lambda>s. (Inr OK, call (UserModelOnTransportEvent json) s)) s"

definition internal_onReceive ::
    "link_id \<Rightarrow> encoding_parameters \<Rightarrow> bytes \<Rightarrow> cm \<Rightarrow> (exn + cm_internal_status) \<times> cm" where
  "internal_onReceive l params bytes s =
     guarded (state_bit ACTIVATED) (\<lambda>s. lift_status (onReceive l params bytes s)) s"

definition internal_onTimelineUpdated ::
    "env \<Rightarrow> cm \<Rightarrow> (exn + cm_internal_status) \<times> cm" where
  "internal_onTimelineUpdated E s =
     guarded (state_bit ACTIVATED) (onTimelineUpdated E) s"

definition internal_markFailed ::
    "env \<Rightarrow> cm \<Rightarrow> (exn + cm_internal_status) \<times> cm" where
  "internal_markFailed E s =
     (Inr OK, fail E s)"

fun dispatch :: "env \<Rightarrow> request \<Rightarrow> cm \<Rightarrow> (exn + cm_internal_status) \<times> cm" where
  "dispatch E ReqInit s = internal_init s"
| "dispatch E (ReqOpenConnection h l c) s = internal_openConnection h l c s"
| "dispatch E (ReqCloseConnection h c) s = internal_closeConnection h c s"
| "dispatch E (ReqCreateLink h gid l) s = internal_createLink E h gid l s"
| "dispatch E (ReqLoadLinkAddress h gid addr l) s = internal_loadLinkAddress E h gid addr l s"
| "dispatch E (ReqLoadLinkAddresses h gid addrs l) s = internal_loadLinkAddresses E h gid addrs l s"
| "dispatch E (ReqCreateLinkFromAddress h gid addr l) s =
     internal_createLinkFromAddress E h gid addr l s"
| "dispatch E (ReqDestroyLink h l) s = internal_destroyLink h l s"
| "dispatch E (ReqDeactivateChannel h gid) s = internal_deactivateChannel E h gid s"
| "dispatch E (ReqActivateChannel h gid role) s = internal_activateChannel E h gid role s"
| "dispatch E (ReqOnUserInputReceived h answered response) s =
     internal_onUserInputReceived h answered response s"
| "dispatch E (ReqOnUserAcknowledgementReceived h) s = internal_onUserAcknowledgementReceived h s"
| "dispatch E (ReqRequestPluginUserInput cid key prompt cache h p) s =
     internal_requestPluginUserInput cid key prompt cache h p s"
| "dispatch E (ReqRequestCommonUserInput cid key h p) s =
     internal_requestCommonUserInput cid key h p s"
| "dispatch E (ReqUpdateState cid st) s = internal_updateState E cid st s"
| "dispatch E (ReqOnBytesEncoded h bytes st) s = internal_onBytesEncoded h bytes st s"
| "dispatch E (ReqOnBytesDecoded h bytes st) s = internal_onBytesDecoded h bytes st s"
| "dispatch E (ReqOnLinkStatusChanged h l st params) s =
     internal_onLinkStatusChanged E h l st params s"
| "dispatch E (ReqOnPackageStatusChanged h st) s = internal_onPackageStatusChanged h st s"
| "dispatch E (ReqOnEvent json) s = internal_onEvent json s"
| "dispatch E (ReqOnReceive l params bytes) s = internal_onReceive l params bytes s"
| "dispatch E ReqOnTimelineUpdated s = internal_onTimelineUpdated E s"
| "dispatch E ReqMarkFailed s = internal_markFailed E s"

text \<open>
  \<open>workFunc\<close> of \<open>ComponentManager::post\<close>: an exception counts as FATAL, FATAL marks the manager as
  failed, and every status but OK is reported to the SDK. Undefined behaviour is not caught: the
  result \<open>None\<close> is a process that has crashed. \<open>sendPackage\<close> and \<open>shutdown\<close> are posted by
  \<open>post_sync\<close>, whose \<open>workFunc\<close> returns PLUGIN_FATAL for an exception and does nothing else.
\<close>

definition posted :: "env \<Rightarrow> request \<Rightarrow> cm \<Rightarrow> cm option" where
  "posted E r s =
     (let (res, s1) = dispatch E r s in
      if res = Inl Undefined then None
      else
        let status = (case res of Inl e \<Rightarrow> FATAL | Inr st \<Rightarrow> st);
            s2 = (if status = FATAL then fail E s1 else s1)
        in Some (if status = OK then s2
                 else call (SdkAsyncError (if status = FATAL then PLUGIN_FATAL else PLUGIN_ERROR)) s2))"

definition posted_sync ::
    "(cm \<Rightarrow> (exn + plugin_response) \<times> cm) \<Rightarrow> cm \<Rightarrow> (plugin_response \<times> cm) option" where
  "posted_sync f s = (case f s of
     (Inl e, s1) \<Rightarrow> if e = Undefined then None else Some (PLUGIN_FATAL, s1)
   | (Inr r, s1) \<Rightarrow> Some (r, s1))"

text \<open>A round of the action thread; an exception ends the process (\<open>std::terminate\<close>).\<close>

definition run_action_thread :: "env \<Rightarrow> real \<Rightarrow> cm \<Rightarrow> cm option" where
  "run_action_thread E now s =
     (if \<not> action_thread s then Some s
      else case actionThreadLogic E now s of
        (Inl e, s1) \<Rightarrow> None
      | (Inr stop, s1) \<Rightarrow> Some (if stop then s1\<lparr>action_thread := False\<rparr> else s1))"

text \<open>
  One step of the manager: a request from its queue, or a round of the action thread.
  \<open>request_ok\<close> is what the manager takes from the SDK and the transport: link ids are not empty,
  a connection id is not in use when it is handed out, and a link is reported as created or
  loaded once.
\<close>

definition request_ok :: "cm \<Rightarrow> request \<Rightarrow> bool" where
  "request_ok s r = (case r of
     ReqOnLinkStatusChanged h l st params \<Rightarrow>
       l \<noteq> [] \<and> (st = LINK_CREATED \<or> st = LINK_LOADED \<longrightarrow> links s l = None)
   | ReqOpenConnection h l c \<Rightarrow> conns s c = None
   | _ \<Rightarrow> True)"

inductive cm_step :: "cm \<Rightarrow> cm \<Rightarrow> bool" where
  step_posted: "request_ok s r \<Longrightarrow> posted E r s = Some s' \<Longrightarrow> cm_step s s'"
| step_send: "posted_sync (internal_sendPackage E h c pkg) s = Some (resp, s') \<Longrightarrow> cm_step s s'"
| step_shutdown: "posted_sync (internal_shutdown E) s = Some (resp, s') \<Longrightarrow> cm_step s s'"
| step_thread: "run_action_thread E now s = Some s' \<Longrightarrow> cm_step s s'"

end
