(* ===== verification/CM_Inv.thy ===== *)
theory CM_Inv
  imports CM_Manager CM_Package_Inv
begin

text \<open>
  The invariant of the whole component manager, kept by every request and by every round of the
  action thread: the package manager's invariant of CM_Package_Inv; the components exist exactly
  while the channel is waiting for them or active; connections and links know each other.
\<close>

section \<open>What sending, receiving and acting leave alone\<close>

definition base :: "cm \<Rightarrow> (cm_state \<times> bool \<times> bool \<times> string list \<times>
    (string \<times> component_state) list \<times> u64) \<times> (conn_id \<Rightarrow> link_id option) \<times>
    (link_id \<Rightarrow> conn_id list option)" where
  "base s = ((state s, has_transport s, has_usermodel s, encodings s, componentStates s,
     activateHandle s), conns s,
     (\<lambda>l. map_option connections (links s l)))"

lemma base_fold: "(\<And>x s. base (f x s) = base s) \<Longrightarrow> base (fold f xs s) = base s"
  by (induction xs arbitrary: s) auto

lemma base_simps [simp]:
  "base (call c s) = base s"
  "base (upd_frag r ff s) = base s"
  "base (upd_pkg p fp s) = base s"
  "base (upd_act a fa s) = base s"
  "base (upd_encoding a i fe s) = base s"
  "base (erase_fragments rs s) = base s"
  "base (mark_fragment r s) = base s"
  "base (set_fragment_state st r s) = base s"
  "base (add_fragment l p a off n s) = base s"
  "base (s\<lparr>pendingEncodings := pe\<rparr>) = base s"
  "base (s\<lparr>fragments := fm\<rparr>) = base s"
  "base (s\<lparr>nextEncodingHandle := h\<rparr>) = base s"
  "base (s\<lparr>clock_reads := n\<rparr>) = base s"
  "base (s\<lparr>actions := as\<rparr>) = base s"
  "base (s\<lparr>pendingDecodings := pd\<rparr>) = base s"
  "base (s\<lparr>nextDecodingHandle := h\<rparr>) = base s"
  "base (s\<lparr>lastEncodeTime := t\<rparr>) = base s"
  "base (s\<lparr>nextEncodeTime := ts\<rparr>) = base s"
  "base (s\<lparr>nextActionTime := ts\<rparr>) = base s"
  "base (s\<lparr>nextFetchTime := ts\<rparr>) = base s"
  "base (s\<lparr>maxEncodingTime := t\<rparr>) = base s"
  "base (s\<lparr>timelineLength := t\<rparr>) = base s"
  "base (s\<lparr>timelineFetchPeriod := t\<rparr>) = base s"
  "base (s\<lparr>action_thread := b\<rparr>) = base s"
  "base (s\<lparr>userInputMap := um\<rparr>) = base s"
  "base (s\<lparr>encodingsByType := et\<rparr>) = base s"
  "base (s\<lparr>next_act := na, acts := ac\<rparr>) = base s"
  "base (s\<lparr>next_pkg := np, pkgs := ps\<rparr>) = base s"
  by (simp_all add: base_def call_def upd_frag_def upd_pkg_def upd_act_def upd_encoding_def
      erase_fragments_def mark_fragment_def set_fragment_state_def add_fragment_def Let_def)

lemma base_upd_link: "(\<And>k. connections (f k) = connections k) \<Longrightarrow> base (upd_link l f s) = base s"
  by (auto simp: base_def upd_link_def fun_eq_iff option.map_comp comp_def)

lemma base_unassign [simp]: "base (unassign_action a s) = base s"
  by (simp add: unassign_action_def base_fold)

lemma base_reset_action [simp]: "base (reset_action now a s) = base s"
  by (simp add: reset_action_def)

lemma base_removeMarked_package [simp]: "base (removeMarked_package p s) = base s"
  by (simp add: removeMarked_package_def Let_def)

lemma base_reset_link [simp]: "base (reset_link now l s) = base s"
  by (simp add: reset_link_def removeMarkedFragments_def base_fold split: option.split)

lemma base_generate_loop [simp]: "base (snd (generate_loop now l p as off s)) = base s"
  by (induction as arbitrary: off s) (simp_all add: Let_def)

lemma base_generate [simp]: "base (snd (generateFragmentsForPackage now l lk p s)) = base s"
  by (simp add: generateFragmentsForPackage_def Let_def)

lemma base_assign_step [simp]: "base (snd (assign_step now i l st)) = base (snd st)"
proof (cases st)
  case (Pair full s)
  have "generateFragmentsForPackage now l lk p s = (b, s1) \<Longrightarrow> base s1 = base s" for lk p b s1
    by (metis base_generate snd_conv)
  with Pair show ?thesis
    by (auto simp: assign_step_def Let_def split: option.split prod.split bool.split)
qed

lemma base_fold_snd: "(\<And>x st. base (snd (f x st)) = base (snd st)) \<Longrightarrow> base (snd (fold f xs st)) = base (snd st)"
  by (induction xs arbitrary: st) auto

lemma base_assign_packages [simp]: "base (snd (assign_packages now s)) = base s"
  by (simp add: assign_packages_def base_fold_snd)

lemma base_generateAll [simp]: "base (generateFragmentsForAllPackages s) = base s"
proof -
  have u: "base (unblock_connections full l s) = base s" for full l s
    by (simp add: unblock_connections_def base_fold split: option.split)
  obtain now s0 where c: "currentTime s = (now, s0)" by fastforce
  then have s0: "base s0 = base s" by (auto simp: currentTime_def)
  obtain full s2 where a: "assign_packages now (fold (reset_link now) (getLinks s0) s0) = (full, s2)"
    by fastforce
  then have "base s2 = base (fold (reset_link now) (getLinks s0) s0)"
    using base_assign_packages by (metis snd_conv)
  then show ?thesis
    by (simp add: generateFragmentsForAllPackages_def c a base_fold u s0)
qed

lemma base_sendPackage [simp]: "base (snd (sendPackage now h c pkg s)) = base s"
  by (auto simp: sendPackage_def Let_def base_upd_link split: sum.split prod.split)
    (metis base_generate base_simps(28) snd_conv)

lemma base_encode_step [simp]: "base (encode_step a b i s) = base s"
  by (simp add: encode_step_def Let_def base_fold split: option.split)

lemma base_encodeForAction [simp]: "base (snd (encodeForAction a s)) = base s"
  by (simp add: encodeForAction_def Let_def encode_all_def base_fold bump_fragmentCount_def
      base_upd_link split: sum.split)

lemma base_onBytesEncoded [simp]: "base (snd (onBytesEncoded h b st s)) = base s"
  by (simp add: onBytesEncoded_def Let_def base_fold split: option.split prod.split)

lemma base_package_onLinkStatusChanged [simp]:
  "base (snd (package_onLinkStatusChanged l st s)) = base s"
  by (simp add: package_onLinkStatusChanged_def Let_def base_fold base_upd_link
      forget_encodings_def fail_package_def split: sum.split)

lemma base_release [simp]: "base (snd (release_fragment r st)) = base (snd st)"
  by (cases st) (simp add: release_fragment_def Let_def split: option.split prod.split)

lemma base_finish_package [simp]: "base (finish_package p st s) = base s"
proof -
  obtain re s1 where r: "fold release_fragment (packageFragments (pkgs s p)) (False, s) = (re, s1)"
    by fastforce
  have "base s1 = base s" using base_fold_snd [of release_fragment, OF base_release] r
    by (metis snd_conv)
  then show ?thesis by (simp add: finish_package_def r Let_def base_upd_link)
qed

lemma base_onPackageStatusChanged [simp]: "base (snd (onPackageStatusChanged h st s)) = base s"
  by (simp add: onPackageStatusChanged_def Let_def split: option.split)

lemma base_actionDone [simp]: "base (actionDone a s) = base s"
  by (simp add: actionDone_def Let_def base_fold)

lemma base_keep [simp]: "base (keep_action m r s) = base s"
  by (simp add: keep_action_def)

lemma base_createActionInfo [simp]: "base (snd (createActionInfo E a s)) = base s"
  by (simp add: createActionInfo_def Let_def split: sum.split)

lemma createActionInfo_base:
  "createActionInfo E a s = (r, s1) \<Longrightarrow> base s1 = base s"
  by (metis base_createActionInfo snd_conv)

lemma base_merge [simp]: "base (snd (merge_actions E m xs ns s)) = base s"
proof (induction E m xs ns s rule: merge_actions.induct)
  case (1 E m s)
  then show ?case by simp
next
  case (2 E m n ns s)
  then show ?case by (fastforce dest: createActionInfo_base split: prod.split sum.split)
next
  case (3 E m x xs s)
  then show ?case by (auto split: prod.split sum.split)
next
  case (4 E m x xs n ns s)
  show ?case
  proof (cases "action_lt n (ai_action (acts s x))")
    case True
    with 4(1) show ?thesis by (fastforce dest: createActionInfo_base split: prod.split sum.split)
  next
    case False
    with 4(2,3) show ?thesis by (auto split: prod.split sum.split)
  qed
qed

lemma merge_base: "merge_actions E m xs ns s = (r, s1) \<Longrightarrow> base s1 = base s"
  by (metis base_merge snd_conv)

lemma base_insertActions [simp]: "base (snd (insertActions E as s)) = base s"
  by (auto simp: insertActions_def dest: merge_base split: prod.split sum.split)

lemma base_updateGlobalTimeline [simp]: "base (snd (updateGlobalTimeline E as t s)) = base s"
  by (auto simp: updateGlobalTimeline_def Let_def dest: merge_base split: prod.split sum.split)

lemma base_set_link_queues [simp]: "base (set_link_queues s) = base s"
  by (auto simp: base_def set_link_queues_def fun_eq_iff option.map_comp comp_def)

lemma base_timelines [simp]:
  "base (updateLinkTimelines s) = base s"
  "base (removeDeletedActions s) = base s"
  "base (updateActionTimestamp s) = base s"
  "base (updateEncodeTimestamp s) = base s"
  by (simp_all add: updateLinkTimelines_def updatedActions_def removeDeletedActions_def
      updateActionTimestamp_def updateEncodeTimestamp_def)

lemma base_updateTimeline [simp]: "base (snd (updateTimeline E as t s)) = base s"
proof -
  obtain r s1 where g: "updateGlobalTimeline E as t s = (r, s1)" by fastforce
  then have "base s1 = base s" by (metis base_updateGlobalTimeline snd_conv)
  with g show ?thesis by (simp add: updateTimeline_def split: option.split)
qed

lemma base_fetchTimeline [simp]: "base (snd (fetchTimeline E s)) = base s"
  by (simp add: fetchTimeline_def currentTime_def Let_def)

lemma base_onTimelineUpdated [simp]: "base (snd (onTimelineUpdated E s)) = base s"
proof -
  obtain r s1 where g: "fetchTimeline E s = (r, s1)" by fastforce
  then have "base s1 = base s" by (metis base_fetchTimeline snd_conv)
  with g show ?thesis by (simp add: onTimelineUpdated_def split: option.split)
qed

lemma base_action_onSendPackage [simp]: "base (snd (action_onSendPackage E now c pkg s)) = base s"
proof -
  have g: "insertActions E as s = (r, s1) \<Longrightarrow> base s1 = base s" for as r s1
    by (metis base_insertActions snd_conv)
  show ?thesis
    by (auto simp: action_onSendPackage_def Let_def dest: g split: sum.split prod.split option.split)
qed

lemma base_action_onLinkStatusChanged [simp]:
  "base (snd (action_onLinkStatusChanged l st s)) = base s"
  by (simp add: action_onLinkStatusChanged_def Let_def base_upd_link split: sum.split)

lemma base_pop_wildcard [simp]: "base (snd (pop_wildcard i ls s)) = base s"
  by (induction ls arbitrary: s) (auto simp: base_upd_link split: option.split list.split)

lemma base_pop_link [simp]: "base (snd (pop_link l s)) = base s"
  by (simp add: pop_link_def base_upd_link split: sum.split list.split)

lemma base_doAction [simp]: "base (snd (doAction s)) = base s"
proof -
  have w: "pop_wildcard i ls t = (r, s1) \<Longrightarrow> base s1 = base t" for i ls t r s1
    by (metis base_pop_wildcard snd_conv)
  have p: "pop_link l t = (r, s1) \<Longrightarrow> base s1 = base t" for l t r s1
    by (metis base_pop_link snd_conv)
  show ?thesis
    by (auto simp: doAction_def Let_def dest: w p split: list.split option.split prod.split if_splits)
qed

lemma base_encode_loop [simp]: "base (snd (encode_loop now rs s)) = base s"
proof (induction rs arbitrary: s)
  case (Cons r rs)
  have e: "encodeForAction r s = (x, s1) \<Longrightarrow> base s1 = base s" for x s1
    by (metis base_encodeForAction snd_conv)
  show ?case by (auto simp: Cons dest: e split: option.split prod.split)
qed simp

lemma base_encodeActions [simp]: "base (snd (encodeActions now s)) = base s"
proof -
  have e: "encode_loop now rs s = (x, s1) \<Longrightarrow> base s1 = base s" for rs x s1
    by (metis base_encode_loop snd_conv)
  show ?thesis by (auto simp: encodeActions_def dest: e split: prod.split sum.split)
qed

lemma base_actionThreadLogic [simp]: "base (snd (actionThreadLogic E now s)) = base s"
proof -
  obtain x s1 where c: "(if nextFetchTime s \<le> At now then fetchTimeline E s
     else if nextActionTime s \<le> At now then doAction s
     else if nextEncodeTime s \<le> At now then encodeActions now s else (None, s)) = (x, s1)"
    by fastforce
  then have "base s1 = base s"
    by (auto split: if_splits dest: arg_cong [of _ _ "base \<circ> snd"])
  with c show ?thesis by (simp add: actionThreadLogic_def split: option.split)
qed

lemma base_deliver [simp]: "base (deliver cv out s) = base s"
  by (simp add: deliver_def base_def)

lemma base_receiveFragmentProducer [simp]:
  "base (snd (receiveFragmentProducer p off l b cv s)) = base s"
  by (auto simp: receiveFragmentProducer_def Let_def base_upd_link split: sum.split prod.split)

lemma base_onReceive [simp]: "base (snd (onReceive l params b s)) = base s"
  by (simp add: onReceive_def Let_def base_def call_def split: option.split)

lemma base_receiveModes [simp]:
  "base (snd (receiveSingle b cv s)) = base s"
  "base (snd (receiveBatch b cv s)) = base s"
  "base (snd (receiveFragmentSingleProducer l b cv s)) = base s"
  "base (snd (receiveFragmentMultipleProducer l b cv s)) = base s"
  by (auto simp: receiveSingle_def receiveBatch_def receiveFragmentSingleProducer_def
      receiveFragmentMultipleProducer_def split: prod.split option.split sum.split)

lemma base_onBytesDecoded [simp]: "base (snd (onBytesDecoded h b st s)) = base s"
proof -
  let ?s1 = "s\<lparr>pendingDecodings := (pendingDecodings s)(h := None)\<rparr>"
  have "base (snd (case mode ?s1 of SINGLE \<Rightarrow> receiveSingle b cv ?s1 | BATCH \<Rightarrow> receiveBatch b cv ?s1
      | FRAGMENT_SINGLE_PRODUCER \<Rightarrow> receiveFragmentSingleProducer l b cv ?s1
      | FRAGMENT_MULTIPLE_PRODUCER \<Rightarrow> receiveFragmentMultipleProducer l b cv ?s1)) = base s" for cv l
    by (simp split: encoding_mode.split)
  then show ?thesis
    by (auto simp: onBytesDecoded_def Let_def split: option.split sum.split prod.split)
      (metis snd_conv)+
qed

section \<open>The package manager's invariant everywhere\<close>

lemma new_action_ok:
  assumes "pm_ok s" "ai_fragments info = []"
  shows "pm_ok (s\<lparr>next_act := n, acts := (acts s)(r := info)\<rparr>)"
proof -
  let ?s = "s\<lparr>next_act := n, acts := (acts s)(r := info)\<rparr>"
  have "act_wf ?s a" for a
  proof (cases "a = r")
    case False
    then have "act_wf ?s a = act_wf s a"
      by (simp add: act_wf_def isLastFragment_def pkg_of_def filled_bytes_def max_bytes_def)
    then show ?thesis using assms(1) by (simp add: pm_ok_def)
  qed (simp add: act_wf_def assms(2))
  moreover have "pkg_wf ?s p = pkg_wf s p" for p by (simp add: pkg_wf_def)
  ultimately show ?thesis using assms(1) by (simp add: pm_ok_def)
qed

lemma action_params_loop_fragments:
  "action_params_loop E s params info = Inr info' \<Longrightarrow> ai_fragments info' = ai_fragments info"
  by (induction E s params info rule: action_params_loop.induct)
    (auto simp: Let_def split: if_splits option.splits)

lemma createActionInfo_ok:
  assumes "pm_ok s" "createActionInfo E a s = (r, s1)"
  shows "pm_ok s1"
  using assms new_action_ok [OF assms(1)] action_params_loop_fragments
  by (auto simp: createActionInfo_def Let_def split: sum.splits)

lemma keep_action_ok: "pm_ok s \<Longrightarrow> pm_ok (keep_action m r s)"
  unfolding keep_action_def by (auto intro!: pm_ok_le [OF pm_le_upd_act] simp: act_le_def)

lemma merge_case_snd:
  "snd (case m of (Inl e, s2) \<Rightarrow> (Inl e, s2) | (Inr rs, s2) \<Rightarrow> (Inr (f rs), s2)) = snd m"
  by (cases m; cases "fst m") auto

lemma merge_ok:
  assumes "pm_ok s"
  shows "pm_ok (snd (merge_actions E m xs ns s))"
  using assms
proof (induction E m xs ns s rule: merge_actions.induct)
  case (1 E m s)
  then show ?case by simp
next
  case (2 E m n ns s)
  obtain r s1 where c: "createActionInfo E n s = (r, s1)" by fastforce
  have ok1: "pm_ok s1" by (rule createActionInfo_ok [OF 2(2) c])
  show ?case
  proof (cases r)
    case (Inr a)
    from 2(1) [OF c [symmetric, unfolded Inr] refl] ok1 have "pm_ok (snd (merge_actions E m [] ns s1))" by blast
    with c Inr show ?thesis by (simp add: merge_case_snd)
  qed (simp add: c ok1)
next
  case (3 E m x xs s)
  have "pm_ok (snd (merge_actions E m xs [] (keep_action m x s)))"
    by (rule 3(1)) (rule keep_action_ok [OF 3(2)])
  then show ?case by (simp add: merge_case_snd)
next
  case (4 E m x xs n ns s)
  show ?case
  proof (cases "action_lt n (ai_action (acts s x))")
    case True
    obtain r s1 where c: "createActionInfo E n s = (r, s1)" by fastforce
    have ok1: "pm_ok s1" by (rule createActionInfo_ok [OF 4(4) c])
    show ?thesis
    proof (cases r)
      case (Inr a)
      from 4(1) [OF True c [symmetric, unfolded Inr] refl] ok1
      have "pm_ok (snd (merge_actions E m (x # xs) ns s1))" by blast
      with c Inr True show ?thesis by (simp add: merge_case_snd)
    qed (simp add: c ok1 True)
  next
    case f1: False
    show ?thesis
    proof (cases "action_lt (ai_action (acts s x)) n")
      case True
      have "pm_ok (snd (merge_actions E m xs (n # ns) (keep_action m x s)))"
        by (rule 4(2) [OF f1 True]) (rule keep_action_ok [OF 4(4)])
      with f1 True show ?thesis by (simp add: merge_case_snd)
    next
      case False
      have "pm_ok (snd (merge_actions E m xs ns s))" by (rule 4(3) [OF f1 False 4(4)])
      with f1 False show ?thesis by (simp add: merge_case_snd)
    qed
  qed
qed

lemma merge_ok_eq: "merge_actions E m xs ns s = (r, s1) \<Longrightarrow> pm_ok s \<Longrightarrow> pm_ok s1"
  using merge_ok by (metis snd_conv)

lemma pm_le_fields [simp]:
  "pm_le (s\<lparr>actions := as\<rparr>) s" "pm_le (s\<lparr>nextActionTime := ts\<rparr>) s"
  "pm_le (s\<lparr>nextEncodeTime := ts\<rparr>) s" "pm_le (s\<lparr>nextFetchTime := ts\<rparr>) s"
  "pm_le (s\<lparr>lastEncodeTime := t\<rparr>) s" "pm_le (s\<lparr>action_thread := b\<rparr>) s"
  "pm_le (s\<lparr>maxEncodingTime := t\<rparr>) s" "pm_le (s\<lparr>timelineLength := t\<rparr>) s"
  "pm_le (s\<lparr>timelineFetchPeriod := t\<rparr>) s" "pm_le (s\<lparr>state := st\<rparr>) s"
  "pm_le (s\<lparr>userInputMap := um\<rparr>) s" "pm_le (s\<lparr>pendingDecodings := pd\<rparr>) s"
  "pm_le (s\<lparr>nextDecodingHandle := h\<rparr>) s" "pm_le (s\<lparr>encodingsByType := et\<rparr>) s"
  "pm_le (s\<lparr>conns := cs\<rparr>) s" "pm_le (s\<lparr>componentStates := c\<rparr>) s"
  by (simp_all add: pm_le_def)

lemma set_link_queues_ok: "pm_ok s \<Longrightarrow> pm_ok (set_link_queues s)"
  by (erule pm_ok_le [rotated]) (auto simp: pm_le_def set_link_queues_def link_le_def)

lemma pm_ok_field:
  "pm_ok s \<Longrightarrow> pm_ok (s\<lparr>actions := as\<rparr>)" "pm_ok s \<Longrightarrow> pm_ok (call c s)"
  "pm_ok s \<Longrightarrow> pm_ok (s\<lparr>lastEncodeTime := t\<rparr>)" "pm_ok s \<Longrightarrow> pm_ok (s\<lparr>nextEncodeTime := ts\<rparr>)"
  "pm_ok s \<Longrightarrow> pm_ok (s\<lparr>nextFetchTime := ts\<rparr>)" "pm_ok s \<Longrightarrow> pm_ok (s\<lparr>action_thread := b\<rparr>)"
  "pm_ok s \<Longrightarrow> pm_ok (s\<lparr>state := st\<rparr>)" "pm_ok s \<Longrightarrow> pm_ok (s\<lparr>conns := cs\<rparr>)"
  "pm_ok s \<Longrightarrow> pm_ok (s\<lparr>userInputMap := um\<rparr>)" "pm_ok s \<Longrightarrow> pm_ok (s\<lparr>pendingDecodings := pd\<rparr>)"
  by (simp_all add: pm_ok_le [OF pm_le_fields(1)] pm_ok_le [OF pm_le_simple(1)]
      pm_ok_le [OF pm_le_fields(5)] pm_ok_le [OF pm_le_fields(3)] pm_ok_le [OF pm_le_fields(4)]
      pm_ok_le [OF pm_le_fields(6)] pm_ok_le [OF pm_le_fields(10)] pm_ok_le [OF pm_le_fields(15)]
      pm_ok_le [OF pm_le_fields(11)] pm_ok_le [OF pm_le_fields(12)])

lemma timelines_ok:
  assumes "pm_ok s"
  shows "pm_ok (updateLinkTimelines s)" "pm_ok (removeDeletedActions s)"
    "pm_ok (updateActionTimestamp s)" "pm_ok (updateEncodeTimestamp s)"
proof -
  have u: "pm_ok t \<Longrightarrow> pm_ok (updateLinkTimelines t)" for t
    unfolding updateLinkTimelines_def updatedActions_def
    by (intro generateFragmentsForAllPackages_ok set_link_queues_ok)
  show "pm_ok (updateLinkTimelines s)" using assms by (rule u)
  show "pm_ok (removeDeletedActions s)"
    unfolding removeDeletedActions_def using pm_ok_le [OF pm_le_fields(1) assms] by (rule u)
  show "pm_ok (updateActionTimestamp s)" "pm_ok (updateEncodeTimestamp s)"
    unfolding updateActionTimestamp_def updateEncodeTimestamp_def
    by (rule pm_ok_le [OF _ assms], simp)+
qed

lemma insertActions_ok: "pm_ok s \<Longrightarrow> insertActions E as s = (r, s1) \<Longrightarrow> pm_ok s1"
  by (auto simp: insertActions_def dest: merge_ok_eq intro: pm_ok_field split: prod.splits sum.splits)

lemma updateGlobalTimeline_ok:
  "pm_ok s \<Longrightarrow> updateGlobalTimeline E as t s = (r, s1) \<Longrightarrow> pm_ok s1"
  by (auto simp: updateGlobalTimeline_def Let_def dest: merge_ok_eq intro: pm_ok_field
      split: prod.splits sum.splits)

lemma fetchTimeline_ok:
  assumes "pm_ok s"
  shows "pm_ok (snd (fetchTimeline E s))"
proof -
  obtain now s0 where c: "currentTime s = (now, s0)" by fastforce
  then have "pm_ok s0" using pm_ok_le [OF pm_le_simple(5) assms] by (auto simp: currentTime_def)
  then have ok: "pm_ok (s0\<lparr>nextFetchTime := t\<rparr>)" for t by (rule pm_ok_field)
  have "pm_ok (snd (updateTimeline E as t s1))" if "pm_ok s1" for as t s1
  proof -
    obtain r s2 where g: "updateGlobalTimeline E as t s1 = (r, s2)" by fastforce
    from updateGlobalTimeline_ok [OF that g] show ?thesis
      by (simp add: updateTimeline_def g timelines_ok split: option.split)
  qed
  with ok show ?thesis by (simp add: fetchTimeline_def c Let_def)
qed

lemma onTimelineUpdated_ok: "pm_ok s \<Longrightarrow> pm_ok (snd (onTimelineUpdated E s))"
  using fetchTimeline_ok [of s E]
  by (auto simp: onTimelineUpdated_def split: prod.split option.split)

lemma action_onSendPackage_ok: "pm_ok s \<Longrightarrow> pm_ok (snd (action_onSendPackage E now c pkg s))"
  by (auto simp: action_onSendPackage_def Let_def dest: insertActions_ok intro: timelines_ok
      split: sum.split prod.split option.split)

lemma action_onLinkStatusChanged_ok: "pm_ok s \<Longrightarrow> pm_ok (snd (action_onLinkStatusChanged l st s))"
  by (auto simp: action_onLinkStatusChanged_def Let_def split: sum.split
      intro!: pm_ok_le [OF pm_le_upd_link] pm_ok_field)

lemma pop_queue_ok: "pm_ok s \<Longrightarrow> pm_ok (upd_link l (actionQueue_update f) s)"
  by (erule pm_ok_le [OF pm_le_upd_link, rotated]) simp

lemma pop_wildcard_ok: "pm_ok s \<Longrightarrow> pm_ok (snd (pop_wildcard i ls s))"
  by (induction ls arbitrary: s)
    (auto split: option.split list.split simp: pop_queue_ok)

lemma pop_link_ok: "pm_ok s \<Longrightarrow> pm_ok (snd (pop_link l s))"
  by (auto simp: pop_link_def split: sum.split list.split intro!: pm_ok_le [OF pm_le_upd_link])

lemma doAction_ok:
  assumes "pm_ok s"
  shows "pm_ok (snd (doAction s))"
proof (cases "actions s")
  case (Cons r rs)
  let ?s2 = "actionDone r (call (TransportDoAction (getPackageHandlesForAction r s)
      (ai_action (acts s r))) s)"
  have ok2: "pm_ok ?s2" by (rule pm_ok_le [OF pm_le_actionDone]) (rule pm_ok_field(2) [OF assms])
  obtain x s3 where p: "(if wildcardLink (acts ?s2 r)
      then pop_wildcard (actionId (ai_action (acts s r))) (getLinks ?s2) ?s2
      else if ai_linkId (acts ?s2 r) \<noteq> [] then pop_link (ai_linkId (acts ?s2 r)) ?s2
      else (None, ?s2)) = (x, s3)" by fastforce
  then have "pm_ok s3"
    using ok2 pop_wildcard_ok [OF ok2] pop_link_ok [OF ok2] by (metis snd_conv)
  then have "pm_ok (updateActionTimestamp (s3\<lparr>actions := as\<rparr>))" for as
    by (intro timelines_ok pm_ok_field)
  with \<open>pm_ok s3\<close> show ?thesis using Cons p by (simp add: doAction_def Let_def split: option.split)
qed (simp add: doAction_def assms)

lemma encode_loop_ok: "pm_ok s \<Longrightarrow> pm_ok (snd (encode_loop now rs s))"
proof (induction rs arbitrary: s)
  case (Cons r rs)
  obtain x s1 where e: "encodeForAction r s = (x, s1)" by fastforce
  then have "pm_ok s1" using pm_ok_le [OF pm_le_encodeForAction Cons.prems] by (metis snd_conv)
  then show ?case using Cons by (simp add: e pm_ok_field split: option.split)
qed simp

lemma encodeActions_ok: "pm_ok s \<Longrightarrow> pm_ok (snd (encodeActions now s))"
proof -
  assume ok: "pm_ok s"
  have "encode_loop now rs s = (x, s1) \<Longrightarrow> pm_ok s1" for rs x s1
    using encode_loop_ok [OF ok] by (metis snd_conv)
  then show ?thesis by (auto simp: encodeActions_def split: prod.split sum.split intro: pm_ok_field)
qed

lemma actionThreadLogic_ok:
  assumes "pm_ok s"
  shows "pm_ok (snd (actionThreadLogic E now s))"
proof -
  obtain x s1 where c: "(if nextFetchTime s \<le> At now then fetchTimeline E s
     else if nextActionTime s \<le> At now then doAction s
     else if nextEncodeTime s \<le> At now then encodeActions now s else (None, s)) = (x, s1)"
    by fastforce
  then have "pm_ok s1"
    using assms fetchTimeline_ok [OF assms] doAction_ok [OF assms] encodeActions_ok [OF assms]
    by (metis snd_conv)
  with c show ?thesis by (simp add: actionThreadLogic_def assms split: option.split)
qed

lemma pm_le_receive:
  "pm_le (deliver cv out s) s" "pm_le (snd (onReceive l params b s)) s"
  "pm_le (snd (receiveFragmentProducer p off l b cv s)) s"
proof -
  show d: "pm_le (deliver cv out s) s" for cv out s by (simp add: deliver_def pm_le_def)
  show "pm_le (snd (onReceive l params b s)) s"
    by (simp add: onReceive_def Let_def pm_le_def call_def split: option.split)
  show "pm_le (snd (receiveFragmentProducer p off l b cv s)) s"
    by (auto simp: receiveFragmentProducer_def Let_def split: sum.split prod.split
        intro!: pm_le_trans [OF d pm_le_upd_link])
qed

lemma pm_le_onBytesDecoded: "pm_le (snd (onBytesDecoded h b st s)) s"
proof -
  let ?s1 = "s\<lparr>pendingDecodings := (pendingDecodings s)(h := None)\<rparr>"
  have 1: "pm_le (snd (receiveFragmentProducer p off l b cv ?s1)) s" for p off l cv
    by (rule pm_le_trans [OF pm_le_receive(3)]) simp
  have 2: "pm_le (deliver cv out ?s1) s" for cv out
    by (rule pm_le_trans [OF pm_le_receive(1)]) simp
  have "pm_le (snd (case mode ?s1 of SINGLE \<Rightarrow> receiveSingle b cv ?s1 | BATCH \<Rightarrow> receiveBatch b cv ?s1
      | FRAGMENT_SINGLE_PRODUCER \<Rightarrow> receiveFragmentSingleProducer l b cv ?s1
      | FRAGMENT_MULTIPLE_PRODUCER \<Rightarrow> receiveFragmentMultipleProducer l b cv ?s1)) s" for cv l
    using 1 2
    by (auto simp: receiveSingle_def receiveBatch_def receiveFragmentSingleProducer_def
        receiveFragmentMultipleProducer_def split: encoding_mode.split prod.split option.split sum.split)
  then show ?thesis
    by (auto simp: onBytesDecoded_def Let_def split: option.split sum.split prod.split)
      (metis snd_conv)+
qed

section \<open>Components, links and connections\<close>

definition life_ok :: "cm \<Rightarrow> bool" where
  "life_ok s \<longleftrightarrow> state s \<noteq> CREATING_COMPONENTS \<and>
     (if state s = WAITING_FOR_COMPONENTS \<or> state s = ACTIVATED
      then has_transport s \<and> has_usermodel s
      else \<not> has_transport s \<and> \<not> has_usermodel s \<and> encodings s = [] \<and>
        (\<forall>c. conns s c = None) \<and> (\<forall>l. links s l = None))"

definition link_conns :: "cm \<Rightarrow> link_id \<Rightarrow> conn_id list option" where
  "link_conns s l = map_option connections (links s l)"

definition conn_ok :: "cm \<Rightarrow> bool" where
  "conn_ok s \<longleftrightarrow> (\<forall>c l. conns s c = Some l \<longleftrightarrow> (\<exists>cs. link_conns s l = Some cs \<and> c \<in> set cs))"

definition cm_inv :: "cm \<Rightarrow> bool" where
  "cm_inv s \<longleftrightarrow> pm_ok s \<and> life_ok s \<and> conn_ok s"

lemma base_eqD:
  assumes "base s' = base s"
  shows "state s' = state s" "has_transport s' = has_transport s" "has_usermodel s' = has_usermodel s"
    "encodings s' = encodings s" "conns s' = conns s" "link_conns s' = link_conns s"
    "(links s' l = None) = (links s l = None)" "componentStates s' = componentStates s"
    "activateHandle s' = activateHandle s"
proof -
  show "state s' = state s" "has_transport s' = has_transport s" "has_usermodel s' = has_usermodel s"
    "encodings s' = encodings s" "conns s' = conns s" "componentStates s' = componentStates s"
    "activateHandle s' = activateHandle s"
    using assms by (simp_all add: base_def)
  have "link_conns s' = link_conns s" using assms by (simp add: base_def link_conns_def fun_eq_iff)
  then show "link_conns s' = link_conns s" "(links s' l = None) = (links s l = None)"
    by (simp, metis link_conns_def map_option_is_None)
qed

lemma life_conn_base:
  assumes "base s' = base s"
  shows "life_ok s' = life_ok s" "conn_ok s' = conn_ok s"
  using base_eqD [OF assms] by (simp_all add: life_ok_def conn_ok_def)

lemma cm_inv_base: "pm_ok s' \<Longrightarrow> base s' = base s \<Longrightarrow> cm_inv s \<Longrightarrow> cm_inv s'"
  unfolding cm_inv_def using life_conn_base [of s' s] by simp

subsection \<open>Teardown\<close>

lemma teardown_fields [simp]:
  "has_transport (teardown s) = False" "has_usermodel (teardown s) = False"
  "encodings (teardown s) = []" "conns (teardown s) = (\<lambda>_. None)" "links (teardown s) = (\<lambda>_. None)"
  "state (teardown s) = state s" "actions (teardown s) = []" "componentStates (teardown s) = []"
  "pendingEncodings (teardown s) = (\<lambda>_. None)" "pendingDecodings (teardown s) = (\<lambda>_. None)"
  "fragments (teardown s) = (\<lambda>_. None)" "calls (teardown s) = calls s"
  "activateHandle (teardown s) = activateHandle s"
  by (simp_all add: teardown_def receive_teardown_def package_teardown_def link_teardown_def
      lifetime_teardown_def connection_teardown_def action_teardown_def)

lemma teardown_ok: "pm_ok s \<Longrightarrow> pm_ok (teardown s)"
  by (erule pm_ok_le [rotated]) (simp add: pm_le_def teardown_def receive_teardown_def
      package_teardown_def link_teardown_def lifetime_teardown_def connection_teardown_def
      action_teardown_def link_le_def)

lemma torn_down_inv:
  assumes "pm_ok s" "st \<noteq> CREATING_COMPONENTS" "st \<noteq> WAITING_FOR_COMPONENTS" "st \<noteq> ACTIVATED"
  shows "cm_inv ((teardown s)\<lparr>state := st\<rparr>)"
  using assms teardown_ok
  by (simp add: cm_inv_def pm_ok_field life_ok_def conn_ok_def link_conns_def)

lemma cm_inv_call: "cm_inv (call c s) = cm_inv s"
proof -
  have "pm_ok (call c s) = pm_ok s"
  proof
    assume "pm_ok (call c s)"
    moreover have "pm_le s (call c s)" by (simp add: pm_le_def call_def)
    ultimately show "pm_ok s" by (rule pm_ok_le [rotated])
  qed (rule pm_ok_field)
  then show ?thesis using life_conn_base [of "call c s" s] by (simp add: cm_inv_def)
qed

lemma fail_inv: "pm_ok s \<Longrightarrow> cm_inv (fail E s)"
  by (simp add: fail_def cm_inv_call torn_down_inv)

lemma deactivate_inv: "pm_ok s \<Longrightarrow> cm_inv (lifetime_deactivateChannel h gid s)"
  by (simp add: lifetime_deactivateChannel_def cm_inv_call torn_down_inv)

subsection \<open>Activation\<close>

lemma sum_loop_base: "base (snd (max_encodingTime_loop E as s)) = base s"
  by (induction E as s rule: max_encodingTime_loop.induct) (auto split: sum.split)

lemma sum_loop_ok: "pm_ok s \<Longrightarrow> pm_ok (snd (max_encodingTime_loop E as s))"
proof (induction E as s rule: max_encodingTime_loop.induct)
  case (2 E ty tys as s)
  then show ?case by (auto split: sum.split intro: pm_ok_le [OF pm_le_fields(7)])
qed simp

lemma action_setup_inv:
  assumes "pm_ok s"
  shows "pm_ok (snd (action_setup E s))" "base (snd (action_setup E s)) = base s"
proof -
  obtain r s1 where m: "max_encodingTime_loop E (env_supportedActions E) (s\<lparr>maxEncodingTime := 0\<rparr>) = (r, s1)"
    by fastforce
  let ?s2 = "s1\<lparr>maxEncodingTime := maxEncodingTime s1 + 1 / 10, timelineLength := env_timelineLength E,
     timelineFetchPeriod := env_timelineFetchPeriod E\<rparr>"
  have "pm_ok s1" using sum_loop_ok [OF pm_ok_le [OF pm_le_fields(7) assms]] m by (metis snd_conv)
  moreover have "pm_le ?s2 s1" by (simp add: pm_le_def)
  ultimately have ok: "pm_ok s1" "pm_ok ?s2" using pm_ok_le by blast+
  have b: "base s1 = base s" using sum_loop_base m by (metis base_simps(21) snd_conv)
  obtain r2 s3 where f: "fetchTimeline E ?s2 = (r2, s3)" by fastforce
  have "pm_ok s3" using fetchTimeline_ok [OF ok(2)] f by (metis snd_conv)
  moreover have "base s3 = base ?s2" using base_fetchTimeline f by (metis snd_conv)
  ultimately show "pm_ok (snd (action_setup E s))" "base (snd (action_setup E s)) = base s"
    using ok(1) b f m by (simp_all add: action_setup_def pm_ok_field split: option.split)
qed

lemma checkActivated_inv:
  assumes ok: "pm_ok s" and h: "has_transport s" "has_usermodel s" "conn_ok s"
    and st: "state s = WAITING_FOR_COMPONENTS \<or> state s = ACTIVATED"
    and r: "checkActivated E s = (r, s1)"
  shows "pm_ok s1" "r = None \<Longrightarrow> cm_inv s1"
proof -
  let ?a = "s\<lparr>state := ACTIVATED\<rparr>"
  have le: "pm_le (lifetime_setup E ?a) s" by (simp add: pm_le_def lifetime_setup_def)
  note ok2 = pm_ok_le [OF le ok]
  obtain r2 s2 where u: "setup_cm E ?a = (r2, s2)" by fastforce
  then have s2: "pm_ok s2" "base s2 = base ?a"
    using action_setup_inv [OF ok2, of E] by (simp_all add: setup_cm_def lifetime_setup_def) 
  have lc: "life_ok ?a" "conn_ok ?a" using h by (simp_all add: life_ok_def conn_ok_def link_conns_def)
  have i: "cm_inv s2" using s2 lc life_conn_base [OF s2(2)] by (simp add: cm_inv_def)
  have i0: "cm_inv s" using ok h st by (auto simp: cm_inv_def life_ok_def)
  show "pm_ok s1" "r = None \<Longrightarrow> cm_inv s1"
    using r u s2(1) ok i i0
    by (auto simp: checkActivated_def cm_inv_call pm_ok_field split: if_splits option.splits)
qed

lemma updateState_inv:
  assumes inv: "cm_inv s" and st: "state s = WAITING_FOR_COMPONENTS \<or> state s = ACTIVATED"
    and r: "lifetime_updateState E cid cst s = (res, s1)"
  shows "pm_ok s1" "res = Inr x \<Longrightarrow> cm_inv s1"
proof -
  let ?s = "s\<lparr>componentStates := AList.update cid cst (componentStates s)\<rparr>"
  have i: "cm_inv ?s"
    using inv pm_ok_le [OF pm_le_fields(16)] by (simp add: cm_inv_def life_ok_def conn_ok_def link_conns_def)
  then have c: "pm_ok ?s" "has_transport ?s" "has_usermodel ?s" "conn_ok ?s"
    "state ?s = WAITING_FOR_COMPONENTS \<or> state ?s = ACTIVATED"
    using st by (auto simp: cm_inv_def life_ok_def)
  obtain r2 s2 where k: "checkActivated E ?s = (r2, s2)" by fastforce
  from checkActivated_inv [OF c k] r k i c(1) fail_inv [OF c(1), of E]
  show "pm_ok s1" "res = Inr x \<Longrightarrow> cm_inv s1"
    by (auto simp: lifetime_updateState_def Let_def cm_inv_def split: if_splits option.splits)
qed

lemma create_encodings_frame:
  "create_encodings E role names s = (b, s1) \<Longrightarrow>
     pm_le s1 s \<and> has_transport s1 = has_transport s \<and> has_usermodel s1 = has_usermodel s \<and>
     conns s1 = conns s \<and> links s1 = links s \<and> state s1 = state s"
proof (induction names arbitrary: s)
  case (Cons n names)
  let ?s1 = "s\<lparr>componentStates := AList.update n COMPONENT_STATE_INIT (componentStates s)\<rparr>"
  let ?s2 = "?s1\<lparr>encodings := encodings ?s1 @ [n],
      idComponentMap := List.insert n (idComponentMap ?s1), wrappers := wrappers ?s1 @ [n]\<rparr>"
  have le: "pm_le ?s2 s" "pm_le ?s1 s" by (simp_all add: pm_le_def)
  show ?case
  proof (cases "env_createEncoding E n role")
    case True
    with Cons.prems have "create_encodings E role names ?s2 = (b, s1)" by (simp add: Let_def)
    from Cons.IH [OF this] le(1) show ?thesis by (auto intro: pm_le_trans)
  next
    case False
    with Cons.prems le(2) show ?thesis by (auto simp: Let_def)
  qed
qed simp

lemma activateChannel_inv:
  assumes inv: "cm_inv s" and st: "state s = UNACTIVATED"
    and r: "lifetime_activateChannel E h role s = (res, s1)"
  shows "pm_ok s1" "res = Inr x \<Longrightarrow> x \<noteq> FATAL \<Longrightarrow> cm_inv s1"
proof -
  let ?t = "env_transport E" and ?u = "env_usermodel E"
  let ?s1 = "s\<lparr>activateHandle := h, state := CREATING_COMPONENTS,
     componentStates := AList.update ?t COMPONENT_STATE_INIT (componentStates s)\<rparr>"
  let ?s2 = "?s1\<lparr>has_transport := True, idComponentMap := List.insert ?t (idComponentMap ?s1),
     wrappers := wrappers ?s1 @ [?t],
     componentStates := AList.update ?u COMPONENT_STATE_INIT (componentStates ?s1)\<rparr>"
  let ?s3 = "?s2\<lparr>has_usermodel := True, idComponentMap := List.insert ?u (idComponentMap ?s2),
     wrappers := wrappers ?s2 @ [?u]\<rparr>"
  have ok: "pm_ok s" and none: "\<forall>c. conns s c = None" "\<forall>l. links s l = None"
    using inv st by (auto simp: cm_inv_def life_ok_def)
  have "pm_le ?s1 s" "pm_le ?s2 s" "pm_le ?s3 s" by (simp_all add: pm_le_def)
  note oks = pm_ok_le [OF this(1) ok] pm_ok_le [OF this(2) ok] pm_ok_le [OF this(3) ok]
  obtain b s4 where ce: "create_encodings E role (env_encodings E) ?s3 = (b, s4)" by fastforce
  note fr = create_encodings_frame [OF ce]
  have ok4: "pm_ok s4" using fr pm_ok_le oks(3) by blast
  let ?s5 = "s4\<lparr>state := WAITING_FOR_COMPONENTS\<rparr>"
  have c: "pm_ok ?s5" "has_transport ?s5" "has_usermodel ?s5" "conn_ok ?s5"
    "state ?s5 = WAITING_FOR_COMPONENTS \<or> state ?s5 = ACTIVATED"
    using ok4 fr none by (simp_all add: pm_ok_field conn_ok_def link_conns_def)
  obtain r6 s6 where k: "checkActivated E ?s5 = (r6, s6)" by fastforce
  from checkActivated_inv [OF c k] r k ce ok4 oks
  show "pm_ok s1" "res = Inr x \<Longrightarrow> x \<noteq> FATAL \<Longrightarrow> cm_inv s1"
    by (auto simp: lifetime_activateChannel_def Let_def split: if_splits bool.splits option.splits)
qed

subsection \<open>Connections and links\<close>

lemma conn_okD:
  assumes "conn_ok s" "conns s c = Some l"
  obtains lk where "links s l = Some lk" "c \<in> set (connections lk)"
  using assms by (auto simp: conn_ok_def link_conns_def)

lemma conn_okD2: "conn_ok s \<Longrightarrow> links s l = Some lk \<Longrightarrow> c \<in> set (connections lk) \<Longrightarrow> conns s c = Some l"
  by (auto simp: conn_ok_def link_conns_def)

lemma openConnection_inv:
  assumes inv: "cm_inv s" and st: "state s = ACTIVATED" and new: "conns s c = None"
    and r: "openConnection h l c s = (res, s1)"
  shows "cm_inv s1"
proof (cases "links s l")
  case (Some lk)
  let ?s = "upd_link l (\<lambda>lk. lk\<lparr>connections := List.insert c (connections lk)\<rparr>)
      (s\<lparr>conns := (conns s)(c := Some l)\<rparr>)"
  have "pm_le ?s s" by (rule pm_le_trans [OF pm_le_upd_link]) auto
  then have ok: "pm_ok ?s" using inv pm_ok_le by (auto simp: cm_inv_def)
  have "conn_ok ?s"
    unfolding conn_ok_def
  proof (intro allI)
    fix c' l'
    have "conns s c = Some l' \<longleftrightarrow> (\<exists>cs. link_conns s l' = Some cs \<and> c \<in> set cs)"
      using inv unfolding cm_inv_def conn_ok_def by blast
    then have "\<not> (\<exists>cs. link_conns s l' = Some cs \<and> c \<in> set cs)" using new by simp
    moreover have "conns s c' = Some l' \<longleftrightarrow> (\<exists>cs. link_conns s l' = Some cs \<and> c' \<in> set cs)"
      using inv by (simp add: cm_inv_def conn_ok_def)
    ultimately show "conns ?s c' = Some l' \<longleftrightarrow> (\<exists>cs. link_conns ?s l' = Some cs \<and> c' \<in> set cs)"
      using Some by (auto simp: upd_link_def link_conns_def)
  qed
  moreover have "life_ok ?s" using inv st by (simp add: cm_inv_def life_ok_def upd_link_def)
  ultimately have "cm_inv ?s" using ok by (simp add: cm_inv_def)
  then show ?thesis using r Some by (auto simp: openConnection_def cm_inv_call)
qed (use r inv in \<open>auto simp: openConnection_def\<close>)

text \<open>Closing leaves every other connection alone and keeps the links.\<close>

lemma closeConnection_step:
  assumes inv: "cm_inv s" and st: "state s = ACTIVATED"
  shows "\<exists>x s1. closeConnection h c s = (Inr x, s1) \<and> cm_inv s1 \<and> state s1 = ACTIVATED \<and>
     conns s1 = (conns s)(c := None) \<and> (\<forall>l. (links s1 l = None) = (links s l = None)) \<and>
     link_order s1 = link_order s"
proof (cases "conns s c")
  case None
  then have "(conns s)(c := None) = conns s" by auto
  with None inv st show ?thesis by (simp add: closeConnection_def)
next
  case (Some l)
  obtain lk where lk: "links s l = Some lk" "c \<in> set (connections lk)"
    using conn_okD [OF _ Some] inv by (auto simp: cm_inv_def)
  let ?s = "upd_link l (\<lambda>lk. lk\<lparr>connections := removeAll c (connections lk)\<rparr>) s"
  let ?t = "?s\<lparr>conns := (conns s)(c := None)\<rparr>"
  have "pm_le ?t s" by (rule pm_le_trans [OF pm_le_fields(15) pm_le_upd_link]) auto
  then have ok: "pm_ok ?t" using inv pm_ok_le by (auto simp: cm_inv_def)
  have "conn_ok ?t"
    unfolding conn_ok_def
  proof (intro allI)
    fix c' l'
    have a: "conns s c' = Some l' \<longleftrightarrow> (\<exists>cs. link_conns s l' = Some cs \<and> c' \<in> set cs)" for c' l'
      using inv by (simp add: cm_inv_def conn_ok_def)
    have b: "(\<exists>cs. link_conns s l' = Some cs \<and> c \<in> set cs) \<Longrightarrow> l' = l"
      using Some by (simp add: a [symmetric])
    show "conns ?t c' = Some l' \<longleftrightarrow> (\<exists>cs. link_conns ?t l' = Some cs \<and> c' \<in> set cs)"
    proof (cases "c' = c")
      case True
      then show ?thesis using b lk by (auto simp: upd_link_def link_conns_def)
    next
      case False
      then show ?thesis using a [of c' l'] by (auto simp: upd_link_def link_conns_def)
    qed
  qed
  moreover have "life_ok ?t" using inv st by (simp add: cm_inv_def life_ok_def upd_link_def)
  ultimately have t: "cm_inv ?t" using ok by (simp add: cm_inv_def)
  have "closeConnection h c s = (Inr OK, call (SdkOnConnectionStatusChanged h c CONNECTION_CLOSED
      (link_properties lk)) ?t)"
    using Some lk(1) by (simp add: closeConnection_def Let_def call_def upd_link_def)
  then show ?thesis using t st lk(1)
    by (auto simp: cm_inv_call) (auto simp: call_def upd_link_def split: if_splits)
qed

lemma close_connections_inv:
  assumes "cm_inv s" "state s = ACTIVATED"
  shows "\<exists>s1. close_connections cs s = (None, s1) \<and> cm_inv s1 \<and> state s1 = ACTIVATED \<and>
     (\<forall>c. conns s1 c = (if c \<in> set cs then None else conns s c)) \<and>
     (\<forall>l. (links s1 l = None) = (links s l = None))"
  using assms
proof (induction cs arbitrary: s)
  case (Cons c cs)
  from closeConnection_step [OF Cons.prems, of 0 c] obtain x s1 where
    s1: "closeConnection 0 c s = (Inr x, s1)" "cm_inv s1" "state s1 = ACTIVATED"
      "conns s1 = (conns s)(c := None)" "\<forall>l. (links s1 l = None) = (links s l = None)" by blast
  from Cons.IH [OF s1(2,3)] s1 show ?case by auto
qed auto

lemma put_link_ok:
  assumes "pm_ok s" "l \<noteq> []" "packageQueue lk = []"
  shows "pm_ok (put_link l lk s)"
proof -
  have "pkg_wf (put_link l lk s) = pkg_wf s" by (rule ext) (simp add: pkg_wf_def put_link_def)
  moreover have "act_wf (put_link l lk s) = act_wf s"
    by (rule ext) (simp add: act_wf_def put_link_def isLastFragment_def pkg_of_def filled_bytes_def
        max_bytes_def)
  ultimately show ?thesis using assms by (auto simp: pm_ok_def put_link_def)
qed

lemma erase_link_inv:
  assumes inv: "cm_inv s" and st: "state s = ACTIVATED" and none: "\<forall>c. conns s c \<noteq> Some l"
  shows "cm_inv (erase_link l s)"
proof -
  have "pm_le (erase_link l s) s" by (auto simp: pm_le_def erase_link_def link_le_def)
  then have "pm_ok (erase_link l s)" using inv pm_ok_le by (auto simp: cm_inv_def)
  moreover have "conn_ok (erase_link l s)"
    using inv none by (auto simp: cm_inv_def conn_ok_def link_conns_def erase_link_def)
  moreover have "life_ok (erase_link l s)"
    using inv st by (simp add: cm_inv_def life_ok_def erase_link_def)
  ultimately show ?thesis by (simp add: cm_inv_def)
qed

lemma link_onLinkStatusChanged_inv:
  assumes inv: "cm_inv s" and st: "state s = ACTIVATED" and l: "l \<noteq> []"
    and new: "status = LINK_CREATED \<or> status = LINK_LOADED \<Longrightarrow> links s l = None"
    and r: "link_onLinkStatusChanged E h l status params s = (res, s1)"
  shows "cm_inv s1"
proof (cases "status = LINK_CREATED \<or> status = LINK_LOADED")
  case True
  let ?s = "put_link l (new_link E l) (call (UserModelAddLink l params) s)"
  have ok: "pm_ok ?s" using inv l put_link_ok by (simp add: cm_inv_def pm_ok_field new_link_def)
  have "\<not> (\<exists>c. conns s c = Some l)"
    using inv new [OF True] by (auto simp: cm_inv_def conn_ok_def link_conns_def)
  then have "conn_ok ?s" using inv new [OF True]
    by (auto simp: cm_inv_def conn_ok_def link_conns_def put_link_def new_link_def call_def)
  moreover have "life_ok ?s" using inv st by (simp add: cm_inv_def life_ok_def put_link_def call_def)
  ultimately have "cm_inv ?s" using ok by (simp add: cm_inv_def)
  then show ?thesis using r True by (auto simp: link_onLinkStatusChanged_def Let_def cm_inv_call)
next
  case not_new: False
  show ?thesis
  proof (cases "status = LINK_DESTROYED \<and> links s l \<noteq> None")
    case True
    then obtain lk where lk: "links s l = Some lk" by auto
    from close_connections_inv [OF inv st, of "connections lk"] obtain s2 where
      s2: "close_connections (connections lk) s = (None, s2)" "cm_inv s2" "state s2 = ACTIVATED"
        "\<forall>c. conns s2 c = (if c \<in> set (connections lk) then None else conns s c)" by blast
    have "\<forall>c. conns s2 c \<noteq> Some l"
      using s2(4) inv lk by (auto simp: cm_inv_def elim: conn_okD)
    from erase_link_inv [OF s2(2,3) this] show ?thesis
      using r True s2(1) lk not_new by (auto simp: link_onLinkStatusChanged_def Let_def cm_inv_call)
  next
    case False
    then show ?thesis using r not_new inv
      by (auto simp: link_onLinkStatusChanged_def Let_def cm_inv_call split: if_splits sum.splits)
  qed
qed

section \<open>Every step keeps the invariant\<close>

lemma expect_state_single: "expect_state (state_bit st) s \<longleftrightarrow> state s = st"
  by (cases "state s"; cases st) (simp_all add: expect_state_def push_bit_eq_mult)

lemmas expect_state_simps [simp] = expect_state_single [of ACTIVATED, simplified]
  expect_state_single [of UNACTIVATED, simplified] expect_state_single [of INITIALIZING, simplified]

lemma expect_state_components:
  "expect_state components_mask s \<longleftrightarrow>
     state s = CREATING_COMPONENTS \<or> state s = WAITING_FOR_COMPONENTS \<or> state s = ACTIVATED"
  by (cases "state s") (simp_all add: expect_state_def components_mask_def push_bit_eq_mult)

lemma expect_deactivate_always [simp]: "expect_deactivate s"
  by (cases "state s") (simp_all add: expect_deactivate_def push_bit_eq_mult)

text \<open>What the guarded handlers that touch neither components nor connections have in common.\<close>

lemma base_step:
  assumes "cm_inv s" "f s = (res, s1)" "pm_ok (snd (f s))" "base (snd (f s)) = base s"
  shows "pm_ok s1 \<and> cm_inv s1"
proof -
  have "pm_ok s1" "base s1 = base s" using assms(2-4) by simp_all
  with cm_inv_base [of s1 s] assms(1) show ?thesis by (simp add: cm_inv_def)
qed

lemma guarded_cases:
  "guarded m f s = (res, s1) \<Longrightarrow>
     expect_state m s \<and> f s = (res, s1) \<or> res = Inr ERROR \<and> s1 = s"
  by (simp add: guarded_def split: if_splits)

lemma guarded_channel_cases:
  "guarded_channel E gid m f s = (res, s1) \<Longrightarrow>
     expect_state m s \<and> gid = env_compositionId E \<and> f s = (res, s1) \<or> res = Inr ERROR \<and> s1 = s"
  by (simp add: guarded_channel_def split: if_splits)

text \<open>What a request leaves behind: a result other than a failure keeps the whole invariant.\<close>

definition kept :: "(exn + cm_internal_status) \<times> cm \<Rightarrow> bool" where
  "kept r \<longleftrightarrow> pm_ok (snd r) \<and> (\<forall>st. fst r = Inr st \<longrightarrow> st \<noteq> FATAL \<longrightarrow> cm_inv (snd r))"

lemma keptI: "cm_inv (snd r) \<Longrightarrow> kept r"
  by (simp add: kept_def cm_inv_def)

lemma kept_guarded:
  assumes "cm_inv s" "expect_state m s \<Longrightarrow> kept (f s)"
  shows "kept (guarded m f s)" "kept (guarded_channel E gid m f s)"
  using assms by (auto simp: guarded_def guarded_channel_def intro: keptI)

lemma kept_base: "cm_inv s \<Longrightarrow> pm_ok (snd r) \<Longrightarrow> base (snd r) = base s \<Longrightarrow> kept r"
  by (rule keptI) (rule cm_inv_base)

lemma lift_status_snd [simp]: "snd (lift_status r) = snd r"
  by (simp add: lift_status_def)

lemma kept_link_status:
  assumes inv: "cm_inv s" and st: "state s = ACTIVATED"
    and ok: "l \<noteq> []" "status = LINK_CREATED \<or> status = LINK_LOADED \<Longrightarrow> links s l = None"
  shows "kept (internal_onLinkStatusChanged E h l status params s)"
proof -
  let ?s1 = "snd (package_onLinkStatusChanged l status s)"
  let ?s2 = "snd (action_onLinkStatusChanged l status ?s1)"
  have "pm_ok ?s2"
    using inv by (intro action_onLinkStatusChanged_ok) (auto simp: cm_inv_def intro: pm_ok_le [OF pm_le_package_onLinkStatusChanged])
  moreover have b: "base ?s2 = base s" by simp
  ultimately have "cm_inv ?s2" using inv cm_inv_base by blast
  moreover have "state ?s2 = ACTIVATED" "(links ?s2 l = None) = (links s l = None)"
    using base_eqD(1,7) [OF b] st by simp_all
  ultimately have "cm_inv (snd (link_onLinkStatusChanged E h l status params ?s2))"
    using link_onLinkStatusChanged_inv ok by (metis prod.collapse)
  then show ?thesis using inv by (auto simp: internal_onLinkStatusChanged_def intro: keptI)
qed


lemma base_userInput [simp]:
  "base (s\<lparr>userInputMap := m\<rparr>) = base s" "pm_ok (s\<lparr>userInputMap := m\<rparr>) = pm_ok s"
proof -
  show "base (s\<lparr>userInputMap := m\<rparr>) = base s" by (simp add: base_def)
  have "pm_le (s\<lparr>userInputMap := m\<rparr>) s" "pm_le s (s\<lparr>userInputMap := m\<rparr>)" by (simp_all add: pm_le_def)
  then show "pm_ok (s\<lparr>userInputMap := m\<rparr>) = pm_ok s" using pm_ok_le by blast
qed

lemma kept_user_input:
  assumes "cm_inv s"
  shows "kept (internal_onUserInputReceived h answered response s)"
    "kept (internal_requestUserInput c cid sh p s)"
  using assms
  by (auto simp: internal_onUserInputReceived_def internal_requestUserInput_def cm_inv_def pm_ok_field
      Let_def intro!: kept_base [of s] split: option.split)

lemma kept_deactivate: "cm_inv s \<Longrightarrow> kept (internal_deactivateChannel E h gid s)"
proof (rule keptI)
  assume i: "cm_inv s"
  let ?s = "lifetime_deactivateChannel h gid s"
  have "cm_inv ?s" using i deactivate_inv by (auto simp: cm_inv_def)
  moreover have "pm_ok (joinActionThread ?s)"
    using \<open>cm_inv ?s\<close> by (auto simp: cm_inv_def joinActionThread_def intro: pm_ok_le [rotated] simp: pm_le_def)
  moreover have "base (joinActionThread ?s) = base ?s" by (simp add: joinActionThread_def base_def)
  ultimately show "cm_inv (snd (internal_deactivateChannel E h gid s))"
    using i cm_inv_base by (auto simp: internal_deactivateChannel_def)
qed

lemmas entry_point_defs =
  internal_init_def internal_openConnection_def internal_closeConnection_def
  internal_createLink_def internal_loadLinkAddress_def internal_loadLinkAddresses_def
  internal_createLinkFromAddress_def internal_destroyLink_def internal_activateChannel_def
  internal_onUserAcknowledgementReceived_def internal_requestPluginUserInput_def
  internal_requestCommonUserInput_def internal_updateState_def internal_onBytesEncoded_def
  internal_onBytesDecoded_def internal_onPackageStatusChanged_def internal_onEvent_def
  internal_onReceive_def internal_onTimelineUpdated_def internal_markFailed_def

declare entry_point_defs [simp]

text \<open>Every request keeps the invariant, or ends in a failure that keeps \<open>pm_ok\<close>.\<close>

lemma dispatch_kept:
  assumes inv: "cm_inv s" and ok: "request_ok s r"
  shows "kept (dispatch E r s)"
proof (cases r)
  case ReqInit
  have "pm_le (s\<lparr>state := UNACTIVATED\<rparr>) s" by (simp add: pm_le_def)
  from pm_ok_le [OF this] have "state s = INITIALIZING \<Longrightarrow> cm_inv (s\<lparr>state := UNACTIVATED\<rparr>)"
    using inv by (auto simp: cm_inv_def life_ok_def conn_ok_def link_conns_def)
  then show ?thesis
    using inv expect_state_single [of INITIALIZING s] by (auto simp: ReqInit kept_def cm_inv_def)
next
  case (ReqOpenConnection h l c)
  then show ?thesis
    using inv ok openConnection_inv [OF inv _ _ prod.collapse [symmetric], of c h l]
    by (auto intro!: keptI simp: request_ok_def guarded_def)
next
  case (ReqCloseConnection h c)
  then show ?thesis using inv closeConnection_step [OF inv, of h c]
    by (auto intro!: keptI simp: guarded_def)
next
  case (ReqActivateChannel h gid role)
  have "state s = UNACTIVATED \<Longrightarrow> kept (lifetime_activateChannel E h role s)"
    using activateChannel_inv [OF inv _ prod.collapse [symmetric], of E h role] by (auto simp: kept_def)
  then show ?thesis using inv by (auto simp: ReqActivateChannel intro!: kept_guarded)
next
  case (ReqUpdateState cid st)
  show ?thesis unfolding ReqUpdateState dispatch.simps internal_updateState_def
  proof (rule kept_guarded [OF inv])
    assume "expect_state components_mask s"
    then have "state s = WAITING_FOR_COMPONENTS \<or> state s = ACTIVATED"
      using inv by (auto simp: expect_state_components cm_inv_def life_ok_def)
    from updateState_inv [OF inv this, of E cid st] show "kept (lifetime_updateState E cid st s)"
      unfolding kept_def by (metis prod.collapse)
  qed
next
  case (ReqOnLinkStatusChanged h l st params)
  show ?thesis
  proof (cases "state s = ACTIVATED")
    case True
    with ok ReqOnLinkStatusChanged inv show ?thesis
      by (auto intro!: kept_link_status simp: request_ok_def)
  next
    case False
    with inv ReqOnLinkStatusChanged show ?thesis
      by (auto simp: internal_onLinkStatusChanged_def expect_state_single intro: keptI)
  qed
next
  case (ReqOnBytesEncoded h b st)
  then show ?thesis using inv
    by (auto intro!: kept_base [OF inv] pm_ok_le [OF pm_le_onBytesEncoded] simp: guarded_def cm_inv_def)
next
  case (ReqOnBytesDecoded h b st)
  then show ?thesis using inv
    by (auto intro!: kept_base [OF inv] pm_ok_le [OF pm_le_onBytesDecoded] simp: guarded_def cm_inv_def)
next
  case (ReqOnPackageStatusChanged h st)
  then show ?thesis using inv
    by (auto intro!: kept_base [OF inv] onPackageStatusChanged_ok simp: guarded_def cm_inv_def)
next
  case (ReqOnReceive l params b)
  then show ?thesis using inv
    by (auto intro!: kept_base [OF inv] pm_ok_le [OF pm_le_receive(2)] simp: guarded_def cm_inv_def)
next
  case ReqOnTimelineUpdated
  then show ?thesis using inv
    by (auto intro!: kept_base [OF inv] onTimelineUpdated_ok simp: guarded_def cm_inv_def)
next
  case ReqMarkFailed
  then show ?thesis using inv fail_inv by (auto intro!: keptI simp: cm_inv_def)
qed (use inv in \<open>auto intro!: keptI kept_user_input kept_deactivate simp: guarded_def
  guarded_channel_def createLink_def loadLinkAddress_def loadLinkAddresses_def createLinkFromAddress_def destroyLink_def cm_inv_call\<close>)

lemma posted_inv:
  assumes inv: "cm_inv s" and ok: "request_ok s r" and p: "posted E r s = Some s'"
  shows "cm_inv s'"
proof -
  obtain res s1 where d: "dispatch E r s = (res, s1)" by fastforce
  have k: "pm_ok s1" "res = Inr st \<Longrightarrow> st \<noteq> FATAL \<Longrightarrow> cm_inv s1" for st
    using dispatch_kept [OF inv ok, of E] by (simp_all add: d kept_def)
  let ?st = "case res of Inl e \<Rightarrow> FATAL | Inr st \<Rightarrow> st"
  have "cm_inv (if ?st = FATAL then fail E s1 else s1)"
    using k fail_inv by (auto split: sum.split)
  then show ?thesis using p by (auto simp: posted_def d Let_def cm_inv_call split: if_splits)
qed


lemma internal_sendPackage_inv:
  assumes inv: "cm_inv s" and r: "internal_sendPackage E h c pkg s = (res, s1)"
  shows "cm_inv s1"
proof -
  obtain now s0 where ct: "currentTime s = (now, s0)" by fastforce
  then have s0: "base s0 = base s" "pm_ok s0"
    using inv by (auto simp: currentTime_def base_def cm_inv_def intro!: pm_ok_le [of _ s] simp: pm_le_def)
  obtain x s2 where a: "action_onSendPackage E now c pkg s0 = (x, s2)" by fastforce
  have s2: "base s2 = base s" "pm_ok s2"
    using base_action_onSendPackage [of E now c pkg s0] action_onSendPackage_ok [OF s0(2), of E now c pkg]
      s0(1) by (simp_all add: a)
  have "pm_ok (snd (sendPackage now h c pkg s2))" "base (snd (sendPackage now h c pkg s2)) = base s"
    using sendPackage_ok [OF s2(2)] s2(1) by simp_all
  then have "cm_inv (snd (sendPackage now h c pkg s2))" using cm_inv_base inv by blast
  then show ?thesis
    using r inv cm_inv_base [OF s2(2,1) inv]
    by (auto simp: internal_sendPackage_def ct a split: if_splits sum.splits)
qed

lemma internal_shutdown_inv:
  assumes inv: "cm_inv s" and r: "internal_shutdown E s = (res, s1)"
  shows "cm_inv s1"
proof -
  have down: "cm_inv (t\<lparr>state := SHUTTING_DOWN\<rparr>)"
    if t: "cm_inv t" "\<not> has_transport t" "\<not> has_usermodel t" "encodings t = []" for t
  proof -
    have "pm_le (t\<lparr>state := SHUTTING_DOWN\<rparr>) t" by (simp add: pm_le_def)
    from pm_ok_le [OF this] t show ?thesis
      by (auto simp: cm_inv_def life_ok_def conn_ok_def link_conns_def split: if_splits)
  qed
  let ?s = "snd (internal_deactivateChannel E 0 (env_compositionId E) s)"
  have "cm_inv ?s"
    using kept_deactivate [OF inv, of E 0 "env_compositionId E"]
    by (simp add: kept_def internal_deactivateChannel_def)
  moreover have "\<not> has_transport ?s" "\<not> has_usermodel ?s" "encodings ?s = []"
    by (simp_all add: internal_deactivateChannel_def lifetime_deactivateChannel_def joinActionThread_def
        call_def)
  ultimately show ?thesis
    using r inv down [of ?s] down [of s] by (auto simp: internal_shutdown_def Let_def split: if_splits)
qed

lemma cm_step_inv: "cm_step s s' \<Longrightarrow> cm_inv s \<Longrightarrow> cm_inv s'"
proof (induction rule: cm_step.induct)
  case (step_thread E now s s')
  obtain x s1 where a: "actionThreadLogic E now s = (x, s1)" by fastforce
  have "pm_ok s" using step_thread.prems by (simp add: cm_inv_def)
  from actionThreadLogic_ok [OF this, of E now] have ok: "pm_ok s1" by (simp add: a)
  have b: "base s1 = base s" using base_actionThreadLogic [of E now s] by (simp add: a)
  have "pm_le (s1\<lparr>action_thread := False\<rparr>) s1" by (simp add: pm_le_def)
  note ok2 = pm_ok_le [OF this ok]
  have b2: "base (s1\<lparr>action_thread := False\<rparr>) = base s" using b by (simp add: base_def)
  show ?case
    using step_thread a cm_inv_base [OF ok b] cm_inv_base [OF ok2 b2]
    by (auto simp: run_action_thread_def split: if_splits sum.splits)
next
  case (step_send E h c pkg s resp s')
  then show ?case using internal_sendPackage_inv [of s E h c pkg]
    by (auto simp: posted_sync_def split: prod.splits sum.splits if_splits)
next
  case (step_shutdown E s resp s')
  then show ?case using internal_shutdown_inv [of s E]
    by (auto simp: posted_sync_def split: prod.splits sum.splits if_splits)
qed (rule posted_inv)

lemma new_cm_inv: "cm_inv (new_cm clk)"
proof -
  have "pm_ok (new_cm clk)" by (simp add: pm_ok_def act_wf_def new_cm_def)
  then show ?thesis by (simp add: cm_inv_def life_ok_def conn_ok_def link_conns_def new_cm_def)
qed

interpretation cmanager: invariant_system "\<lambda>s. \<exists>clk. s = new_cm clk" cm_step cm_inv
  by unfold_locales (auto intro: new_cm_inv cm_step_inv)

text \<open>
  C2: In every state the manager of a decomposed channel can reach from its construction, by any
  sequence of requests, sends, shutdowns and rounds of its action thread, with components and an
  SDK that answer in any way: the fragments of every package tile it from its start without gaps;
  the fragments of an action lie inside their packages and fit in the bytes the action's encodings
  hold, and only the last one may leave the rest of its package to another action; the
  components exist exactly while the channel is waiting for them or active; and a connection is
  registered for a link exactly when the link lists it.
\<close>

theorem cm_reachable_inv:
  assumes "cm_step\<^sup>*\<^sup>* (new_cm clk) s"
  shows "pm_ok s \<and> life_ok s \<and> conn_ok s"
  using cmanager.reachable_inv [of "new_cm clk" s] assms by (auto simp: cm_inv_def)

end
