(* ===== verification/CM_Runs.thy ===== *)
theory CM_Runs
  imports CM_Transfer CM_Inv
begin

text \<open>
  Concrete runs of the manager of a decomposed channel: the witnesses of the properties, and the
  properties that are about particular runs.
\<close>

section \<open>A link with two coming actions\<close>

definition demo_params :: encoding_parameters where
  "demo_params = \<lparr>param_linkId = [], param_type = ''*/*'', encodePackage = True, param_json = []\<rparr>"

definition demo_action :: "nat \<Rightarrow> action_info" where
  "demo_action i = \<lparr>ai_action = \<lparr>timestamp = 100 + 10 * real i, actionId = word_of_nat i, action_json = []\<rparr>,
     wildcardLink = True, ai_linkId = [],
     encoding = [\<lparr>enc_params = demo_params, enc_maxBytes = 40, pendingEncodeHandle = 0,
       enc_state = E_UNENCODED\<rparr>], ai_fragments = [], toBeRemoved = False\<rparr>"

definition demo_link :: link where
  "demo_link = \<lparr>connections = [''c''], actionQueue = [0, 1], packageQueue = [], link_properties = [],
     producerId = [], fragmentCount = 0, producerQueues = (\<lambda>_. None)\<rparr>"

definition demo_cm :: cm where
  "demo_cm = (new_cm (\<lambda>_. 0))\<lparr>acts := (\<lambda>i. demo_action i), next_act := 2, actions := [0, 1],
     link_order := [''L''], links := [''L'' \<mapsto> demo_link], conns := [''c'' \<mapsto> ''L''],
     state := ACTIVATED, encodings := [''enc''], has_transport := True, has_usermodel := True,
     encodingsByType := [(''*/*'', ''enc'')]\<rparr>"

definition demo_pkg :: "u8 \<Rightarrow> enc_pkg" where
  "demo_pkg b = enc_pkg_new 1 2 [b, b, b]"

lemma demo_space: "sum_maxBytes (encoding (demo_action i)) = 40"
  by (simp add: demo_action_def sum_maxBytes_def)

definition demo_sent :: "enc_pkg list \<times> cm" where
  "demo_sent = send_all ''c'' [(1, 7, demo_pkg 10), (2, 8, demo_pkg 20), (2, 9, demo_pkg 30)] demo_cm"

lemma demo_accepted: "fst demo_sent = [demo_pkg 10, demo_pkg 20, demo_pkg 30]"
  by code_simp

lemma demo_queue: "map_option packageQueue (links (snd demo_sent) ''L'') = Some [0, 1, 2]"
  by code_simp

lemma demo_whole: "map (whole (snd demo_sent)) [0, 1, 2] = [True, True, False]"
  by code_simp

lemma demo_pkgs: "map (\<lambda>p. pk_pkg (pkgs (snd demo_sent) p)) [0, 1] = [demo_pkg 10, demo_pkg 20]"
  by code_simp

definition demo_contents :: "bytes list" where
  "demo_contents = fst (transmit [0, 1] (snd demo_sent))"

lemma demo_fresh: "fresh_link demo_cm ''c'' ''L'' demo_link"
proof -
  have "pm_ok demo_cm"
    by (simp add: pm_ok_def act_wf_def demo_cm_def new_cm_def demo_action_def demo_link_def)
  moreover have "small_packages demo_cm"
    by (simp add: small_packages_def demo_cm_def new_cm_def enc_pkg_new_def getSize_def)
  ultimately show ?thesis
    by (simp add: fresh_link_def demo_cm_def new_cm_def fragment_mode_def demo_link_def demo_action_def)
qed

lemma demo_receiver: "receiver ''L'' (producer_prefix demo_cm demo_link) (mode demo_cm) demo_params None demo_cm"
  by (simp add: receiver_def producer_prefix_def demo_cm_def new_cm_def demo_link_def
      encodingComponentFromEncodingParams_def demo_params_def mimeTypeMatches_def str_find_def
      str_substr_def)

definition demo_sends :: "(real \<times> u64 \<times> enc_pkg) list" where
  "demo_sends = [(1, 7, demo_pkg 10), (2, 8, demo_pkg 20), (2, 9, demo_pkg 30)]"

lemma demo_sends_facts:
  "sorted (map fst demo_sends)" "\<forall>(_, _, pkg) \<in> set demo_sends. getSize pkg < 2 ^ 32"
  "send_all ''c'' demo_sends demo_cm = (fst demo_sent, snd demo_sent)"
  "transmit (actionQueue demo_link) (snd demo_sent) =
     (demo_contents, snd (transmit [0, 1] (snd demo_sent)))"
  by (simp_all add: demo_sends_def demo_pkg_def enc_pkg_new_def getSize_def demo_sent_def
      demo_contents_def demo_link_def)



end
