(* ===== verification/CM_Props.thy ===== *)
theory CM_Props
  imports CM_Runs
begin

text \<open>
  Properties of the manager of a decomposed channel beside the transfer of packages: the raw form
  of packages, capacity of actions, what the receiver does with arbitrary bytes, the guards of the
  entry points, activation, shutdown and the timeline.
\<close>

section \<open>Packages\<close>

lemma nat_bytes_0 [simp]: "nat_bytes n 0 = replicate n 0"
  by (induction n) auto

text \<open>
  C24: The raw form of a package: reading back what \<open>getRawData\<close> wrote gives the package, its length
  is \<open>getSize\<close>, and raw data of at least 17 bytes is written back unchanged, while anything shorter
  becomes the empty package of 17 zero bytes.
\<close>

theorem enc_pkg_roundtrip:
  "enc_pkg_of_raw (getRawData p) = p \<and> length (getRawData p) = getSize p \<and>
   getRawData (enc_pkg_of_raw raw) = (if 17 \<le> length raw then raw else replicate 17 0)"
proof -
  have "getRawData (enc_pkg_of_raw raw) = replicate 17 0" if "\<not> 17 \<le> length raw"
    using that by (simp add: enc_pkg_of_raw_def getRawData_def le_bytes_def replicate_add [symmetric])
      (simp add: numeral_eq_Suc)
  then show ?thesis using getRawData_of_raw [of raw] by auto
qed

text \<open>
  \<open>setTraceId\<close> does not set the trace id: the package keeps it, in its raw form as well, and its
  span id is overwritten, as if \<open>setSpanId\<close> had been called.
\<close>

theorem setTraceId_sets_span:
  "take 8 (getRawData (setTraceId v p)) = take 8 (getRawData p) \<and>
   take 8 (drop 8 (getRawData (setTraceId v p))) = le_bytes v \<and> setTraceId v p = setSpanId v p"
  by (simp add: setTraceId_def setSpanId_def getRawData_def)

section \<open>Capacity\<close>

lemma length_payload: "length (fragment_payload s r) \<le> perFragmentOverhead (mode s) + fr_len (frags s r)"
proof -
  have "unat (word_of_nat (fr_len (frags s r)) :: u32) \<le> fr_len (frags s r)"
    by (simp add: unat_of_nat)
  then show ?thesis
    by (auto simp: fragment_payload_def Let_def perFragmentOverhead_def FRAGMENT_LEN_SIZE_def min_def)
qed

lemma length_content_header:
  "(mode s = FRAGMENT_MULTIPLE_PRODUCER \<Longrightarrow> length (producerId lk) \<le> 16) \<Longrightarrow>
     length (content_header s lk rs) \<le> perActionOverhead (mode s)"
  by (cases "mode s") (auto simp: content_header_def perActionOverhead_def
      FRAGMENT_SINGLE_PRODUCER_OVERHEAD_def FRAGMENT_MULTIPLE_PRODUCER_OVERHEAD_def)

text \<open>
  C25: In every reachable state the content built for an action, with its header and the length
  fields, fits in the sum of the \<open>maxBytes\<close> of the encodings of the action.
\<close>

theorem cm_content_fits:
  assumes "cm_step\<^sup>*\<^sup>* (new_cm clk) s" "ai_fragments (acts s a) \<noteq> []"
    "mode s = FRAGMENT_MULTIPLE_PRODUCER \<Longrightarrow> length (producerId lk) \<le> 16"
  shows "length (action_content s lk (ai_fragments (acts s a))) \<le> unat (sum_maxBytes (encoding (acts s a)))"
proof -
  let ?rs = "ai_fragments (acts s a)"
  have "pm_ok s" using cmanager.reachable_inv [of "new_cm clk" s] assms(1) by (auto simp: cm_inv_def)
  from act_capD(1) [OF this assms(2)] have "filled_bytes s (acts s a) \<le> max_bytes s a" .
  moreover have "length (concat (map (fragment_payload s) ?rs)) \<le>
      (\<Sum>r\<leftarrow>?rs. perFragmentOverhead (mode s) + fr_len (frags s r))"
    by (simp add: length_concat comp_def sum_list_mono length_payload)
  ultimately show ?thesis
    using length_content_header [of s lk ?rs] assms(3)
    by (simp add: action_content_def filled_bytes_def max_bytes_def)
qed

section \<open>Receiving\<close>

text \<open>What a receive operation does to the rest of the manager: deliveries to \<open>cv\<close> only.\<close>

definition delivers :: "conn_id list \<Rightarrow> cm \<Rightarrow> (exn + cm_internal_status) \<times> cm \<Rightarrow> bool" where
  "delivers cv s r \<longleftrightarrow> (\<exists>out. calls (snd r) = calls s @ map (\<lambda>p. SdkReceiveEncPkg p cv) out) \<and>
     actions (snd r) = actions s \<and> (case fst r of Inl e \<Rightarrow> True | Inr st \<Rightarrow> st = OK)"

lemma receiveFragmentProducer_delivers: "delivers cv s (receiveFragmentProducer p off l b cv s)"
proof (cases "links s l")
  case (Some lk)
  then show ?thesis
    by (auto simp: receiveFragmentProducer_def Let_def delivers_def deliver_def upd_link_def
        split: prod.split option.split)
qed (simp add: receiveFragmentProducer_def delivers_def)

lemma receive_modes_deliver:
  "delivers cv s (receiveSingle b cv s)" "delivers cv s (receiveBatch b cv s)"
  "delivers cv s (receiveFragmentSingleProducer l b cv s)"
  "delivers cv s (receiveFragmentMultipleProducer l b cv s)"
proof -
  show "delivers cv s (receiveSingle b cv s)"
    by (auto simp: receiveSingle_def delivers_def deliver_def intro: exI [of _ "[enc_pkg_of_raw b]"])
  show "delivers cv s (receiveBatch b cv s)"
    by (auto simp: receiveBatch_def delivers_def deliver_def split: prod.split option.split)
  show "delivers cv s (receiveFragmentSingleProducer l b cv s)"
    by (simp add: receiveFragmentSingleProducer_def receiveFragmentProducer_delivers)
  show "delivers cv s (receiveFragmentMultipleProducer l b cv s)"
  proof (cases "readFromBuffer 16 b 0")
    case (Inr x)
    then show ?thesis
      by (cases x) (simp add: receiveFragmentMultipleProducer_def receiveFragmentProducer_delivers)
  qed (simp add: receiveFragmentMultipleProducer_def delivers_def)
qed

text \<open>
  C26: The receiver takes any bytes from the transport without failing: \<open>onBytesDecoded\<close> returns OK or
  ERROR, never FATAL, for every handle, every decoded buffer and every state; all it tells the SDK
  are packages for the connections of the link the content came in on, nothing when the handle is
  not pending; the states of the channel, links, connections and packages to send and the
  timeline are untouched.
\<close>

theorem cm_receive_robust:
  "fst (onBytesDecoded h b st s) \<in> {OK, ERROR} \<and>
   (\<exists>out. calls (snd (onBytesDecoded h b st s)) = calls s @ map (\<lambda>p. SdkReceiveEncPkg p
        (case Option.bind (pendingDecodings s h) (links s) of None \<Rightarrow> [] | Some lk \<Rightarrow> connections lk)) out \<and>
      (case pendingDecodings s h of None \<Rightarrow> out = [] | Some _ \<Rightarrow> True)) \<and>
   base (snd (onBytesDecoded h b st s)) = base s \<and> pm_le (snd (onBytesDecoded h b st s)) s \<and>
   actions (snd (onBytesDecoded h b st s)) = actions s"
proof -
  have "fst (onBytesDecoded h b st s) \<in> {OK, ERROR} \<and> actions (snd (onBytesDecoded h b st s)) = actions s \<and>
     (\<exists>out. calls (snd (onBytesDecoded h b st s)) = calls s @ map (\<lambda>p. SdkReceiveEncPkg p
        (case Option.bind (pendingDecodings s h) (links s) of None \<Rightarrow> [] | Some lk \<Rightarrow> connections lk)) out \<and>
      (case pendingDecodings s h of None \<Rightarrow> out = [] | Some _ \<Rightarrow> True))"
  proof (cases "b = [] \<or> Option.bind (pendingDecodings s h) (links s) = None")
    case True
    then show ?thesis by (auto simp: onBytesDecoded_def bind_eq_None_conv Let_def split: option.splits)
  next
    case False
    then obtain l lk where l: "b \<noteq> []" "pendingDecodings s h = Some l" "links s l = Some lk"
      by (auto simp: bind_eq_None_conv)
    let ?s1 = "s\<lparr>pendingDecodings := (pendingDecodings s)(h := None)\<rparr>" and ?cv = "connections lk"
    obtain r s2 where r: "(case mode ?s1 of SINGLE \<Rightarrow> receiveSingle b ?cv ?s1 | BATCH \<Rightarrow> receiveBatch b ?cv ?s1
      | FRAGMENT_SINGLE_PRODUCER \<Rightarrow> receiveFragmentSingleProducer l b ?cv ?s1
      | FRAGMENT_MULTIPLE_PRODUCER \<Rightarrow> receiveFragmentMultipleProducer l b ?cv ?s1) = (r, s2)" by fastforce
    then have "delivers ?cv ?s1 (r, s2)" unfolding r [symmetric]
      by (simp add: receive_modes_deliver split: encoding_mode.split)
    then show ?thesis using l r by (auto simp: onBytesDecoded_def Let_def delivers_def split: sum.split)
  qed
  then show ?thesis using pm_le_onBytesDecoded by simp
qed

section \<open>Guards\<close>

text \<open>The requests that only make sense while the channel is active.\<close>

fun needs_active :: "request \<Rightarrow> bool" where
  "needs_active (ReqOpenConnection h l c) = True"
| "needs_active (ReqCloseConnection h c) = True"
| "needs_active (ReqCreateLink h gid l) = True"
| "needs_active (ReqLoadLinkAddress h gid addr l) = True"
| "needs_active (ReqLoadLinkAddresses h gid addrs l) = True"
| "needs_active (ReqCreateLinkFromAddress h gid addr l) = True"
| "needs_active (ReqDestroyLink h l) = True"
| "needs_active (ReqOnBytesEncoded h b st) = True"
| "needs_active (ReqOnBytesDecoded h b st) = True"
| "needs_active (ReqOnLinkStatusChanged h l st p) = True"
| "needs_active (ReqOnPackageStatusChanged h st) = True"
| "needs_active (ReqOnEvent e) = True"
| "needs_active (ReqOnReceive l p b) = True"
| "needs_active ReqOnTimelineUpdated = True"
| "needs_active _ = False"

text \<open>
  C28: Outside of the active state no request about links, connections, packages, contents or the
  timeline has any effect: it reports PLUGIN_ERROR to the SDK and leaves the manager as it was, and
  \<open>sendPackage\<close> returns PLUGIN_ERROR.
\<close>

theorem cm_guards:
  assumes "state s \<noteq> ACTIVATED" "needs_active r"
  shows "posted E r s = Some (call (SdkAsyncError PLUGIN_ERROR) s) \<and>
     posted_sync (internal_sendPackage E h c pkg) s = Some (PLUGIN_ERROR, s)"
proof
  show "posted E r s = Some (call (SdkAsyncError PLUGIN_ERROR) s)"
    using assms by (cases r) (simp_all add: posted_def guarded_def guarded_channel_def
        internal_onLinkStatusChanged_def)
  show "posted_sync (internal_sendPackage E h c pkg) s = Some (PLUGIN_ERROR, s)"
    using assms by (simp add: posted_sync_def internal_sendPackage_def)
qed

section \<open>Activation\<close>

text \<open>What the step that activates a channel has done.\<close>

definition activated_by :: "env \<Rightarrow> cm \<Rightarrow> bool" where
  "activated_by E s \<longleftrightarrow> list_all (\<lambda>(_, st). st = COMPONENT_STATE_STARTED) (componentStates s) \<and>
     action_thread s \<and> calls s \<noteq> [] \<and>
     last (calls s) = SdkOnChannelStatusChanged (activateHandle s) (env_compositionId E) CHANNEL_AVAILABLE"

lemma checkActivated_active:
  assumes "checkActivated E s = (r, s1)" "pm_ok s" "state s = WAITING_FOR_COMPONENTS"
    "state s1 = ACTIVATED" "r = None"
  shows "activated_by E s1"
proof -
  let ?a = "s\<lparr>state := ACTIVATED\<rparr>"
  obtain r2 s2 where u: "setup_cm E ?a = (r2, s2)" by fastforce
  have "pm_le (lifetime_setup E ?a) s" by (simp add: pm_le_def lifetime_setup_def)
  from action_setup_inv(2) [OF pm_ok_le [OF this assms(2)], of E] have
    "base s2 = base (lifetime_setup E ?a)" using u by (simp add: setup_cm_def)
  from base_eqD(8,9) [OF this] have "componentStates s2 = componentStates s" "activateHandle s2 = activateHandle s"
    by (simp_all add: lifetime_setup_def)
  moreover have "r2 = None \<Longrightarrow> action_thread s2"
    using u by (auto simp: setup_cm_def action_setup_def split: prod.splits option.splits)
  ultimately show ?thesis
    using assms u by (auto simp: checkActivated_def activated_by_def call_def split: if_splits option.splits)
qed

lemma updateState_active:
  assumes "lifetime_updateState E cid st s = (Inr x, s1)" "pm_ok s" "state s1 = ACTIVATED" "state s \<noteq> ACTIVATED"
  shows "x = OK \<and> activated_by E s1"
proof -
  let ?s = "s\<lparr>componentStates := AList.update cid st (componentStates s)\<rparr>"
  obtain r2 s2 where k: "checkActivated E ?s = (r2, s2)" by fastforce
  have "pm_ok ?s" using pm_ok_le [OF pm_le_fields(16) assms(2)] .
  have "state (fail E ?s) = FAILED" by (simp add: fail_def call_def)
  then have "x = OK \<and> r2 = None \<and> s2 = s1"
    using assms k by (auto simp: lifetime_updateState_def Let_def split: if_splits option.splits)
  moreover from this have "state ?s = WAITING_FOR_COMPONENTS"
    using k assms(3,4) by (auto simp: checkActivated_def split: if_splits)
  ultimately show ?thesis using checkActivated_active [OF k \<open>pm_ok ?s\<close>] assms(3) by blast
qed

lemma activateChannel_active:
  assumes "lifetime_activateChannel E h role s = (Inr x, s1)" "pm_ok s" "state s1 = ACTIVATED"
  shows "x = OK \<and> activated_by E s1"
proof -
  let ?t = "env_transport E" and ?u = "env_usermodel E"
  let ?s1 = "s\<lparr>activateHandle := h, state := CREATING_COMPONENTS,
     componentStates := AList.update ?t COMPONENT_STATE_INIT (componentStates s)\<rparr>"
  let ?s2 = "?s1\<lparr>has_transport := True, idComponentMap := List.insert ?t (idComponentMap ?s1),
     wrappers := wrappers ?s1 @ [?t],
     componentStates := AList.update ?u COMPONENT_STATE_INIT (componentStates ?s1)\<rparr>"
  let ?s3 = "?s2\<lparr>has_usermodel := True, idComponentMap := List.insert ?u (idComponentMap ?s2),
     wrappers := wrappers ?s2 @ [?u]\<rparr>"
  obtain b s4 where ce: "create_encodings E role (env_encodings E) ?s3 = (b, s4)" by fastforce
  note fr = create_encodings_frame [OF ce]
  have "pm_le ?s3 s" by (simp add: pm_le_def)
  then have "pm_ok s4" using fr pm_ok_le assms(2) by blast
  then have ok: "pm_ok (s4\<lparr>state := WAITING_FOR_COMPONENTS\<rparr>)" by (simp add: pm_ok_field)
  obtain r5 s5 where k: "checkActivated E (s4\<lparr>state := WAITING_FOR_COMPONENTS\<rparr>) = (r5, s5)" by fastforce
  have "state s4 = CREATING_COMPONENTS" using fr by simp
  then have "x = OK \<and> r5 = None \<and> s5 = s1"
    using assms(1,3) ce k by (auto simp: lifetime_activateChannel_def Let_def split: if_splits option.splits bool.splits)
  then show ?thesis using checkActivated_active [OF k ok] assms(3) by simp
qed

lemma dispatch_active:
  assumes "dispatch E r s = (Inr x, s1)" "cm_inv s" "state s \<noteq> ACTIVATED" "state s1 = ACTIVATED"
  shows "x = OK \<and> activated_by E s1"
proof (cases r)
  case (ReqActivateChannel h gid role)
  then show ?thesis using assms activateChannel_active [of E h role s x s1]
    by (auto simp: guarded_channel_def cm_inv_def split: if_splits)
next
  case (ReqUpdateState cid st)
  then show ?thesis using assms updateState_active [of E cid st s x s1]
    by (auto simp: guarded_def cm_inv_def split: if_splits)
qed (use assms in \<open>auto simp: guarded_def guarded_channel_def internal_onLinkStatusChanged_def
  internal_onUserInputReceived_def internal_requestUserInput_def internal_deactivateChannel_def
  lifetime_deactivateChannel_def joinActionThread_def fail_def call_def Let_def split: if_splits option.splits\<close>)


section \<open>Shutdown\<close>


text \<open>
  Deactivation is not guarded: in every state, failed, shutting down or never initialised, a
  request to deactivate the channel succeeds and leaves the manager unactivated, ready to be activated. (The guard
  EXPECT_STATE(WAITING_FOR_COMPONENTS | ACTIVATED) does not put its argument in parentheses and always holds.)
\<close>

theorem cm_deactivate_unguarded:
  "\<exists>s'. posted E (ReqDeactivateChannel h (env_compositionId E)) s = Some s' \<and> state s' = UNACTIVATED \<and>
     SdkAsyncError PLUGIN_ERROR \<notin> set (drop (length (calls s)) (calls s'))"
  by (simp add: posted_def internal_deactivateChannel_def lifetime_deactivateChannel_def joinActionThread_def
      call_def)

end
