(* ===== verification/CM_Timeline.thy ===== *)
theory CM_Timeline
  imports CM_Inv "HOL-Library.Product_Lexorder"
begin

text \<open>
  The timeline of a decomposed channel: what \<open>updateTimeline\<close> makes of the actions it has and the
  actions the user model wants, as a merge of two sorted lists.
\<close>

section \<open>What sharing out the actions leaves alone\<close>

text \<open>The part of the state that decides which actions there are and when.\<close>

definition sched :: "cm \<Rightarrow> action_ref list \<times> (action_ref \<Rightarrow> action \<times> bool) \<times> nat \<times> real \<times> real" where
  "sched s = (actions s, (\<lambda>r. (ai_action (acts s r), toBeRemoved (acts s r))), next_act s,
     maxEncodingTime s, lastEncodeTime s)"

lemma sched_simps [simp]:
  "sched (call c s) = sched s"
  "sched (upd_frag r ff s) = sched s"
  "sched (upd_pkg p fp s) = sched s"
  "sched (upd_link l fl s) = sched s"
  "sched (erase_fragments rs s) = sched s"
  "sched (mark_fragment r s) = sched s"
  "sched (add_fragment l p a off n s) = sched s"
  "sched (s\<lparr>clock_reads := cr\<rparr>) = sched s"
  "sched (s\<lparr>links := ls\<rparr>) = sched s"
  "sched (s\<lparr>nextFetchTime := t\<rparr>) = sched s"
  "sched (s\<lparr>nextActionTime := t\<rparr>) = sched s"
  "sched (s\<lparr>nextEncodeTime := t\<rparr>) = sched s"
  by (simp_all add: sched_def call_def upd_frag_def upd_pkg_def upd_link_def
      erase_fragments_def mark_fragment_def add_fragment_def Let_def fun_eq_iff)

lemma sched_fold: "(\<And>x s. sched (f x s) = sched s) \<Longrightarrow> sched (fold f xs s) = sched s"
  by (induction xs arbitrary: s) auto

lemma sched_fold_snd:
  "(\<And>x st. sched (snd (f x st)) = sched (snd st)) \<Longrightarrow> sched (snd (fold f xs st)) = sched (snd st)"
  by (induction xs arbitrary: st) auto

lemma sched_upd_act:
  "(\<And>a. ai_action (f a) = ai_action a \<and> toBeRemoved (f a) = toBeRemoved a) \<Longrightarrow> sched (upd_act r f s) = sched s"
  by (simp add: sched_def upd_act_def fun_eq_iff)

lemma sched_unassign [simp]: "sched (unassign_action a s) = sched s"
  by (simp add: unassign_action_def sched_upd_act sched_fold)

lemma sched_reset_action [simp]: "sched (reset_action now a s) = sched s"
  by (simp add: reset_action_def sched_upd_act)

lemma sched_removeMarked [simp]: "sched (removeMarked_package p s) = sched s"
  by (simp add: removeMarked_package_def Let_def)

lemma sched_reset_link [simp]: "sched (reset_link now l s) = sched s"
  by (simp add: reset_link_def removeMarkedFragments_def sched_fold split: option.split)

lemma sched_generate_loop [simp]: "sched (snd (generate_loop now l p as off s)) = sched s"
  by (induction now l p as off s rule: generate_loop.induct) (simp_all add: Let_def)

lemma sched_generate [simp]: "sched (snd (generateFragmentsForPackage now l lk p s)) = sched s"
  by (simp add: generateFragmentsForPackage_def Let_def)

lemma sched_assign_step [simp]: "sched (snd (assign_step now i l st)) = sched (snd st)"
proof -
  have "sched s1 = sched s" if "generateFragmentsForPackage now l lk p s = (b, s1)" for lk p s b s1
    using sched_generate [of now l lk p s] by (simp add: that)
  then show ?thesis
    by (cases st) (auto simp: assign_step_def Let_def split: option.split prod.split bool.split)
qed

lemma sched_assign_packages [simp]: "sched (snd (assign_packages now s)) = sched s"
  by (simp add: assign_packages_def sched_fold_snd)

lemma sched_generateAll [simp]: "sched (generateFragmentsForAllPackages s) = sched s"
proof -
  have u: "sched (unblock_connections full l s) = sched s" for full l s
    by (simp add: unblock_connections_def sched_fold split: option.split)
  have "sched s2 = sched s1" if "assign_packages now s1 = (full, s2)" for now s1 full s2
    using sched_assign_packages [of now s1] by (simp add: that)
  then show ?thesis
    by (auto simp: generateFragmentsForAllPackages_def currentTime_def sched_fold u split: prod.split)
qed

lemma sched_updateLinkTimelines [simp]: "sched (updateLinkTimelines s) = sched s"
  by (simp add: updateLinkTimelines_def updatedActions_def set_link_queues_def)

lemma sched_timestamps [simp]:
  "sched (updateActionTimestamp s) = sched s" "sched (updateEncodeTimestamp s) = sched s"
  by (simp_all add: updateActionTimestamp_def updateEncodeTimestamp_def)

lemma sched_eqD:
  assumes "sched s' = sched s"
  shows "actions s' = actions s" "ai_action (acts s' r) = ai_action (acts s r)"
    "toBeRemoved (acts s' r) = toBeRemoved (acts s r)" "next_act s' = next_act s"
    "maxEncodingTime s' = maxEncodingTime s" "lastEncodeTime s' = lastEncodeTime s"
  using assms by (auto simp: sched_def dest: fun_cong [of _ _ r])


section \<open>Merging\<close>

definition key :: "action \<Rightarrow> real \<times> u64" where
  "key a = (timestamp a, actionId a)"

abbreviation key_of :: "cm \<Rightarrow> action_ref \<Rightarrow> real \<times> u64" where
  "key_of s r \<equiv> key (ai_action (acts s r))"

lemma action_lt_key: "action_lt a b \<longleftrightarrow> key a < key b"
  by (auto simp: action_lt_def key_def less_prod_simp)

lemma not_lt_key: "\<not> action_lt a b \<Longrightarrow> \<not> action_lt b a \<Longrightarrow> key a = key b"
  by (simp add: action_lt_key)

lemma action_params_loop_frame:
  "action_params_loop E s ps info = Inr info' \<Longrightarrow>
     ai_action info' = ai_action info \<and> toBeRemoved info' = toBeRemoved info"
  by (induction E s ps info rule: action_params_loop.induct)
    (auto simp: Let_def split: if_splits option.splits)

lemma createActionInfo_new:
  assumes "createActionInfo E a s = (Inr r, s1)"
  shows "r = next_act s" "next_act s1 = Suc (next_act s)" "\<And>q. q \<noteq> r \<Longrightarrow> acts s1 q = acts s q"
    "ai_action (acts s1 r) = a" "\<not> toBeRemoved (acts s1 r)"
  using assms by (auto simp: createActionInfo_def Let_def dest: action_params_loop_frame split: sum.splits if_splits)

lemma keep_action_frame:
  "next_act (keep_action m r s) = next_act s" "ai_action (acts (keep_action m r s) q) = ai_action (acts s q)"
  "toBeRemoved (acts (keep_action m r s) q) = (toBeRemoved (acts s q) \<or> m \<and> q = r)"
  by (auto simp: keep_action_def upd_act_def)

text \<open>The successful runs of the merge, as a relation: a new action, an old one, or one that is both.\<close>

inductive merges :: "env \<Rightarrow> bool \<Rightarrow> action_ref list \<Rightarrow> action list \<Rightarrow> cm \<Rightarrow> action_ref list \<Rightarrow> cm \<Rightarrow> bool"
  for E m where
  merges_end: "merges E m [] [] s [] s"
| merges_new: "xs = [] \<or> key n < key_of s (hd xs) \<Longrightarrow> createActionInfo E n s = (Inr r, s1) \<Longrightarrow>
    merges E m xs ns s1 rs s2 \<Longrightarrow> merges E m xs (n # ns) s (r # rs) s2"
| merges_old: "ns = [] \<or> key_of s x < key (hd ns) \<Longrightarrow> merges E m xs ns (keep_action m x s) rs s2 \<Longrightarrow>
    merges E m (x # xs) ns s (x # rs) s2"
| merges_both: "key_of s x = key n \<Longrightarrow> merges E m xs ns s rs s2 \<Longrightarrow>
    merges E m (x # xs) (n # ns) s (x # rs) s2"

lemma merge_actions_merges:
  "merge_actions E m xs ns s = (Inr rs, s1) \<Longrightarrow> merges E m xs ns s rs s1"
proof (induction E m xs ns s arbitrary: rs s1 rule: merge_actions.induct)
  case (2 E m n ns s)
  then show ?case
    by (auto split: sum.splits prod.splits intro: merges_new)
next
  case (3 E m x xs s)
  then show ?case by (auto split: sum.splits prod.splits intro: merges_old)
next
  case (4 E m x xs n ns s)
  then show ?case
    by (auto simp: action_lt_key split: sum.splits prod.splits if_splits
      intro: merges_new merges_old merges_both)
qed (auto intro: merges_end)

text \<open>What the merge does to the actions there are: it only marks those of the old list.\<close>

lemma merges_frame:
  "merges E m xs ns s rs s1 \<Longrightarrow> next_act s \<le> next_act s1 \<and>
     (\<forall>q < next_act s. ai_action (acts s1 q) = ai_action (acts s q) \<and>
        (q \<notin> set xs \<longrightarrow> toBeRemoved (acts s1 q) = toBeRemoved (acts s q)))"
proof (induction rule: merges.induct)
  case (merges_new xs n s r s1 ns rs s2)
  note c = createActionInfo_new [OF merges_new.hyps(2)]
  have "acts s1 q = acts s q" if "q < next_act s" for q using c(1,3) that by auto
  with merges_new.IH c(2) show ?case by (auto simp: less_SucI)
qed (auto simp: keep_action_frame)

text \<open>The merged list is sorted and has the keys of both lists.\<close>

definition refs_ok :: "cm \<Rightarrow> action_ref list \<Rightarrow> bool" where
  "refs_ok s rs \<longleftrightarrow> (\<forall>r \<in> set rs. r < next_act s) \<and> sorted_wrt (<) (map (key_of s) rs)"

lemma refs_ok_Cons: "refs_ok s (x # xs) \<Longrightarrow> refs_ok s xs \<and> x \<notin> set xs \<and> (\<forall>r \<in> set xs. key_of s x < key_of s r)"
  by (auto simp: refs_ok_def)

lemma refs_ok_ConsI:
  "refs_ok s rs \<Longrightarrow> x < next_act s \<Longrightarrow> \<forall>k \<in> set (map (key_of s) rs). key_of s x < k \<Longrightarrow> refs_ok s (x # rs)"
  by (simp add: refs_ok_def)

lemma refs_ok_append:
  "refs_ok s (xs @ ys) \<longleftrightarrow> refs_ok s xs \<and> refs_ok s ys \<and> (\<forall>a \<in> set xs. \<forall>b \<in> set ys. key_of s a < key_of s b)"
  by (auto simp: refs_ok_def sorted_wrt_append)

lemma refs_ok_inj: "refs_ok s rs \<Longrightarrow> a \<in> set rs \<Longrightarrow> b \<in> set rs \<Longrightarrow> key_of s a = key_of s b \<Longrightarrow> a = b"
  by (induction rs) (auto dest!: refs_ok_Cons)

lemma refs_ok_filter: "refs_ok s rs \<Longrightarrow> refs_ok s (filter P rs)"
  by (induction rs) (auto simp: refs_ok_def)

lemma refs_ok_cong:
  assumes "refs_ok s xs" "next_act s \<le> next_act s1" "map (key_of s1) xs = map (key_of s) xs"
  shows "refs_ok s1 xs"
  using assms(1,2) unfolding refs_ok_def assms(3) by auto

lemma merges_keys:
  "merges E m xs ns s rs s1 \<Longrightarrow> refs_ok s xs \<Longrightarrow> sorted_wrt (<) (map key ns) \<Longrightarrow>
     refs_ok s1 rs \<and> set (map (key_of s1) rs) = set (map (key_of s) xs) \<union> set (map key ns) \<and>
     set xs \<subseteq> set rs \<and> (\<forall>r \<in> set rs. r \<in> set xs \<or> next_act s \<le> r)"
proof (induction rule: merges.induct)
  case (merges_end s)
  then show ?case by (simp add: refs_ok_def)
next
  case (merges_new xs n s r s1 ns rs s2)
  note c = createActionInfo_new [OF merges_new.hyps(2)]
  have eq: "acts s1 x = acts s x" if "x \<in> set xs" for x
    using c(1,3) merges_new.prems(1) that by (auto simp: refs_ok_def)
  then have xs: "map (key_of s1) xs = map (key_of s) xs" by simp
  have "refs_ok s1 xs" by (rule refs_ok_cong [OF merges_new.prems(1) _ xs]) (simp add: c(2))
  from merges_new.IH [OF this] merges_new.prems(2) have ih: "refs_ok s2 rs"
    "set (map (key_of s2) rs) = set (map (key_of s) xs) \<union> set (map key ns)" "set xs \<subseteq> set rs"
    "\<forall>r \<in> set rs. r \<in> set xs \<or> next_act s1 \<le> r" by (simp_all only: xs) simp_all
  have r: "key_of s2 r = key n" "r < next_act s2"
    using merges_frame [OF merges_new.hyps(3)] c by auto
  have "\<forall>k \<in> set (map (key_of s) xs). key n < k"
    using merges_new.hyps(1) merges_new.prems(1) by (cases xs) (auto simp: refs_ok_def dest: less_trans)
  then have "\<forall>k \<in> set (map (key_of s2) rs). key n < k"
    unfolding ih(2) using merges_new.prems(2) by auto
  then have "refs_ok s2 (r # rs)" using ih(1) r by (intro refs_ok_ConsI) simp_all
  then show ?case using ih(2-4) r c(1,2) by auto
next
  case (merges_old ns s x xs rs s2)
  let ?k = "keep_action m x s"
  have xs: "map (key_of ?k) xs = map (key_of s) xs" by (simp add: keep_action_frame)
  have "refs_ok ?k xs" using merges_old.prems(1) by (simp add: refs_ok_def keep_action_frame)
  from merges_old.IH [OF this merges_old.prems(2)] have ih: "refs_ok s2 rs"
    "set (map (key_of s2) rs) = set (map (key_of s) xs) \<union> set (map key ns)" "set xs \<subseteq> set rs"
    "\<forall>r \<in> set rs. r \<in> set xs \<or> next_act s \<le> r" unfolding xs keep_action_frame by blast+
  have x: "key_of s2 x = key_of s x" "x < next_act s2"
    using merges_frame [OF merges_old.hyps(2)] merges_old.prems(1) by (auto simp: refs_ok_def keep_action_frame)
  have "\<forall>k \<in> set (map key ns). key_of s x < k"
    using merges_old.hyps(1) merges_old.prems(2) by (cases ns) (auto dest: less_trans)
  then have "\<forall>k \<in> set (map (key_of s2) rs). key_of s x < k"
    unfolding ih(2) using merges_old.prems(1) by (auto simp: refs_ok_def)
  then have "refs_ok s2 (x # rs)" using ih(1) x by (intro refs_ok_ConsI) simp_all
  then show ?case using ih(2-4) x by auto
next
  case (merges_both s x n xs ns rs s2)
  have "refs_ok s xs" using merges_both.prems(1) by (simp add: refs_ok_def)
  from merges_both.IH [OF this] merges_both.prems(2) have ih: "refs_ok s2 rs"
    "set (map (key_of s2) rs) = set (map (key_of s) xs) \<union> set (map key ns)" "set xs \<subseteq> set rs"
    "\<forall>r \<in> set rs. r \<in> set xs \<or> next_act s \<le> r" by simp_all
  have x: "key_of s2 x = key_of s x" "x < next_act s2"
    using merges_frame [OF merges_both.hyps(2)] merges_both.prems(1) by (auto simp: refs_ok_def)
  have "\<forall>k \<in> set (map (key_of s2) rs). key_of s x < k"
    unfolding ih(2) using merges_both.prems merges_both.hyps(1) by (auto simp: refs_ok_def)
  then have "refs_ok s2 (x # rs)" using ih(1) x by (intro refs_ok_ConsI) simp_all
  then show ?case using ih(2-4) x merges_both.hyps(1) by auto
qed

text \<open>An old action is marked when the new timeline has nothing of its key.\<close>

lemma merges_marks:
  "merges E m xs ns s rs s1 \<Longrightarrow> refs_ok s xs \<Longrightarrow> sorted_wrt (<) (map key ns) \<Longrightarrow> r \<in> set rs \<Longrightarrow>
     toBeRemoved (acts s1 r) = (r \<in> set xs \<and> (toBeRemoved (acts s r) \<or> m \<and> key_of s r \<notin> set (map key ns)))"
proof (induction arbitrary: r rule: merges.induct)
  case (merges_new xs n s r0 s1 ns rs s2)
  note c = createActionInfo_new [OF merges_new.hyps(2)]
  have eq: "acts s1 x = acts s x" "x < next_act s" if "x \<in> set xs" for x
    using c(1,3) merges_new.prems(1) that by (auto simp: refs_ok_def)
  then have "map (key_of s1) xs = map (key_of s) xs" by simp
  with c(2) have ok: "refs_ok s1 xs" by (intro refs_ok_cong [OF merges_new.prems(1)]) auto
  have lt: "\<forall>x \<in> set xs. key n < key_of s x"
    using merges_new.hyps(1) merges_new.prems(1) by (cases xs) (auto dest!: refs_ok_Cons dest: less_trans)
  have n0: "r0 \<notin> set xs" using eq(2) c(1) by blast
  show ?case
  proof (cases "r = r0")
    case True
    then show ?thesis using merges_frame [OF merges_new.hyps(3)] c n0 by auto
  next
    case False
    with merges_new.prems have "r \<in> set rs" "sorted_wrt (<) (map key ns)" by auto
    from merges_new.IH [OF ok this(2,1)] eq lt show ?thesis by auto
  qed
next
  case (merges_old ns s x xs rs s2)
  let ?k = "keep_action m x s"
  note co = refs_ok_Cons [OF merges_old.prems(1)]
  have ok: "refs_ok ?k xs" using co by (simp add: refs_ok_def keep_action_frame)
  have gone: "\<forall>k \<in> set (map key ns). key_of s x < k"
    using merges_old.hyps(1) merges_old.prems(2) by (cases ns) (auto dest: less_trans)
  have lt: "x < next_act s" using merges_old.prems(1) by (simp add: refs_ok_def)
  show ?case
  proof (cases "r = x")
    case True
    then show ?thesis
      using merges_frame [OF merges_old.hyps(2)] co lt gone by (auto simp: keep_action_frame)
  next
    case False
    with merges_old.prems have "r \<in> set rs" by auto
    from merges_old.IH [OF ok merges_old.prems(2) this] False show ?thesis by (simp add: keep_action_frame)
  qed
next
  case (merges_both s x n xs ns rs s2)
  note co = refs_ok_Cons [OF merges_both.prems(1)]
  have lt: "x < next_act s" using merges_both.prems(1) by (simp add: refs_ok_def)
  show ?case
  proof (cases "r = x")
    case True
    then show ?thesis
      using merges_frame [OF merges_both.hyps(2)] co lt merges_both.hyps(1) by auto
  next
    case False
    with merges_both.prems have "r \<in> set rs" "sorted_wrt (<) (map key ns)" by auto
    from merges_both.IH [OF _ this(2,1)] co False merges_both.hyps(1) show ?thesis by auto
  qed
qed simp

section \<open>The new timeline\<close>

text \<open>What is left of a merge when the marked actions are taken out: the new timeline.\<close>

lemma merges_unmarked:
  assumes mg: "merges E True xs ns s rs s1" and ok: "refs_ok s xs" "\<forall>r \<in> set xs. \<not> toBeRemoved (acts s r)"
    and ns: "sorted_wrt (<) (map key ns)"
  shows "map (key_of s1) (filter (\<lambda>r. \<not> toBeRemoved (acts s1 r)) rs) = map key ns"
proof (rule strict_sorted_equal [OF ns])
  let ?rs = "filter (\<lambda>r. \<not> toBeRemoved (acts s1 r)) rs"
  note k = merges_keys [OF mg ok(1) ns] and mk = merges_marks [OF mg ok(1) ns] and fr = merges_frame [OF mg]
  have same: "key_of s1 r = key_of s r" if "r \<in> set xs" for r using fr ok(1) that by (auto simp: refs_ok_def)
  have "refs_ok s1 ?rs" using k refs_ok_filter by blast
  then show "sorted_wrt (<) (map (key_of s1) ?rs)" by (simp add: refs_ok_def)
  have unmarked: "\<not> toBeRemoved (acts s1 r) \<longleftrightarrow> key_of s1 r \<in> set (map key ns)" if r: "r \<in> set rs" for r
  proof (cases "r \<in> set xs")
    case True
    then show ?thesis using mk [OF r] ok(2) same by auto
  next
    case False
    have "key_of s1 r \<notin> set (map (key_of s) xs)"
    proof
      assume "key_of s1 r \<in> set (map (key_of s) xs)"
      then obtain x where "x \<in> set xs" "key_of s1 x = key_of s1 r" using same by auto
      with refs_ok_inj [of s1 rs x r] k r False show False by auto
    qed
    moreover have "key_of s1 r \<in> set (map (key_of s) xs) \<union> set (map key ns)" using k r by auto
    ultimately show ?thesis using mk [OF r] False by auto
  qed
  show "set (map (key_of s1) ?rs) = set (map key ns)"
  proof
    show "set (map (key_of s1) ?rs) \<subseteq> set (map key ns)" using unmarked by auto
    show "set (map key ns) \<subseteq> set (map (key_of s1) ?rs)"
    proof
      fix q assume q: "q \<in> set (map key ns)"
      then have "q \<in> set (map (key_of s1) rs)" using k by blast
      then show "q \<in> set (map (key_of s1) ?rs)" using unmarked q by auto
    qed
  qed
qed

text \<open>What an update leaves: the actions before the start and the merged ones that were not marked for removal.\<close>

lemma updateTimeline_shape:
  assumes "updateTimeline E new start s = (None, s1)"
  obtains rs s2 where
    "merge_actions E True (dropWhile (\<lambda>r. timestamp (ai_action (acts s r)) < start) (actions s)) new s = (Inr rs, s2)"
    "actions s1 = filter (\<lambda>r. \<not> toBeRemoved (acts s2 r))
       (takeWhile (\<lambda>r. timestamp (ai_action (acts s r)) < start) (actions s) @ rs)"
    "\<forall>r. key_of s1 r = key_of s2 r \<and> toBeRemoved (acts s1 r) = toBeRemoved (acts s2 r)" "next_act s1 = next_act s2"
    "nextActionTime s1 = (case actions s1 of [] \<Rightarrow> Infinity | r # _ \<Rightarrow> At (timestamp (ai_action (acts s1 r))))"
proof -
  let ?before = "takeWhile (\<lambda>r. timestamp (ai_action (acts s r)) < start) (actions s)"
  let ?olds = "dropWhile (\<lambda>r. timestamp (ai_action (acts s r)) < start) (actions s)"
  obtain rs s2 where m: "merge_actions E True ?olds new s = (Inr rs, s2)" and
    s1: "s1 = updateEncodeTimestamp (updateActionTimestamp (removeDeletedActions
       (updateLinkTimelines (s2\<lparr>actions := ?before @ rs\<rparr>))))"
    using assms by (auto simp: updateTimeline_def updateGlobalTimeline_def Let_def split: sum.splits prod.splits)
  let ?t = "s2\<lparr>actions := ?before @ rs\<rparr>" and ?as = "filter (\<lambda>r. \<not> toBeRemoved (acts s2 r)) (?before @ rs)"
  let ?u = "updateLinkTimelines ?t"
  note t = sched_eqD [OF sched_updateLinkTimelines [of ?t]]
  have f: "filter (\<lambda>r. \<not> toBeRemoved (acts ?u r)) (actions ?u) = ?as" by (simp add: t)
  have sc: "sched s1 = sched (?u\<lparr>actions := ?as\<rparr>)" unfolding s1 removeDeletedActions_def f by simp
  note e = sched_eqD [OF sc]
  have "nextActionTime s1 = (case actions s1 of [] \<Rightarrow> Infinity | r # _ \<Rightarrow> At (timestamp (ai_action (acts s1 r))))"
    unfolding s1 by (simp add: updateEncodeTimestamp_def updateActionTimestamp_def split: list.split)
  moreover have "\<forall>r. key_of s1 r = key_of s2 r \<and> toBeRemoved (acts s1 r) = toBeRemoved (acts s2 r)"
    using e(2,3) t(2,3) by simp
  moreover have "next_act s1 = next_act s2" "actions s1 = ?as" using e(1,4) t(4) by simp_all
  ultimately show thesis using that [OF m] by blast
qed

text \<open>Of the actions from \<open>start\<close> on, one that is due before \<open>start\<close> does not exist.\<close>

lemma after_start:
  assumes ok: "refs_ok s (dropWhile (\<lambda>r. timestamp (ai_action (acts s r)) < start) xs)"
    and r: "r \<in> set (dropWhile (\<lambda>r. timestamp (ai_action (acts s r)) < start) xs)"
  shows "start \<le> timestamp (ai_action (acts s r))"
proof -
  let ?olds = "dropWhile (\<lambda>r. timestamp (ai_action (acts s r)) < start) xs"
  have "?olds \<noteq> []" using r by (metis empty_iff empty_set)
  from hd_dropWhile [OF this] have "start \<le> timestamp (ai_action (acts s (hd ?olds)))" by (simp only: not_less)
  moreover have "r = hd ?olds \<or> key_of s (hd ?olds) < key_of s r"
    using r ok by (cases ?olds) (auto dest!: refs_ok_Cons)
  ultimately show ?thesis by (auto simp: key_def less_prod_simp)
qed

text \<open>
  C27: Updating the timeline gives the channel exactly the actions the user model wants from \<open>start\<close> on:
  afterwards the actions, in order, are those that were due before \<open>start\<close> followed by one for
  each action of the new timeline; an action that was there already, before \<open>start\<close> or again in the new
  timeline, is kept as the same object, with the content assigned to it; all others are gone; and
  the next action time is that of the first.
\<close>

theorem cm_updateTimeline:
  assumes u: "updateTimeline E new start s = (None, s1)"
    and old: "refs_ok s (actions s)" "\<forall>r \<in> set (actions s). \<not> toBeRemoved (acts s r)"
    and new: "sorted_wrt (<) (map key new)" "\<forall>a \<in> set new. start \<le> timestamp a"
  shows "map (key_of s1) (actions s1) =
       map (key_of s) (takeWhile (\<lambda>r. timestamp (ai_action (acts s r)) < start) (actions s)) @ map key new \<and>
     (\<forall>r \<in> set (actions s). timestamp (ai_action (acts s r)) < start \<or> key_of s r \<in> set (map key new) \<longrightarrow>
        r \<in> set (actions s1)) \<and>
     refs_ok s1 (actions s1) \<and> (\<forall>r \<in> set (actions s1). \<not> toBeRemoved (acts s1 r)) \<and>
     nextActionTime s1 = (case actions s1 of [] \<Rightarrow> Infinity | r # _ \<Rightarrow> At (timestamp (ai_action (acts s1 r))))"
proof -
  let ?before = "takeWhile (\<lambda>r. timestamp (ai_action (acts s r)) < start) (actions s)"
  let ?olds = "dropWhile (\<lambda>r. timestamp (ai_action (acts s r)) < start) (actions s)"
  obtain rs s2 where m: "merge_actions E True ?olds new s = (Inr rs, s2)"
    and as: "actions s1 = filter (\<lambda>r. \<not> toBeRemoved (acts s2 r)) (?before @ rs)"
    and ky0: "\<forall>r. key_of s1 r = key_of s2 r \<and> toBeRemoved (acts s1 r) = toBeRemoved (acts s2 r)"
    and na: "next_act s1 = next_act s2"
    and next_time: "nextActionTime s1 = (case actions s1 of [] \<Rightarrow> Infinity | r # _ \<Rightarrow> At (timestamp (ai_action (acts s1 r))))"
    by (rule updateTimeline_shape [OF u])
  have ky: "key_of s1 r = key_of s2 r" "toBeRemoved (acts s1 r) = toBeRemoved (acts s2 r)" for r using ky0 by simp_all
  note mg = merge_actions_merges [OF m] and fr = merges_frame [OF merge_actions_merges [OF m]]
  let ?rs = "filter (\<lambda>r. \<not> toBeRemoved (acts s2 r)) rs"
  have "refs_ok s (?before @ ?olds)" using old(1) by simp
  then have okb: "refs_ok s ?before" and oko: "refs_ok s ?olds"
    and lt: "\<forall>a \<in> set ?before. \<forall>b \<in> set ?olds. key_of s a < key_of s b"
    unfolding refs_ok_append by blast+
  have nb: "\<forall>r \<in> set ?before. \<not> toBeRemoved (acts s r)" "\<forall>r \<in> set ?olds. \<not> toBeRemoved (acts s r)"
    using old(2) set_takeWhileD set_dropWhileD by metis+
  have b: "key_of s2 r = key_of s r \<and> \<not> toBeRemoved (acts s2 r)" if "r \<in> set ?before" for r
  proof -
    have "r \<notin> set ?olds" using lt that by blast
    then show ?thesis using fr okb nb(1) that by (auto simp: refs_ok_def)
  qed
  then have a1: "actions s1 = ?before @ ?rs" unfolding as by (simp add: filter_True)
  have kb: "map (key_of s1) ?before = map (key_of s) ?before" using b ky(1) by simp
  have kr: "map (key_of s1) ?rs = map key new" using merges_unmarked [OF mg oko nb(2) new(1)] ky(1) by simp
  have ok: "refs_ok s1 (?before @ ?rs)" unfolding refs_ok_append
  proof (intro conjI ballI)
    show "refs_ok s1 ?before" by (rule refs_ok_cong [OF okb _ kb]) (use fr na in simp)
    have "refs_ok s2 ?rs" using merges_keys [OF mg oko new(1)] refs_ok_filter by blast
    then show "refs_ok s1 ?rs" by (rule refs_ok_cong) (simp_all add: na ky(1))
    fix x y assume x: "x \<in> set ?before" and y: "y \<in> set ?rs"
    have "key_of s1 y \<in> set (map key new)" unfolding kr [symmetric] using y by simp
    then obtain a where "a \<in> set new" "key_of s1 y = key a" by auto
    moreover have "timestamp (ai_action (acts s x)) < start" using set_takeWhileD [OF x] by simp
    ultimately show "key_of s1 x < key_of s1 y"
      using new(2) b [OF x] ky(1) by (auto simp: key_def less_prod_simp)
  qed
  have kept: "\<forall>r \<in> set (?before @ ?rs). \<not> toBeRemoved (acts s1 r)" using b ky(2) by auto
  have "r \<in> set (?before @ ?rs)"
    if r: "r \<in> set (actions s)" "timestamp (ai_action (acts s r)) < start \<or> key_of s r \<in> set (map key new)" for r
  proof (cases "r \<in> set ?before")
    case False
    have "r \<in> set (?before @ ?olds)" using r(1) by simp
    with False have o: "r \<in> set ?olds" unfolding set_append by blast
    have "r \<in> set rs" using merges_keys [OF mg oko new(1)] o by blast
    then show ?thesis using merges_marks [OF mg oko new(1)] nb(2) o after_start [OF oko o] r(2) by auto
  qed simp
  then have stay: "\<forall>r \<in> set (actions s). timestamp (ai_action (acts s r)) < start \<or> key_of s r \<in> set (map key new) \<longrightarrow>
      r \<in> set (?before @ ?rs)" by blast
  show ?thesis unfolding a1 map_append kb kr
    using stay ok kept next_time [unfolded a1] by (intro conjI refl) assumption+
qed

end
