(* ===== verification/CM_Scenarios.thy ===== *)
theory CM_Scenarios
  imports CM_Props CM_Timeline
begin

text \<open>
  Scenarios of the manager of a decomposed channel from its construction: an interpreter of
  sequences of steps, a composition to run, and what such runs show about the code, among them
  the defects.
\<close>

section \<open>Running the manager\<close>

datatype cm_input = Request request | Send u64 conn_id enc_pkg | Thread real | Shutdown

fun run_input :: "env \<Rightarrow> cm_input \<Rightarrow> cm \<Rightarrow> cm option" where
  "run_input E (Request r) s = (if request_ok s r then posted E r s else None)"
| "run_input E (Send h c pkg) s = map_option snd (posted_sync (internal_sendPackage E h c pkg) s)"
| "run_input E (Thread now) s = run_action_thread E now s"
| "run_input E Shutdown s = map_option snd (posted_sync (internal_shutdown E) s)"

fun run_inputs :: "env \<Rightarrow> cm_input list \<Rightarrow> cm \<Rightarrow> cm option" where
  "run_inputs E [] s = Some s"
| "run_inputs E (i # is) s = (case run_input E i s of None \<Rightarrow> None | Some s1 \<Rightarrow> run_inputs E is s1)"

lemma run_input_step: "run_input E i s = Some s' \<Longrightarrow> cm_step s s'"
  by (cases i) (auto split: if_splits intro: cm_step.intros)

lemma run_inputs_reach: "run_inputs E is s = Some s' \<Longrightarrow> cm_step\<^sup>*\<^sup>* s s'"
proof (induction "is" arbitrary: s)
  case (Cons i "is")
  then obtain s1 where "run_input E i s = Some s1" "run_inputs E is s1 = Some s'"
    by (auto split: option.splits)
  with Cons.IH run_input_step show ?case by (meson converse_rtranclp_into_rtranclp)
qed simp

lemma run_inputs_append:
  "run_inputs E (xs @ ys) s = Option.bind (run_inputs E xs s) (run_inputs E ys)"
  by (induction xs arbitrary: s) (auto split: option.split)

section \<open>A composition\<close>

text \<open>
  A user model with two wildcard actions at 100 and 105 seconds, an encoding that takes 40 bytes an
  action and \<open>t\<close> seconds (9.9 at activation, so that \<open>maxEncodingTime\<close> is 10), and the clock at 50
  seconds.
\<close>

definition demo_env :: "real \<Rightarrow> env" where
  "demo_env t = \<lparr>env_compositionId = ''ch'', env_transport = ''t'', env_usermodel = ''u'',
     env_encodings = [''enc''], env_createTransport = (\<lambda>_. True), env_createUserModel = (\<lambda>_. True),
     env_createEncoding = (\<lambda>_ _. True), env_encodingType = (\<lambda>_. ''*/*''),
     env_encodingTime = (\<lambda>_. t), env_maxBytes = (\<lambda>_ _. 40),
     env_supportedActions = [(''post'', [''*/*''])], env_timelineLength = 600,
     env_timelineFetchPeriod = 300,
     env_getActionParams = (\<lambda>_. [demo_params\<lparr>param_linkId := ''*''\<rparr>]),
     env_getTimeline = (\<lambda>_ _. [\<lparr>timestamp = 100, actionId = 1, action_json = []\<rparr>,
       \<lparr>timestamp = 105, actionId = 2, action_json = []\<rparr>]),
     env_onSendPackage = (\<lambda>_ _. []), env_getLinkProperties = (\<lambda>_. []), env_getEntropy = (\<lambda>_. [])\<rparr>"

definition start_inputs :: "cm_input list" where
  "start_inputs = [Request ReqInit, Request (ReqActivateChannel 1 ''ch'' ''role''),
     Request (ReqUpdateState ''t'' COMPONENT_STATE_STARTED),
     Request (ReqUpdateState ''u'' COMPONENT_STATE_STARTED)]"

definition demo_waiting :: cm where
  "demo_waiting = (new_cm (\<lambda>_. 50))\<lparr>state := WAITING_FOR_COMPONENTS, activateHandle := 1,
     has_transport := True, has_usermodel := True, encodings := [''enc''],
     idComponentMap := [''enc'', ''u'', ''t''], wrappers := [''t'', ''u'', ''enc''],
     componentStates := [(''t'', COMPONENT_STATE_STARTED), (''u'', COMPONENT_STATE_STARTED),
       (''enc'', COMPONENT_STATE_INIT)]\<rparr>"

lemma demo_params_encoding:
  assumes "encodingsByType s = [(''*/*'', ''enc'')]" "param_type p = ''*/*''"
  shows "encodingComponentFromEncodingParams s p = Some ''enc''"
proof -
  have "mimeTypeMatches ''*/*'' ''*/*''" by code_simp
  with assms show ?thesis by (simp add: encodingComponentFromEncodingParams_def)
qed

lemma demo_env_simps [simp]:
  "env_compositionId (demo_env t) = ''ch''" "env_transport (demo_env t) = ''t''"
  "env_usermodel (demo_env t) = ''u''" "env_encodings (demo_env t) = [''enc'']"
  "env_createTransport (demo_env t) r" "env_createUserModel (demo_env t) r" "env_createEncoding (demo_env t) n r"
  "env_encodingType (demo_env t) n = ''*/*''" "env_encodingTime (demo_env t) n = t"
  "env_maxBytes (demo_env t) n p = 40" "env_supportedActions (demo_env t) = [(''post'', [''*/*''])]"
  "env_timelineLength (demo_env t) = 600" "env_timelineFetchPeriod (demo_env t) = 300"
  "env_getActionParams (demo_env t) a = [demo_params\<lparr>param_linkId := ''*''\<rparr>]"
  "env_getTimeline (demo_env t) t1 t2 = [\<lparr>timestamp = 100, actionId = 1, action_json = []\<rparr>,
     \<lparr>timestamp = 105, actionId = 2, action_json = []\<rparr>]"
  "env_onSendPackage (demo_env t) l i = []" "env_getLinkProperties (demo_env t) l = []"
  "env_getEntropy (demo_env t) k = []"
  by (simp_all add: demo_env_def)

lemma posted_ok: "dispatch E r s = (Inr OK, s') \<Longrightarrow> request_ok s r \<Longrightarrow> run_input E (Request r) s = Some s'"
  by (simp add: posted_def)

definition demo_created :: cm where
  "demo_created = demo_waiting\<lparr>componentStates := [(''t'', COMPONENT_STATE_INIT),
     (''u'', COMPONENT_STATE_INIT), (''enc'', COMPONENT_STATE_INIT)]\<rparr>"

lemma demo_steps:
  "run_input (demo_env (99 / 10)) (Request ReqInit) (new_cm (\<lambda>_. 50)) =
     Some ((new_cm (\<lambda>_. 50))\<lparr>state := UNACTIVATED\<rparr>)"
  "run_input (demo_env (99 / 10)) (Request (ReqActivateChannel 1 ''ch'' ''role''))
     ((new_cm (\<lambda>_. 50))\<lparr>state := UNACTIVATED\<rparr>) = Some demo_created"
  "run_input (demo_env (99 / 10)) (Request (ReqUpdateState ''t'' COMPONENT_STATE_STARTED)) demo_created =
     Some (demo_created\<lparr>componentStates := [(''t'', COMPONENT_STATE_STARTED),
     (''u'', COMPONENT_STATE_INIT), (''enc'', COMPONENT_STATE_INIT)]\<rparr>)"
  "run_input (demo_env (99 / 10)) (Request (ReqUpdateState ''u'' COMPONENT_STATE_STARTED))
     (demo_created\<lparr>componentStates := [(''t'', COMPONENT_STATE_STARTED),
     (''u'', COMPONENT_STATE_INIT), (''enc'', COMPONENT_STATE_INIT)]\<rparr>) = Some demo_waiting"
  subgoal by (rule posted_ok) (simp_all add: new_cm_def request_ok_def)
  subgoal by (rule posted_ok) (simp_all add: new_cm_def request_ok_def guarded_channel_def lifetime_activateChannel_def Let_def
     checkActivated_def demo_created_def demo_waiting_def)
  subgoal by (rule posted_ok) (simp_all add: new_cm_def request_ok_def guarded_def lifetime_updateState_def Let_def
     checkActivated_def demo_created_def demo_waiting_def expect_state_components)
  subgoal by (rule posted_ok) (simp_all add: new_cm_def request_ok_def guarded_def lifetime_updateState_def Let_def
     checkActivated_def demo_created_def demo_waiting_def expect_state_components)
  done

lemma demo_startup: "run_inputs (demo_env (99 / 10)) start_inputs (new_cm (\<lambda>_. 50)) = Some demo_waiting"
  by (simp add: start_inputs_def demo_steps del: run_input.simps)

text \<open>The last component starts: the channel is active.\<close>

definition demo_active :: cm where
  "demo_active = demo_waiting\<lparr>state := ACTIVATED, encodingsByType := [(''*/*'', ''enc'')],
     componentStates := [(''t'', COMPONENT_STATE_STARTED), (''u'', COMPONENT_STATE_STARTED),
       (''enc'', COMPONENT_STATE_STARTED)],
     maxEncodingTime := 10, timelineLength := 600, timelineFetchPeriod := 300,
     clock_reads := 3, nextFetchTime := At 360, nextActionTime := At 100, nextEncodeTime := At 90,
     acts := (acts demo_waiting)
       (0 := (demo_action 0)\<lparr>ai_action := \<lparr>timestamp = 100, actionId = 1, action_json = []\<rparr>,
          encoding := map (enc_params_update (param_linkId_update (\<lambda>_. ''*''))) (encoding (demo_action 0))\<rparr>,
        1 := (demo_action 0)\<lparr>ai_action := \<lparr>timestamp = 105, actionId = 2, action_json = []\<rparr>,
          encoding := map (enc_params_update (param_linkId_update (\<lambda>_. ''*''))) (encoding (demo_action 0))\<rparr>),
     next_act := 2, actions := [0, 1], action_thread := True,
     calls := [SdkOnChannelStatusChanged 1 ''ch'' CHANNEL_AVAILABLE]\<rparr>"

lemma demo_createActionInfo:
  assumes "encodingsByType s = [(''*/*'', ''enc'')]"
  shows "createActionInfo (demo_env t) a s = (Inr (next_act s), s\<lparr>next_act := Suc (next_act s),
     acts := (acts s)(next_act s := (demo_action 0)\<lparr>ai_action := a,
       encoding := map (enc_params_update (param_linkId_update (\<lambda>_. ''*''))) (encoding (demo_action 0))\<rparr>)\<rparr>)"
  using assms by (simp add: createActionInfo_def demo_params_encoding demo_params_def demo_action_def Let_def)

lemma demo_active_reached:
  "run_input (demo_env (99 / 10)) (Request (ReqUpdateState ''enc'' COMPONENT_STATE_STARTED)) demo_waiting =
     Some demo_active"
proof (rule posted_ok)
  let ?w = "demo_waiting\<lparr>componentStates := [(''t'', COMPONENT_STATE_STARTED),
     (''u'', COMPONENT_STATE_STARTED), (''enc'', COMPONENT_STATE_STARTED)]\<rparr>"
  let ?s = "?w\<lparr>state := ACTIVATED, encodingsByType := [(''*/*'', ''enc'')]\<rparr>"
  have "action_setup (demo_env (99 / 10)) ?s = (None, demo_active\<lparr>calls := []\<rparr>)"
    by (simp add: action_setup_def demo_params_encoding fetchTimeline_def currentTime_def updateTimeline_def
      updateGlobalTimeline_def demo_createActionInfo demo_active_def demo_waiting_def new_cm_def
      updateLinkTimelines_def updatedActions_def set_link_queues_def generateFragmentsForAllPackages_def
      removeDeletedActions_def assign_packages_def maxPackages_def updateActionTimestamp_def updateEncodeTimestamp_def
      encode_time_of_def getLinks_def demo_action_def)
  moreover have "state demo_waiting = WAITING_FOR_COMPONENTS" "encodings demo_waiting = [''enc'']"
    "encodingsByType demo_waiting = []" "AList.update ''enc'' COMPONENT_STATE_STARTED (componentStates demo_waiting) =
       [(''t'', COMPONENT_STATE_STARTED), (''u'', COMPONENT_STATE_STARTED), (''enc'', COMPONENT_STATE_STARTED)]"
    by (simp_all add: demo_waiting_def new_cm_def)
  moreover have "activateHandle demo_active = 1" "calls (demo_active\<lparr>calls := []\<rparr>) = []"
    by (simp_all add: demo_active_def demo_waiting_def)
  moreover have "call (SdkOnChannelStatusChanged 1 ''ch'' CHANNEL_AVAILABLE) (demo_active\<lparr>calls := []\<rparr>) = demo_active"
    by (simp add: call_def demo_active_def)
  ultimately show "dispatch (demo_env (99 / 10)) (ReqUpdateState ''enc'' COMPONENT_STATE_STARTED) demo_waiting =
    (Inr OK, demo_active)"
    by (simp add: guarded_def expect_state_components lifetime_updateState_def checkActivated_def
      Let_def setup_cm_def lifetime_setup_def)
qed (simp add: request_ok_def)

text \<open>A link, a connection on it, and a new timeline, which gives the link its actions.\<close>

definition linked_inputs :: "cm_input list" where
  "linked_inputs = [Request (ReqOnLinkStatusChanged 2 ''L'' LINK_CREATED []),
     Request (ReqOpenConnection 3 ''L'' ''c'')]"

definition demo_opened :: cm where
  "demo_opened = demo_active\<lparr>link_order := [''L''], conns := (conns demo_active)(''c'' \<mapsto> ''L''),
     links := (links demo_active)(''L'' \<mapsto> demo_link\<lparr>actionQueue := []\<rparr>),
     calls := calls demo_active @ [UserModelAddLink ''L'' [], SdkOnLinkStatusChanged 2 ''L'' LINK_CREATED [],
       SdkOnConnectionStatusChanged 3 ''c'' CONNECTION_OPEN []]\<rparr>"

definition demo_linked :: cm where
  "demo_linked = demo_opened\<lparr>links := (links demo_active)(''L'' \<mapsto> demo_link),
     clock_reads := 6, calls := calls demo_opened @ [SdkUnblockQueue ''c'', SdkUnblockQueue ''c'']\<rparr>"

lemma demo_opened_reached: "run_inputs (demo_env 0) linked_inputs demo_active = Some demo_opened"
proof -
  let ?s = "demo_active\<lparr>link_order := [''L''], links := (links demo_active)(''L'' \<mapsto> demo_link\<lparr>actionQueue := [], connections := []\<rparr>),
     calls := calls demo_active @ [UserModelAddLink ''L'' [], SdkOnLinkStatusChanged 2 ''L'' LINK_CREATED []]\<rparr>"
  have s: "state demo_active = ACTIVATED" "links demo_active ''L'' = None" "conns demo_active ''c'' = None" "link_order demo_active = []"
    by (simp_all add: demo_active_def demo_waiting_def new_cm_def)
  have "run_input (demo_env 0) (Request (ReqOnLinkStatusChanged 2 ''L'' LINK_CREATED [])) demo_active = Some ?s"
    by (rule posted_ok)
      (simp_all add: s request_ok_def internal_onLinkStatusChanged_def link_onLinkStatusChanged_def
        package_onLinkStatusChanged_def action_onLinkStatusChanged_def put_link_def new_link_def
        call_def Let_def demo_link_def)
  moreover have "run_input (demo_env 0) (Request (ReqOpenConnection 3 ''L'' ''c'')) ?s = Some demo_opened"
    by (rule posted_ok)
      (simp_all add: s request_ok_def guarded_def openConnection_def call_def upd_link_def demo_opened_def demo_link_def)
  ultimately show ?thesis by (simp add: linked_inputs_def del: run_input.simps)
qed

lemma reset_action_idle:
  assumes "ai_fragments (acts s a) = []" "wildcardLink (acts s a) \<Longrightarrow> ai_linkId (acts s a) = []"
  shows "reset_action now a s = s"
  using assms
  by (cases "acts s a") (simp add: reset_action_def unassign_action_def upd_act_def fun_upd_idem)

lemma generate_idle:
  assumes "link_order s = [l]" "links s l = Some lk" "packageQueue lk = []" "connections lk = [c]"
    "\<forall>a \<in> set (actionQueue lk). ai_fragments (acts s a) = [] \<and> (wildcardLink (acts s a) \<longrightarrow> ai_linkId (acts s a) = [])"
  shows "generateFragmentsForAllPackages s = s\<lparr>clock_reads := Suc (clock_reads s), calls := calls s @ [SdkUnblockQueue c]\<rparr>"
proof -
  let ?s = "s\<lparr>clock_reads := Suc (clock_reads s)\<rparr>"
  have "fold (reset_action now) as ?s = ?s" if "set as \<subseteq> set (actionQueue lk)" for now as
    using that
  proof (induction as)
    case (Cons a as)
    then have "reset_action now a ?s = ?s" using assms(5) by (intro reset_action_idle) auto
    with Cons show ?case by simp
  qed simp
  then show ?thesis
    using assms by (simp add: generateFragmentsForAllPackages_def currentTime_def reset_link_def getLinks_def
      removeMarkedFragments_def assign_packages_def maxPackages_def unblock_connections_def call_def)
qed

lemma demo_timeline:
  "updateTimeline (demo_env 0) (env_getTimeline (demo_env 0) 60 660) 60
     (demo_opened\<lparr>clock_reads := 4, nextFetchTime := At 360\<rparr>) = (None, demo_linked)"
proof -
  let ?s = "demo_opened\<lparr>clock_reads := 4, nextFetchTime := At 360\<rparr>"
  let ?t = "demo_linked\<lparr>clock_reads := 5, calls := calls demo_opened @ [SdkUnblockQueue ''c'']\<rparr>"
  note defs = demo_opened_def demo_active_def demo_waiting_def new_cm_def demo_action_def
  have g: "updateGlobalTimeline (demo_env 0) (env_getTimeline (demo_env 0) 60 660) 60 ?s = (None, ?s)"
    by (simp add: updateGlobalTimeline_def action_lt_def defs)
  have "set_link_queues ?s = ?s\<lparr>links := links demo_linked\<rparr>"
    by (auto simp: set_link_queues_def getLinks_def on_link_def demo_linked_def demo_link_def defs fun_eq_iff)
  then have u: "updateLinkTimelines ?s = ?t"
    by (simp add: updateLinkTimelines_def updatedActions_def generate_idle [of _ "''L''" demo_link "''c''"]
      demo_linked_def demo_link_def defs)
  have "set_link_queues ?t = ?t"
    by (auto simp: set_link_queues_def getLinks_def on_link_def demo_linked_def demo_link_def defs fun_eq_iff)
  then have r: "removeDeletedActions ?t = demo_linked"
    by (simp add: removeDeletedActions_def updateLinkTimelines_def updatedActions_def
      generate_idle [of _ "''L''" demo_link "''c''"] demo_linked_def demo_link_def defs)
  have "updateEncodeTimestamp (updateActionTimestamp demo_linked) = demo_linked"
    by (simp add: updateEncodeTimestamp_def updateActionTimestamp_def encode_time_of_def demo_linked_def defs)
  then show ?thesis using g u r by (simp add: updateTimeline_def)
qed

lemma demo_linked_reached:
  "run_input (demo_env 0) (Request ReqOnTimelineUpdated) demo_opened = Some demo_linked"
proof (rule posted_ok)
  have "fetchTimeline (demo_env 0) demo_opened = (None, demo_linked)"
    using demo_timeline by (simp add: fetchTimeline_def currentTime_def Let_def demo_opened_def demo_active_def
      demo_waiting_def new_cm_def)
  then show "dispatch (demo_env 0) ReqOnTimelineUpdated demo_opened = (Inr OK, demo_linked)"
    by (simp add: guarded_def onTimelineUpdated_def demo_opened_def demo_active_def)
qed (simp add: request_ok_def)

section \<open>What the runs show\<close>

definition demo_reached :: "cm_input list \<Rightarrow> cm option" where
  "demo_reached is = run_inputs (demo_env 0) is demo_linked"

definition spanning :: enc_pkg where
  "spanning = enc_pkg_new 1 2 (replicate 33 7)"

definition encoded_contents :: "cm \<Rightarrow> bytes list" where
  "encoded_contents s = List.map_filter (\<lambda>c. case c of EncoderEncodeBytes _ _ _ b \<Rightarrow> Some b | _ \<Rightarrow> None) (calls s)"

definition received :: "cm \<Rightarrow> enc_pkg list" where
  "received s = delivered (calls (snd (receive_contents ''L'' demo_params (encoded_contents s) demo_cm)))"

lemma demo_reached_step: "demo_reached is = Some s \<Longrightarrow> cm_step\<^sup>*\<^sup>* (new_cm (\<lambda>_. 50)) s"
proof -
  assume r: "demo_reached is = Some s"
  have "cm_step\<^sup>*\<^sup>* (new_cm (\<lambda>_. 50)) demo_waiting" by (rule run_inputs_reach [OF demo_startup])
  also have "cm_step\<^sup>*\<^sup>* demo_waiting demo_active" using run_input_step [OF demo_active_reached] by blast
  also have "cm_step\<^sup>*\<^sup>* demo_active demo_opened" by (rule run_inputs_reach [OF demo_opened_reached])
  also have "cm_step\<^sup>*\<^sup>* demo_opened demo_linked" using run_input_step [OF demo_linked_reached] by blast
  also have "cm_step\<^sup>*\<^sup>* demo_linked s" using r run_inputs_reach by (simp add: demo_reached_def)
  finally show ?thesis .
qed

lemma received_once: "map_option received (demo_reached [Send 9 ''c'' spanning, Thread 96]) = Some [spanning]"
  by code_simp
lemma received_twice: "map_option received (demo_reached [Send 9 ''c'' spanning, Thread 91, Thread 96]) = Some []"
  by code_simp

text \<open>
  C22: A link created since the timeline was last fetched has no actions yet, and the next wildcard
  action of the timeline takes the front of its empty queue: undefined behaviour in \<open>doAction\<close>, in
  a state that is reached from the construction of the manager.
\<close>

theorem cm_new_link_crashes:
  "\<exists>s. cm_step\<^sup>*\<^sup>* (new_cm (\<lambda>_. 50)) s \<and> state s = ACTIVATED \<and> links s ''L'' \<noteq> None \<and>
     fst (doAction s) = Some Undefined \<and> run_action_thread (demo_env 0) 100 s = None"
proof -
  have "cm_step\<^sup>*\<^sup>* (new_cm (\<lambda>_. 50)) demo_waiting" by (rule run_inputs_reach [OF demo_startup])
  also have "cm_step\<^sup>*\<^sup>* demo_waiting demo_active" using run_input_step [OF demo_active_reached] by blast
  also have "cm_step\<^sup>*\<^sup>* demo_active demo_opened" by (rule run_inputs_reach [OF demo_opened_reached])
  finally have "cm_step\<^sup>*\<^sup>* (new_cm (\<lambda>_. 50)) demo_opened" .
  moreover have "fst (doAction demo_opened) = Some Undefined" by code_simp
  moreover have "run_action_thread (demo_env 0) 100 demo_opened = None"
  proof -
    have "nextFetchTime demo_opened = At 360" "nextActionTime demo_opened = At 100"
      "state demo_opened = ACTIVATED" "action_thread demo_opened"
      by (simp_all add: demo_opened_def demo_active_def)
    then show ?thesis using \<open>fst (doAction demo_opened) = Some Undefined\<close>
      by (auto simp: run_action_thread_def actionThreadLogic_def split: prod.split option.split)
  qed
  moreover have "state demo_opened = ACTIVATED" "links demo_opened ''L'' \<noteq> None"
    by (simp_all add: demo_opened_def demo_active_def)
  ultimately show ?thesis by blast
qed

lemma release_encoded:
  "\<forall>r \<in> set rs. fr_state (frags s r) \<noteq> F_UNENCODED \<Longrightarrow>
     fold release_fragment rs (b, s) = (b, fold (\<lambda>r. erase_fragments [r]) rs s)"
proof (induction rs arbitrary: s)
  case (Cons r rs)
  have "release_fragment r (b, s) = (b, erase_fragments [r] s)"
    using Cons.prems by (simp add: release_fragment_def split: option.split)
  moreover have "fold release_fragment rs (b, erase_fragments [r] s) =
      (b, fold (\<lambda>r. erase_fragments [r]) rs (erase_fragments [r] s))"
    by (rule Cons.IH) (use Cons.prems in \<open>simp add: erase_fragments_def\<close>)
  ultimately show ?case by simp
qed simp

lemma erase_all_frame:
  "acts (fold (\<lambda>r. erase_fragments [r]) rs s) = acts s" "pkgs (fold (\<lambda>r. erase_fragments [r]) rs s) = pkgs s"
  "links (fold (\<lambda>r. erase_fragments [r]) rs s) = links s" "calls (fold (\<lambda>r. erase_fragments [r]) rs s) = calls s"
  by (induction rs arbitrary: s) (simp_all add: erase_fragments_def)

text \<open>
  C23: A failed fragment ends its package while actions still point to fragments of it. When one
  fragment of a package fails whose fragments have all been handed out for encoding, the package
  and with it its fragments are erased from the queue of the link and the package is reported as
  failed, but every action keeps the pointers it had, also those to the erased fragments, which
  \<open>doAction\<close> will read.
\<close>

theorem cm_failed_fragment_dangles:
  assumes h: "fragments s h = Some r" and r: "r \<in> set (packageFragments (pkgs s (fr_package (frags s r))))"
    and st: "\<forall>q \<in> set (packageFragments (pkgs s (fr_package (frags s r)))). fr_state (frags s q) \<noteq> F_UNENCODED"
    and failed: "status \<noteq> PACKAGE_SENT" "status \<noteq> PACKAGE_RECEIVED"
    and lk: "links s (pk_link (pkgs s (fr_package (frags s r)))) = Some lk"
    and s': "snd (onPackageStatusChanged h status s) = s'"
  shows "(\<forall>a. ai_fragments (acts s' a) = ai_fragments (acts s a)) \<and>
     (\<exists>lk'. links s' (pk_link (pkgs s (fr_package (frags s r)))) = Some lk' \<and>
        fr_package (frags s r) \<notin> set (packageQueue lk')) \<and>
     calls s' = calls s @ [SdkOnPackageStatusChanged (pk_sdkHandle (pkgs s (fr_package (frags s r)))) status]"
proof -
  let ?p = "fr_package (frags s r)"
  let ?s1 = "upd_frag r (\<lambda>f. f\<lparr>fr_state := new_fragment_state status (fr_state f)\<rparr>) s"
  let ?s2 = "?s1\<lparr>fragments := (fragments ?s1)(h := None)\<rparr>"
  have f: "fr_state (frags ?s2 q) = (if q = r then F_FAILED else fr_state (frags s q))" for q
    using failed by (simp add: upd_frag_def new_fragment_state_def)
  have fin: "isPackageFinished ?s2 (pkgs ?s2 ?p)"
    using r f by (auto simp: isPackageFinished_def upd_frag_def)
  have "\<forall>q \<in> set (packageFragments (pkgs s ?p)). fr_state (frags ?s2 q) \<noteq> F_UNENCODED" using st f by simp
  from release_encoded [OF this, of False] have "s' = finish_package ?p status ?s2 \<and>
     fold release_fragment (packageFragments (pkgs s ?p)) (False, ?s2) =
       (False, fold (\<lambda>r. erase_fragments [r]) (packageFragments (pkgs s ?p)) ?s2)"
    using s' h fin by (auto simp: onPackageStatusChanged_def Let_def)
  then show ?thesis
    using lk by (auto simp: finish_package_def Let_def erase_all_frame upd_link_def call_def upd_frag_def)
qed

lemma demo_half_done:
  "map_option (\<lambda>s. (fragments s 0, fr_package (frags s 0), packageFragments (pkgs s 0), pk_link (pkgs s 0)))
     (demo_reached [Send 9 ''c'' spanning, Thread 96, Thread 100]) = Some (Some 0, 0, [0, 1], ''L'')"
  "map_option (\<lambda>s. map (\<lambda>r. fr_state (frags s r)) [0, 1])
     (demo_reached [Send 9 ''c'' spanning, Thread 96, Thread 100]) = Some [F_DONE, F_ENCODING]"
  "map_option (\<lambda>s. Option.is_none (links s ''L''))
     (demo_reached [Send 9 ''c'' spanning, Thread 96, Thread 100]) = Some False"
  "map_option (\<lambda>s. (actions s, ai_fragments (acts s 1)))
     (demo_reached [Send 9 ''c'' spanning, Thread 96, Thread 100]) = Some ([1], [1])"
  by code_simp+

theorem cm_failed_fragment_dangles_witness:
  "\<exists>s. cm_step\<^sup>*\<^sup>* (new_cm (\<lambda>_. 50)) s \<and> actions s = [1] \<and>
     ai_fragments (acts (snd (onPackageStatusChanged 0 PACKAGE_FAILED_GENERIC s)) 1) = [1]"
proof -
  obtain s where s: "demo_reached [Send 9 ''c'' spanning, Thread 96, Thread 100] = Some s"
    using demo_half_done(4) by auto
  have f: "fragments s 0 = Some 0" "fr_package (frags s 0) = 0" "packageFragments (pkgs s 0) = [0, 1]"
    "pk_link (pkgs s 0) = ''L''" "fr_state (frags s 0) = F_DONE" "fr_state (frags s 1) = F_ENCODING"
    "actions s = [1]" "ai_fragments (acts s 1) = [1]" "links s ''L'' \<noteq> None"
    using demo_half_done by (simp_all add: s Option.is_none_def split: option.splits)
  from f(9) obtain lk where "links s ''L'' = Some lk" by auto
  with cm_failed_fragment_dangles [of s 0 0 PACKAGE_FAILED_GENERIC lk] f demo_reached_step [OF s]
  show ?thesis by auto
qed

lemma demo_after_send:
  "map_option (\<lambda>s. (ai_fragments (acts s 0), map enc_maxBytes (encoding (acts s 0)), mode s))
     (demo_reached [Send 9 ''c'' spanning]) = Some ([0], [40], FRAGMENT_SINGLE_PRODUCER)"
  by code_simp

theorem cm_content_fits_witness:
  "\<exists>s. ai_fragments (acts s 0) = [0] \<and> length (action_content s demo_link [0]) \<le> 40"
proof -
  obtain s where s: "demo_reached [Send 9 ''c'' spanning] = Some s" using demo_after_send by auto
  have f: "ai_fragments (acts s 0) = [0]" "map enc_maxBytes (encoding (acts s 0)) = [40]"
    "mode s = FRAGMENT_SINGLE_PRODUCER" using demo_after_send by (simp_all add: s)
  then have "sum_maxBytes (encoding (acts s 0)) = 40" by (simp add: sum_maxBytes_map)
  with cm_content_fits [OF demo_reached_step [OF s], of 0 demo_link] f show ?thesis by auto
qed


theorem cm_guards_witness:
  "posted (demo_env 0) ReqOnTimelineUpdated demo_waiting = Some (call (SdkAsyncError PLUGIN_ERROR) demo_waiting)"
  using cm_guards [of demo_waiting ReqOnTimelineUpdated "demo_env 0"] by (simp add: demo_waiting_def)


lemma demo_waiting_reached: "cm_step\<^sup>*\<^sup>* (new_cm (\<lambda>_. 50)) demo_waiting"
  by (rule run_inputs_reach [OF demo_startup])



theorem cm_updateTimeline_witness:
  "updateTimeline (demo_env 0) (env_getTimeline (demo_env 0) 60 660) 60
     (demo_opened\<lparr>clock_reads := 4, nextFetchTime := At 360\<rparr>) = (None, demo_linked) \<and>
   nextActionTime demo_linked = At 100"
proof -
  have "nextActionTime demo_linked = At 100" using cm_updateTimeline [OF demo_timeline]
    by (simp add: demo_linked_def demo_opened_def demo_active_def demo_action_def key_def refs_ok_def less_prod_simp)
  with demo_timeline show ?thesis by blast
qed

theorem cm_reachable_inv_witness:
  "pm_ok demo_linked \<and> actions demo_linked = [0, 1] \<and> conn_ok demo_linked \<and> conns demo_linked ''c'' = Some ''L''"
proof -
  have "demo_reached [] = Some demo_linked" by (simp add: demo_reached_def)
  from cm_reachable_inv [OF demo_reached_step [OF this]] show ?thesis
    by (simp add: demo_linked_def demo_opened_def demo_active_def)
qed

end
