(* ===== verification/Race_Strings.thy ===== *)
theory Race_Strings
  imports Race_Prelude "HOL-Library.AList"
begin

text \<open>
  What the sources use of the standard library: positions in C++ strings, substrings, decimal
  numbers, and containers keyed by \<open>operator[]\<close>.
\<close>

section \<open>Strings\<close>

text \<open>
  \<open>s.find(c, from)\<close>. \<open>None\<close> is \<open>npos\<close>, the largest \<open>size_t\<close>: \<open>after\<close> is \<open>ind + 1\<close>, which wraps
  around to 0 for \<open>npos\<close>.
\<close>

definition str_pos :: "string \<Rightarrow> char \<Rightarrow> nat \<Rightarrow> nat option" where
  "str_pos s c from = (let t = drop from s; n = length (takeWhile (\<lambda>x. x \<noteq> c) t)
     in if n = length t then None else Some (from + n))"

fun after :: "nat option \<Rightarrow> nat" where
  "after None = 0"
| "after (Some n) = Suc n"

lemma takeWhile_absent: "c \<notin> set xs \<Longrightarrow> takeWhile (\<lambda>x. x \<noteq> c) xs = xs"
  by (induction xs) auto

lemma str_pos_hit:
  assumes "c \<notin> set (drop k xs)" "k \<le> length xs"
  shows "str_pos (xs @ c # ys) c k = Some (length xs)"
proof -
  have "takeWhile (\<lambda>x. x \<noteq> c) (drop k xs @ c # ys) = drop k xs"
    using assms(1) by (subst takeWhile_append2) auto
  then show ?thesis using assms(2) by (simp add: str_pos_def Let_def)
qed

lemma str_pos_miss: "c \<notin> set (drop k s) \<Longrightarrow> str_pos s c k = None"
  by (simp add: str_pos_def Let_def takeWhile_absent)

text \<open>\<open>std::to_string\<close> of a number that is not negative.\<close>

fun digits :: "nat \<Rightarrow> string" where
  "digits n = (if n < 10 then [char_of (48 + n)] else digits (n div 10) @ [char_of (48 + n mod 10)])"

declare digits.simps [simp del]

lemma digit_of: "d < 10 \<Longrightarrow> (of_char (char_of (48 + d)) :: nat) = 48 + d"
  by simp

lemma digits_not_Nil [simp]: "digits n \<noteq> []"
  by (subst digits.simps) simp

lemma set_digits: "set (digits n) \<subseteq> char_of ` {48 ..< 58 :: nat}"
proof (induction n rule: digits.induct)
  case (1 n)
  show ?case
  proof (cases "n < 10")
    case True
    then show ?thesis by (subst digits.simps) auto
  next
    case False
    moreover have "48 + n mod 10 \<in> {48 ..< 58}" by simp
    ultimately show ?thesis using 1 by (subst digits.simps) auto
  qed
qed

lemma digits_no_slash: "CHR ''/'' \<notin> set (digits n)"
proof
  assume "CHR ''/'' \<in> set (digits n)"
  then obtain k :: nat where k: "CHR ''/'' = char_of k" "k \<in> {48 ..< 58}" using set_digits by blast
  then have "of_char CHR ''/'' = k" by simp
  with k(2) show False by simp
qed

lemma digits_inj: "digits m = digits n \<Longrightarrow> m = n"
proof (induction m arbitrary: n rule: digits.induct)
  case (1 m)
  have *: "digits k = (if k < 10 then [] else digits (k div 10)) @ [char_of (48 + k mod 10)]" for k
    by (subst digits.simps) simp
  have l: "of_char (last (digits k)) = 48 + k mod 10" for k by (subst *) simp
  have b: "butlast (digits k) = (if k < 10 then [] else digits (k div 10))" for k by (subst *) simp
  have "m mod 10 = n mod 10" using l [of m] l [of n] 1(2) by simp
  moreover have "m div 10 = n div 10"
  proof (cases "m < 10")
    case True
    then have "butlast (digits n) = []" using b [of m] 1(2) by simp
    then have "n < 10" using b [of n] by (metis digits_not_Nil)
    then show ?thesis using True by simp
  next
    case False
    then have "butlast (digits n) = digits (m div 10)" using b [of m] 1(2) by simp
    then have "digits (m div 10) = digits (n div 10)" using b [of n] by (metis digits_not_Nil)
    with 1(1) False show ?thesis by blast
  qed
  ultimately show ?case by (metis mult_div_mod_eq)
qed

section \<open>Containers\<close>

text \<open>
  Containers that are iterated are association lists, in the order of insertion; \<open>operator[]\<close> of a
  missing key inserts a value-initialised element.
\<close>

definition at_default :: "'v \<Rightarrow> ('k \<times> 'v) list \<Rightarrow> 'k \<Rightarrow> 'v" where
  "at_default d m k = (case map_of m k of None \<Rightarrow> d | Some v \<Rightarrow> v)"

lemma at_default_Some [simp]: "map_of m k = Some v \<Longrightarrow> at_default d m k = v"
  by (simp add: at_default_def)

text \<open>\<open>m[k] = f (m[k])\<close>\<close>

definition upd_default :: "'v \<Rightarrow> 'k \<Rightarrow> ('v \<Rightarrow> 'v) \<Rightarrow> ('k \<times> 'v) list \<Rightarrow> ('k \<times> 'v) list" where
  "upd_default d k f m = AList.update k (f (at_default d m k)) m"

lemma map_of_upd_default [simp]: "map_of (upd_default d k f m) = (map_of m)(k \<mapsto> f (at_default d m k))"
  by (simp add: upd_default_def update_conv')

lemma map_of_delete [simp]: "map_of (AList.delete k m) = (map_of m)(k := None)"
  by (simp add: delete_conv')

lemma distinct_upd_default [simp]: "distinct (map fst m) \<Longrightarrow> distinct (map fst (upd_default d k f m))"
  by (simp add: upd_default_def distinct_update)

lemma fst_set_map_of: "fst ` set m = dom (map_of m)"
  by (simp add: dom_map_of_conv_image_fst)

end
