(* ===== verification/Race_Links.thy ===== *)
theory Race_Links
  imports Race_Types Race_Strings
begin

text \<open>
  The links and connections of the SDK: racesdk/core/include/RaceLinks.h and
  racesdk/core/source/RaceLinks.cpp. Every operation is one critical section of \<open>linksLock\<close>; one
  that may throw returns the exception with the state it leaves behind. The containers that are
  iterated (\<open>linkIdToInfo\<close>, \<open>connIdToInfo\<close>, \<open>packageHandles\<close>) are lists in the order of insertion,
  an order the sources leave open; the others are maps. \<open>Race_Links_Inv\<close> has the properties.
\<close>

section \<open>The data\<close>

type_synonym persona = string

record connection_info =
  packageHandles :: "u64 list"
  conn_traceCtx :: "u64 \<times> u64"

record link_info =
  link_personas :: "persona set"
  connIdToInfo :: "(conn_id \<times> connection_info) list"
  properties :: link_properties
  link_traceCtx :: "u64 \<times> u64"

record race_links =
  linkIdToInfo :: "(link_id \<times> link_info) list"
  destroyedLinkProfiles :: "link_id \<rightharpoonup> persona set"
  connToLink :: "conn_id \<rightharpoonup> link_id"
  handleToLink :: "u64 \<rightharpoonup> link_id"
  handleToNewLink :: "u64 \<rightharpoonup> persona set \<times> string"
  packageHandleConnectionMap :: "u64 \<rightharpoonup> conn_id"
  currentLinkId :: u64

definition empty_connection :: connection_info where
  "empty_connection = \<lparr>packageHandles = [], conn_traceCtx = (0, 0)\<rparr>"

definition empty_link :: link_info where
  "empty_link = \<lparr>link_personas = {}, connIdToInfo = [], properties = default_link_properties,
     link_traceCtx = (0, 0)\<rparr>"

definition new_race_links :: race_links where
  "new_race_links = \<lparr>linkIdToInfo = [], destroyedLinkProfiles = (\<lambda>_. None), connToLink = (\<lambda>_. None),
     handleToLink = (\<lambda>_. None), handleToNewLink = (\<lambda>_. None),
     packageHandleConnectionMap = (\<lambda>_. None), currentLinkId = 0\<rparr>"

definition link_of :: "race_links \<Rightarrow> link_id \<Rightarrow> link_info option" where
  "link_of rl l = map_of (linkIdToInfo rl) l"

text \<open>\<open>linkIdToInfo[l] = f (linkIdToInfo[l])\<close> and \<open>info.connIdToInfo[c] = f (info.connIdToInfo[c])\<close>\<close>

definition upd_info :: "link_id \<Rightarrow> (link_info \<Rightarrow> link_info) \<Rightarrow> race_links \<Rightarrow> race_links" where
  "upd_info l f rl = rl\<lparr>linkIdToInfo := upd_default empty_link l f (linkIdToInfo rl)\<rparr>"

definition upd_conn :: "conn_id \<Rightarrow> (connection_info \<Rightarrow> connection_info) \<Rightarrow> link_info \<Rightarrow> link_info" where
  "upd_conn c f i = i\<lparr>connIdToInfo := upd_default empty_connection c f (connIdToInfo i)\<rparr>"

section \<open>Identifiers\<close>

definition getNextLinkID :: "string \<Rightarrow> race_links \<Rightarrow> link_id \<times> race_links" where
  "getNextLinkID plugin rl =
     (plugin @ ''/LinkID_'' @ digits (unat (currentLinkId rl)), rl\<lparr>currentLinkId := currentLinkId rl + 1\<rparr>)"

definition getLinkIDFromConnectionID :: "conn_id \<Rightarrow> exn + link_id" where
  "getLinkIDFromConnectionID connId =
     (let ind = str_pos connId CHR ''/'' 0;
          ind = str_pos connId CHR ''/'' (after ind);
          ind = str_pos connId CHR ''/'' (after ind)
      in case ind of None \<Rightarrow> Inl InvalidArgument | Some n \<Rightarrow> Inr (take n connId))"

definition getPluginFromLinkID :: "link_id \<Rightarrow> exn + string" where
  "getPluginFromLinkID linkId = (case str_pos linkId CHR ''/'' 0 of
     None \<Rightarrow> Inl InvalidArgument | Some n \<Rightarrow> Inr (take n linkId))"

definition getPluginFromConnectionID :: "conn_id \<Rightarrow> exn + string" where
  "getPluginFromConnectionID connId = getPluginFromLinkID connId"

section \<open>Links\<close>

definition addLink :: "link_id \<Rightarrow> persona set \<Rightarrow> race_links \<Rightarrow> exn option \<times> race_links" where
  "addLink linkId ps rl =
     (if link_of rl linkId \<noteq> None then (Some InvalidArgument, rl)
      else (None, upd_info linkId (\<lambda>i. i\<lparr>link_personas := ps, connIdToInfo := []\<rparr>) rl))"

definition removeLink :: "link_id \<Rightarrow> race_links \<Rightarrow> race_links" where
  "removeLink linkId rl = (case link_of rl linkId of
     None \<Rightarrow> rl
   | Some info \<Rightarrow> rl\<lparr>
       destroyedLinkProfiles := (if link_personas info \<noteq> {}
          then (destroyedLinkProfiles rl)(linkId \<mapsto> link_personas info) else destroyedLinkProfiles rl),
       connToLink := (\<lambda>c. if c \<in> fst ` set (connIdToInfo info) then None else connToLink rl c),
       linkIdToInfo := AList.delete linkId (linkIdToInfo rl)\<rparr>)"

definition completeNewLinkRequest :: "u64 \<Rightarrow> link_id \<Rightarrow> race_links \<Rightarrow> (exn + string) \<times> race_links" where
  "completeNewLinkRequest handle linkId rl = (case handleToNewLink rl handle of
     None \<Rightarrow> (Inl InvalidArgument, rl)
   | Some (ps, address) \<Rightarrow>
       (Inr address, upd_info linkId (\<lambda>i. i\<lparr>link_personas := ps, connIdToInfo := []\<rparr>) rl))"

text \<open>\<open>insert\<close> leaves an entry that is there already.\<close>

definition addNewLinkRequest :: "u64 \<Rightarrow> persona set \<Rightarrow> string \<Rightarrow> race_links \<Rightarrow> race_links" where
  "addNewLinkRequest handle ps linkAddress rl = (case handleToNewLink rl handle of
     Some _ \<Rightarrow> rl
   | None \<Rightarrow> rl\<lparr>handleToNewLink := (handleToNewLink rl)(handle \<mapsto> (ps, linkAddress))\<rparr>)"

definition removeNewLinkRequest :: "u64 \<Rightarrow> link_id \<Rightarrow> race_links \<Rightarrow> race_links" where
  "removeNewLinkRequest handle linkId rl = (case handleToNewLink rl handle of
     None \<Rightarrow> rl
   | Some (ps, address) \<Rightarrow> rl\<lparr>destroyedLinkProfiles := (destroyedLinkProfiles rl)(linkId \<mapsto> ps),
       handleToNewLink := (handleToNewLink rl)(handle := None)\<rparr>)"

definition isValidLinkType :: "link_type \<Rightarrow> bool" where
  "isValidLinkType ty \<longleftrightarrow> ty = LT_SEND \<or> ty = LT_RECV \<or> ty = LT_BIDI"

definition updateLinkProperties :: "link_id \<Rightarrow> link_properties \<Rightarrow> race_links \<Rightarrow> exn option \<times> race_links" where
  "updateLinkProperties linkId props rl =
     (if \<not> isValidLinkType (lp_linkType props) then (Some InvalidArgument, rl)
      else if link_of rl linkId = None then (Some OutOfRange, rl)
      else (None, upd_info linkId (\<lambda>i. i\<lparr>properties := props\<rparr>) rl))"

definition getLinkProperties :: "link_id \<Rightarrow> race_links \<Rightarrow> exn + link_properties" where
  "getLinkProperties linkId rl = (case link_of rl linkId of
     None \<Rightarrow> Inl OutOfRange | Some info \<Rightarrow> Inr (properties info))"

definition setPersonasForLink :: "link_id \<Rightarrow> persona set \<Rightarrow> race_links \<Rightarrow> bool \<times> race_links" where
  "setPersonasForLink linkId ps rl =
     (if link_of rl linkId = None then (False, rl)
      else (True, upd_info linkId (\<lambda>i. i\<lparr>link_personas := ps\<rparr>) rl))"

definition getAllPersonaSet :: "race_links \<Rightarrow> persona set" where
  "getAllPersonaSet rl = \<Union> (set (map (link_personas \<circ> snd) (linkIdToInfo rl)))"

definition doesLinkIncludeGivenPersonas :: "persona set \<Rightarrow> persona set \<Rightarrow> bool" where
  "doesLinkIncludeGivenPersonas linkProfilePersonas givenPersonas \<longleftrightarrow>
     (\<forall>p \<in> givenPersonas. p \<in> linkProfilePersonas)"

definition getAllLinksForPersonas :: "persona set \<Rightarrow> link_type \<Rightarrow> race_links \<Rightarrow> link_id list" where
  "getAllLinksForPersonas ps linkType rl =
     map fst (filter (\<lambda>(l, info). doesLinkIncludeGivenPersonas (link_personas info) ps \<and>
       (lp_linkType (properties info) = LT_BIDI \<or> lp_linkType (properties info) = linkType)) (linkIdToInfo rl))"

definition getAllPersonasForLink :: "link_id \<Rightarrow> race_links \<Rightarrow> persona set" where
  "getAllPersonasForLink linkId rl = (case link_of rl linkId of
     Some info \<Rightarrow> link_personas info
   | None \<Rightarrow> (case destroyedLinkProfiles rl linkId of Some ps \<Rightarrow> ps | None \<Rightarrow> {}))"

section \<open>Connections\<close>

definition addConnectionRequest :: "u64 \<Rightarrow> link_id \<Rightarrow> race_links \<Rightarrow> race_links" where
  "addConnectionRequest handle linkId rl = rl\<lparr>handleToLink := (handleToLink rl)(handle \<mapsto> linkId)\<rparr>"

definition addConnection :: "u64 \<Rightarrow> conn_id \<Rightarrow> race_links \<Rightarrow> exn option \<times> race_links" where
  "addConnection handle connId rl = (case handleToLink rl handle of
     None \<Rightarrow> (Some InvalidArgument, rl)
   | Some linkId \<Rightarrow>
       let rl1 = rl\<lparr>handleToLink := (handleToLink rl)(handle := None)\<rparr>
       in (case link_of rl1 linkId of
             None \<Rightarrow> (Some InvalidArgument, rl1)
           | Some info \<Rightarrow>
               if map_of (connIdToInfo info) connId \<noteq> None \<or> connToLink rl1 connId \<noteq> None
               then (Some InvalidArgument, rl1)
               else (None, upd_info linkId (upd_conn connId id)
                       (rl1\<lparr>connToLink := (connToLink rl1)(connId \<mapsto> linkId)\<rparr>))))"

definition removeConnectionRequest :: "u64 \<Rightarrow> race_links \<Rightarrow> race_links" where
  "removeConnectionRequest handle rl = rl\<lparr>handleToLink := (handleToLink rl)(handle := None)\<rparr>"

definition removeConnection :: "conn_id \<Rightarrow> race_links \<Rightarrow> exn option \<times> race_links" where
  "removeConnection connId rl =
     (let rl1 = rl\<lparr>connToLink := (connToLink rl)(connId := None)\<rparr>
      in case getLinkIDFromConnectionID connId of
           Inl e \<Rightarrow> (Some e, rl1)
         | Inr linkId \<Rightarrow>
             (None, if link_of rl1 linkId = None then rl1
                else upd_info linkId (\<lambda>i. i\<lparr>connIdToInfo := AList.delete connId (connIdToInfo i)\<rparr>) rl1))"

definition doesConnectionExist :: "conn_id \<Rightarrow> race_links \<Rightarrow> bool" where
  "doesConnectionExist connId rl \<longleftrightarrow> connToLink rl connId \<noteq> None"

text \<open>The ids of those connections that do not exist.\<close>

definition doConnectionsExist :: "conn_id set \<Rightarrow> race_links \<Rightarrow> conn_id set" where
  "doConnectionsExist connectionIds rl = Set.filter (\<lambda>c. \<not> doesConnectionExist c rl) connectionIds"

definition getLinkForConnection :: "conn_id \<Rightarrow> race_links \<Rightarrow> exn + link_id" where
  "getLinkForConnection connId rl = getLinkIDFromConnectionID connId"

definition getLinkConnections :: "link_id \<Rightarrow> race_links \<Rightarrow> conn_id list" where
  "getLinkConnections linkId rl = (case link_of rl linkId of
     None \<Rightarrow> [] | Some info \<Rightarrow> map fst (connIdToInfo info))"

section \<open>Tracing\<close>

definition addTraceCtxForLink :: "link_id \<Rightarrow> u64 \<times> u64 \<Rightarrow> race_links \<Rightarrow> race_links" where
  "addTraceCtxForLink linkId ids rl =
     (if link_of rl linkId = None then rl else upd_info linkId (\<lambda>i. i\<lparr>link_traceCtx := ids\<rparr>) rl)"

definition getTraceCtxForLink :: "link_id \<Rightarrow> race_links \<Rightarrow> u64 \<times> u64" where
  "getTraceCtxForLink linkId rl = (case link_of rl linkId of None \<Rightarrow> (0, 0) | Some info \<Rightarrow> link_traceCtx info)"

definition addTraceCtxForConnection :: "conn_id \<Rightarrow> u64 \<times> u64 \<Rightarrow> race_links \<Rightarrow> race_links" where
  "addTraceCtxForConnection connId ids rl = (case connToLink rl connId of
     None \<Rightarrow> rl
   | Some linkId \<Rightarrow>
       if link_of rl linkId = None then rl
       else upd_info linkId (upd_conn connId (\<lambda>ci. ci\<lparr>conn_traceCtx := ids\<rparr>)) rl)"

definition getTraceCtxForConnection :: "conn_id \<Rightarrow> race_links \<Rightarrow> u64 \<times> u64" where
  "getTraceCtxForConnection connId rl = (case connToLink rl connId of
     None \<Rightarrow> (0, 0)
   | Some linkId \<Rightarrow> (case link_of rl linkId of
         None \<Rightarrow> (0, 0)
       | Some info \<Rightarrow> (case map_of (connIdToInfo info) connId of None \<Rightarrow> (0, 0) | Some ci \<Rightarrow> conn_traceCtx ci)))"

section \<open>Packages in flight\<close>

text \<open>The connection of a cached handle, as the link and the entry that \<open>connToLink\<close> names.\<close>

definition connection_of :: "race_links \<Rightarrow> conn_id \<Rightarrow> (link_id \<times> connection_info) option" where
  "connection_of rl connId = Option.bind (connToLink rl connId) (\<lambda>linkId.
     Option.bind (link_of rl linkId) (\<lambda>info.
       map_option (\<lambda>ci. (linkId, ci)) (map_of (connIdToInfo info) connId)))"

definition cachePackageHandle :: "conn_id \<Rightarrow> u64 \<Rightarrow> race_links \<Rightarrow> race_links" where
  "cachePackageHandle connId packageHandle rl =
     (if connToLink rl connId = None \<or> packageHandle = NULL_RACE_HANDLE then rl
      else case connection_of rl connId of
        None \<Rightarrow> rl
      | Some (linkId, _) \<Rightarrow>
          (upd_info linkId (upd_conn connId
             (\<lambda>ci. ci\<lparr>packageHandles := List.insert packageHandle (packageHandles ci)\<rparr>)) rl)
          \<lparr>packageHandleConnectionMap := (packageHandleConnectionMap rl)(packageHandle \<mapsto> connId)\<rparr>)"

definition getCachedPackageHandles :: "conn_id \<Rightarrow> race_links \<Rightarrow> u64 list" where
  "getCachedPackageHandles connId rl = (case connection_of rl connId of
     None \<Rightarrow> [] | Some (linkId, ci) \<Rightarrow> packageHandles ci)"

definition removeCachedPackageHandle :: "u64 \<Rightarrow> race_links \<Rightarrow> race_links" where
  "removeCachedPackageHandle packageHandle rl = (case packageHandleConnectionMap rl packageHandle of
     None \<Rightarrow> rl
   | Some connId \<Rightarrow>
       if packageHandle = NULL_RACE_HANDLE then rl
       else (case connection_of rl connId of
         None \<Rightarrow> rl
       | Some (linkId, _) \<Rightarrow>
           (upd_info linkId (upd_conn connId
              (\<lambda>ci. ci\<lparr>packageHandles := removeAll packageHandle (packageHandles ci)\<rparr>)) rl)
           \<lparr>packageHandleConnectionMap := (packageHandleConnectionMap rl)(packageHandle := None)\<rparr>))"

end
