(* ===== verification/Race_Channels.thy ===== *)
theory Race_Channels
  imports Race_Types Race_Strings
begin

text \<open>
  The channels of the SDK: racesdk/core/include/RaceChannels.h and
  racesdk/core/source/RaceChannels.cpp. Every operation is one critical section of
  \<open>channelsLock\<close>. A \<open>ChannelInfo *\<close> of \<open>channelIdToInfo\<close> is the index of its element in \<open>channels\<close>,
  which only grows. The file of the channels the user has enabled is read and written through the
  SDK: what it parses to is an argument of the operation that reads it (\<open>None\<close> when there is no
  SDK or no data), and what is written is appended to \<open>written\<close>, if there is an SDK.
\<close>

section \<open>The data\<close>

record channel_info =
  ci_properties :: channel_properties
  ci_plugins :: "string list"
  wrapperId :: string

record race_channels =
  channels :: "channel_info list"
  channelIdToInfo :: "string \<rightharpoonup> nat"
  channelIdToLinkIds :: "string \<rightharpoonup> link_id list"
  userEnabledChannels :: "string set"
  allowedTags :: "string list"
  has_sdk :: bool
  written :: "string set list"

definition empty_channels :: "bool \<Rightarrow> race_channels" where
  "empty_channels sdk = \<lparr>channels = [], channelIdToInfo = (\<lambda>_. None), channelIdToLinkIds = (\<lambda>_. None),
     userEnabledChannels = {}, allowedTags = [], has_sdk = sdk, written = []\<rparr>"

text \<open>\<open>channelIdToInfo.find(channelGid)\<close>, and a write through the pointer.\<close>

definition info_of :: "race_channels \<Rightarrow> string \<Rightarrow> channel_info option" where
  "info_of rc gid = map_option (\<lambda>i. channels rc ! i) (channelIdToInfo rc gid)"

definition upd_channel :: "string \<Rightarrow> (channel_info \<Rightarrow> channel_info) \<Rightarrow> race_channels \<Rightarrow> race_channels" where
  "upd_channel gid f rc = (case channelIdToInfo rc gid of
     None \<Rightarrow> rc
   | Some i \<Rightarrow> rc\<lparr>channels := (channels rc)[i := f (channels rc ! i)]\<rparr>)"

definition upd_properties ::
    "string \<Rightarrow> (channel_properties \<Rightarrow> channel_properties) \<Rightarrow> race_channels \<Rightarrow> race_channels" where
  "upd_properties gid f = upd_channel gid (\<lambda>ci. ci\<lparr>ci_properties := f (ci_properties ci)\<rparr>)"

section \<open>Operations\<close>

definition add :: "channel_properties \<Rightarrow> race_channels \<Rightarrow> exn option \<times> race_channels" where
  "add props rc =
     (if channelIdToInfo rc (channelGid props) \<noteq> None then (Some InvalidArgument, rc)
      else (None, rc\<lparr>channels := channels rc @ [\<lparr>ci_properties = props, ci_plugins = [], wrapperId = []\<rparr>],
        channelIdToInfo := (channelIdToInfo rc)(channelGid props \<mapsto> length (channels rc))\<rparr>))"

text \<open>The constructor adds the configured channels; an exception of \<open>add\<close> leaves it.\<close>

fun add_all :: "channel_properties list \<Rightarrow> race_channels \<Rightarrow> exn option \<times> race_channels" where
  "add_all [] rc = (None, rc)"
| "add_all (p # ps) rc = (case add p rc of
     (Some e, rc1) \<Rightarrow> (Some e, rc1) | (None, rc1) \<Rightarrow> add_all ps rc1)"

definition new_race_channels :: "channel_properties list \<Rightarrow> bool \<Rightarrow> exn option \<times> race_channels" where
  "new_race_channels props sdk = add_all props (empty_channels sdk)"

definition getSupportedChannels :: "race_channels \<Rightarrow> string \<rightharpoonup> channel_properties" where
  "getSupportedChannels rc gid = map_option ci_properties
     (find (\<lambda>ci. channelStatus (ci_properties ci) = CHANNEL_AVAILABLE \<and> channelGid (ci_properties ci) = gid)
       (channels rc))"

definition getChannelProperties :: "string \<Rightarrow> race_channels \<Rightarrow> exn + channel_properties" where
  "getChannelProperties gid rc = (case info_of rc gid of
     None \<Rightarrow> Inl OutOfRange | Some ci \<Rightarrow> Inr (ci_properties ci))"

definition getPluginsForChannel :: "string \<Rightarrow> race_channels \<Rightarrow> exn + string list" where
  "getPluginsForChannel gid rc = (case info_of rc gid of
     None \<Rightarrow> Inl OutOfRange
   | Some ci \<Rightarrow> if ci_plugins ci = [] then Inl OutOfRange else Inr (ci_plugins ci))"

definition getWrapperIdForChannel :: "string \<Rightarrow> race_channels \<Rightarrow> exn + string" where
  "getWrapperIdForChannel gid rc = (case info_of rc gid of
     None \<Rightarrow> Inl OutOfRange
   | Some ci \<Rightarrow> if wrapperId ci = [] then Inl OutOfRange else Inr (wrapperId ci))"

definition isAvailable :: "string \<Rightarrow> race_channels \<Rightarrow> bool" where
  "isAvailable gid rc = (case info_of rc gid of
     None \<Rightarrow> False | Some ci \<Rightarrow> channelStatus (ci_properties ci) = CHANNEL_AVAILABLE)"

definition update :: "string \<Rightarrow> channel_status \<Rightarrow> channel_properties \<Rightarrow> race_channels \<Rightarrow> bool \<times> race_channels" where
  "update gid status props rc =
     (True, upd_properties gid (\<lambda>_. if status = CHANNEL_ENABLED
        then props\<lparr>channelStatus := status, currentRole := default_role\<rparr>
        else props\<lparr>channelStatus := status\<rparr>) rc)"

definition update_own :: "channel_properties \<Rightarrow> race_channels \<Rightarrow> bool \<times> race_channels" where
  "update_own props rc = update (channelGid props) (channelStatus props) props rc"

definition getChannels :: "race_channels \<Rightarrow> channel_properties list" where
  "getChannels rc = map ci_properties (channels rc)"

definition getChannelIds :: "race_channels \<Rightarrow> string list" where
  "getChannelIds rc = map (channelGid \<circ> ci_properties) (channels rc)"

definition getLinksForChannel :: "string \<Rightarrow> race_channels \<Rightarrow> link_id list" where
  "getLinksForChannel gid rc = (case channelIdToLinkIds rc gid of None \<Rightarrow> [] | Some ls \<Rightarrow> ls)"

definition setWrapperIdForChannel :: "string \<Rightarrow> string \<Rightarrow> race_channels \<Rightarrow> race_channels" where
  "setWrapperIdForChannel gid w = upd_channel gid (\<lambda>ci. ci\<lparr>wrapperId := w\<rparr>)"

definition setPluginsForChannel :: "string \<Rightarrow> string list \<Rightarrow> race_channels \<Rightarrow> race_channels" where
  "setPluginsForChannel gid ps = upd_channel gid (\<lambda>ci. ci\<lparr>ci_plugins := ps\<rparr>)"

definition setLinkId :: "string \<Rightarrow> link_id \<Rightarrow> race_channels \<Rightarrow> race_channels" where
  "setLinkId gid l rc = rc\<lparr>channelIdToLinkIds :=
     (channelIdToLinkIds rc)(gid \<mapsto> List.insert l (getLinksForChannel gid rc))\<rparr>"

definition removeLinkId :: "string \<Rightarrow> link_id \<Rightarrow> race_channels \<Rightarrow> race_channels" where
  "removeLinkId gid l rc = rc\<lparr>channelIdToLinkIds :=
     (channelIdToLinkIds rc)(gid \<mapsto> removeAll l (getLinksForChannel gid rc))\<rparr>"

definition getStatus :: "string \<Rightarrow> race_channels \<Rightarrow> exn + channel_status" where
  "getStatus gid rc = (case info_of rc gid of
     None \<Rightarrow> Inl OutOfRange | Some ci \<Rightarrow> Inr (channelStatus (ci_properties ci)))"

definition setStatus :: "string \<Rightarrow> channel_status \<Rightarrow> race_channels \<Rightarrow> race_channels" where
  "setStatus gid status = upd_properties gid (\<lambda>p. p\<lparr>channelStatus := status\<rparr>)"

section \<open>Activation\<close>

definition checkMechanicalTags :: "string list \<Rightarrow> race_channels \<Rightarrow> bool" where
  "checkMechanicalTags tags rc \<longleftrightarrow>
     list_ex (\<lambda>ci. list_ex (\<lambda>existing. existing \<in> set tags) (mechanicalTags (currentRole (ci_properties ci))))
       (channels rc)"

definition checkBehavioralTags :: "string list \<Rightarrow> race_channels \<Rightarrow> bool" where
  "checkBehavioralTags tags rc \<longleftrightarrow>
     list_ex (\<lambda>t. \<not> (allowedTags rc = [] \<or> t \<in> set (allowedTags rc))) tags"

text \<open>
  The loop over the roles: \<open>False\<close> when a role of that name conflicts; otherwise every role of that
  name becomes the current one in turn.
\<close>

fun choose_role :: "string \<Rightarrow> string \<Rightarrow> channel_role list \<Rightarrow> race_channels \<Rightarrow> bool \<times> race_channels" where
  "choose_role gid name [] rc = (True, rc)"
| "choose_role gid name (role # rest) rc =
     (if name = roleName role then
        if checkMechanicalTags (mechanicalTags role) rc then (False, rc)
        else if checkBehavioralTags (behavioralTags role) rc then (False, rc)
        else choose_role gid name rest (upd_properties gid (\<lambda>p. p\<lparr>currentRole := role\<rparr>) rc)
      else choose_role gid name rest rc)"

definition activate :: "string \<Rightarrow> string \<Rightarrow> race_channels \<Rightarrow> bool \<times> race_channels" where
  "activate gid name rc = (case info_of rc gid of
     None \<Rightarrow> (False, rc)
   | Some ci \<Rightarrow>
       if channelStatus (ci_properties ci) \<noteq> CHANNEL_ENABLED then (False, rc)
       else (case choose_role gid name (roles (ci_properties ci)) rc of
          (False, rc1) \<Rightarrow> (False, rc1)
        | (True, rc1) \<Rightarrow>
            if (case info_of rc1 gid of None \<Rightarrow> True
                | Some ci1 \<Rightarrow> linkSide (currentRole (ci_properties ci1)) = LS_UNDEF)
            then (False, rc1)
            else (True, setStatus gid CHANNEL_STARTING rc1)))"

definition channelFailed :: "string \<Rightarrow> race_channels \<Rightarrow> race_channels" where
  "channelFailed gid rc = (case info_of rc gid of
     None \<Rightarrow> rc
   | Some ci \<Rightarrow> if channelStatus (ci_properties ci) = CHANNEL_STARTING then setStatus gid CHANNEL_FAILED rc else rc)"

definition setAllowedTags :: "string list \<Rightarrow> race_channels \<Rightarrow> race_channels" where
  "setAllowedTags tags rc = rc\<lparr>allowedTags := tags\<rparr>"

text \<open>A channel is listed once for each time the plugin is named in it.\<close>

definition getPluginChannelIds :: "string \<Rightarrow> race_channels \<Rightarrow> string list" where
  "getPluginChannelIds pluginId rc =
     concat (map (\<lambda>ci. map (\<lambda>_. channelGid (ci_properties ci)) (filter (\<lambda>p. p = pluginId) (ci_plugins ci)))
       (channels rc))"

section \<open>Channels enabled by the user\<close>

definition writeUserEnabledChannels :: "race_channels \<Rightarrow> race_channels" where
  "writeUserEnabledChannels rc =
     (if \<not> has_sdk rc then rc else rc\<lparr>written := written rc @ [userEnabledChannels rc]\<rparr>)"

definition readUserEnabledChannels :: "string set option \<Rightarrow> race_channels \<Rightarrow> race_channels" where
  "readUserEnabledChannels file rc =
     (if \<not> has_sdk rc then rc
      else case file of None \<Rightarrow> rc | Some S \<Rightarrow> rc\<lparr>userEnabledChannels := S\<rparr>)"

definition setUserEnabledChannels :: "string list \<Rightarrow> race_channels \<Rightarrow> race_channels" where
  "setUserEnabledChannels gids rc = writeUserEnabledChannels (rc\<lparr>userEnabledChannels := set gids\<rparr>)"

definition setUserEnabled :: "string \<Rightarrow> race_channels \<Rightarrow> race_channels" where
  "setUserEnabled gid rc =
     (if gid \<in> userEnabledChannels rc then rc
      else writeUserEnabledChannels (rc\<lparr>userEnabledChannels := insert gid (userEnabledChannels rc)\<rparr>))"

definition setUserDisabled :: "string \<Rightarrow> race_channels \<Rightarrow> race_channels" where
  "setUserDisabled gid rc =
     (if gid \<in> userEnabledChannels rc
      then writeUserEnabledChannels (rc\<lparr>userEnabledChannels := userEnabledChannels rc - {gid}\<rparr>)
      else rc)"

definition isUserEnabled :: "string set option \<Rightarrow> string \<Rightarrow> race_channels \<Rightarrow> bool \<times> race_channels" where
  "isUserEnabled file gid rc =
     (let rc1 = (if userEnabledChannels rc = {} then readUserEnabledChannels file rc else rc)
      in (gid \<in> userEnabledChannels rc1, rc1))"

end
