(* ===== verification/Race_Sdk.thy ===== *)
theory Race_Sdk
  imports Race_Links Race_Channels Enc_Pkg
begin

text \<open>
  The SDK between the network manager and the comms plugins: racesdk/core/include/RaceSdk.h and
  racesdk/core/source/RaceSdk.cpp. It hands out handles and ids, keeps the tables of links and
  channels, forwards the requests of the network manager to the comms plugin of the channel or
  link, and the reports of the comms plugins to the network manager or the test harness.

  The plugin wrappers post each call to the work queue of the plugin (\<open>Handler\<close>); what they answer
  is part of the environment, and the calls are logged in order. The bootstrap manager is asked
  only whether a handle belongs to a bootstrap in progress. Logging, timeouts and the tags of
  tracing spans are left out; the ids of a new span come from the environment. A method is one step;
  an exception that leaves it is \<open>Inl\<close>.
\<close>

section \<open>The data\<close>

datatype nm = PluginNM | TestHarness

datatype sdk_call =
    NmPackageStatus nm u64 package_status
  | NmConnectionStatus nm u64 conn_id connection_status link_id link_properties
  | NmLinkStatus nm u64 link_id link_status link_properties
  | NmChannelStatus nm u64 string channel_status channel_properties
  | NmLinkProperties nm link_id link_properties
  | NmProcessEncPkg nm u64 enc_pkg "conn_id list"
  | NmUserAcknowledgement nm u64
  | NmUserInput nm u64 bool string
  | BootstrapReceive enc_pkg link_id
  | CommsCreateLink string u64 string
  | CommsLoadLinkAddress string u64 string string
  | CommsLoadLinkAddresses string u64 string "string list"
  | CommsCreateLinkFromAddress string u64 string string
  | CommsCreateBootstrapLink string u64 string string
  | CommsDestroyLink string u64 link_id
  | CommsOpenConnection string u64 link_type link_id string
  | CommsCloseConnection string u64 conn_id
  | CommsSendPackage string u64 conn_id enc_pkg u64
  | CommsActivateChannel string u64 string string
  | CommsDeactivateChannel string u64 string
  | CommsFlushChannel string u64 string u64
  | CommsServeFiles string link_id string
  | CommsUserAcknowledgement string u64
  | CommsUserInput string u64 bool string
  | CommsShutdown string
  | VoaProcess u64 conn_id "(enc_pkg \<times> real) list" bool u64
  | AppRequestUserInput u64 string string string bool
  | AppDisplayInfo u64 string
  | SdkInputAnswer u64 "string option"

record race_sdk =
  isShuttingDown :: bool
  sdk_links :: race_links
  sdk_channels :: race_channels
  has_nm :: bool
  has_app :: bool
  commsWrappers :: "string set"
  channelsActivateRequested :: "string set"
  channelsDisableRequested :: "string set"
  networkManagerPluginHandleCount :: u64
  testHarnessHandleCount :: u64
  connection_count :: i32
  link_count :: i32
  userInputHandles :: "u64 \<rightharpoonup> string"
  sdkUserInputRequests :: "u64 set"
  sdk_calls :: "sdk_call list"

record sdk_env =
  comms_answer :: "sdk_call \<Rightarrow> sdk_response"
  nm_answer :: "sdk_call \<Rightarrow> bool \<times> real"
  bootstrap_link :: "u64 \<Rightarrow> bool"
  bootstrap_conn :: "u64 \<Rightarrow> bool"
  span_ids :: "u64 \<times> u64"
  voa_queue :: "enc_pkg \<Rightarrow> link_id \<Rightarrow> string \<Rightarrow> persona set \<Rightarrow> (enc_pkg \<times> real) list"
  voa_active :: bool
  is_client :: bool

definition upd_links :: "(race_links \<Rightarrow> race_links) \<Rightarrow> race_sdk \<Rightarrow> race_sdk" where
  "upd_links f s = s\<lparr>sdk_links := f (sdk_links s)\<rparr>"

definition upd_channels :: "(race_channels \<Rightarrow> race_channels) \<Rightarrow> race_sdk \<Rightarrow> race_sdk" where
  "upd_channels f s = s\<lparr>sdk_channels := f (sdk_channels s)\<rparr>"

definition log_call :: "sdk_call \<Rightarrow> race_sdk \<Rightarrow> race_sdk" where
  "log_call c s = s\<lparr>sdk_calls := sdk_calls s @ [c]\<rparr>"

text \<open>
  A call of a comms wrapper returns the response of the wrapper; one of a network manager wrapper
  whether it was queued, from which the SDK makes its own response.
\<close>

definition comms_call :: "sdk_env \<Rightarrow> sdk_call \<Rightarrow> race_sdk \<Rightarrow> sdk_response \<times> race_sdk" where
  "comms_call E c s = (comms_answer E c, log_call c s)"

definition nm_call :: "sdk_env \<Rightarrow> sdk_call \<Rightarrow> u64 \<Rightarrow> race_sdk \<Rightarrow> sdk_response \<times> race_sdk" where
  "nm_call E c handle s = (case nm_answer E c of (success, utilization) \<Rightarrow>
     (\<lparr>resp_status = (if success then SDK_OK else SDK_QUEUE_FULL), queueUtilization = utilization,
       resp_handle = handle\<rparr>, log_call c s))"

section \<open>Handles and ids\<close>

definition START_TEST_HARNESS_HANDLE :: u64 where
  "START_TEST_HARNESS_HANDLE = push_bit 63 1"

text \<open>The SDK as its constructor leaves it, before the channels are initialised.\<close>

definition new_race_sdk :: "race_channels \<Rightarrow> race_sdk" where
  "new_race_sdk rc = \<lparr>isShuttingDown = False, sdk_links = new_race_links, sdk_channels = rc, has_nm = False,
     has_app = False, commsWrappers = {}, channelsActivateRequested = {}, channelsDisableRequested = {},
     networkManagerPluginHandleCount = 1, testHarnessHandleCount = START_TEST_HARNESS_HANDLE,
     connection_count = 0, link_count = 0, userInputHandles = (\<lambda>_. None), sdkUserInputRequests = {},
     sdk_calls = []\<rparr>"

definition generateHandle :: "bool \<Rightarrow> race_sdk \<Rightarrow> u64 \<times> race_sdk" where
  "generateHandle testHarness s =
     (if testHarness then
        let count = (if testHarnessHandleCount s = 0 then START_TEST_HARNESS_HANDLE else testHarnessHandleCount s)
        in (count, s\<lparr>testHarnessHandleCount := count + 1\<rparr>)
      else
        let count = (if networkManagerPluginHandleCount s = START_TEST_HARNESS_HANDLE then 1
              else networkManagerPluginHandleCount s)
        in (count, s\<lparr>networkManagerPluginHandleCount := count + 1\<rparr>))"

definition getNM :: "u64 \<Rightarrow> nm" where
  "getNM handle = (if and handle START_TEST_HARNESS_HANDLE \<noteq> 0 then TestHarness else PluginNM)"

text \<open>\<open>std::to_string\<close> of an \<open>int\<close>.\<close>

definition int_digits :: "i32 \<Rightarrow> string" where
  "int_digits i = (if sint i < 0 then CHR ''-'' # digits (nat (- sint i)) else digits (nat (sint i)))"

definition generateConnectionId :: "link_id \<Rightarrow> race_sdk \<Rightarrow> conn_id \<times> race_sdk" where
  "generateConnectionId linkId s =
     (if linkId = [] then ([], s)
      else (linkId @ ''/Connection_'' @ int_digits (connection_count s),
        s\<lparr>connection_count := connection_count s + 1\<rparr>))"

definition generateLinkId :: "string \<Rightarrow> string \<Rightarrow> race_sdk \<Rightarrow> link_id \<times> race_sdk" where
  "generateLinkId plugin gid s =
     (if \<not> isAvailable gid (sdk_channels s) then ([], s)
      else (plugin @ ''/'' @ gid @ ''/LinkID_'' @ int_digits (link_count s), s\<lparr>link_count := link_count s + 1\<rparr>))"

section \<open>Queries\<close>

definition sdk_getLinkProperties :: "link_id \<Rightarrow> race_sdk \<Rightarrow> link_properties" where
  "sdk_getLinkProperties l s = (case getLinkProperties l (sdk_links s) of
     Inl _ \<Rightarrow> default_link_properties | Inr p \<Rightarrow> p)"

definition sdk_getChannelProperties :: "string \<Rightarrow> race_sdk \<Rightarrow> channel_properties" where
  "sdk_getChannelProperties gid s = (case getChannelProperties gid (sdk_channels s) of
     Inl _ \<Rightarrow> default_channel_properties | Inr p \<Rightarrow> p)"

definition getLinksForPersonas :: "persona set \<Rightarrow> link_type \<Rightarrow> race_sdk \<Rightarrow> link_id list" where
  "getLinksForPersonas ps ty s =
     (if \<not> isValidLinkType ty then [] else getAllLinksForPersonas ps ty (sdk_links s))"

definition sdk_getLinkForConnection :: "conn_id \<Rightarrow> race_sdk \<Rightarrow> link_id" where
  "sdk_getLinkForConnection c s = (case getLinkForConnection c (sdk_links s) of
     Inl _ \<Rightarrow> [] | Inr l \<Rightarrow> l)"

section \<open>Requests of the network manager\<close>

text \<open>
  The checks that open every request about a channel: the SDK is running, the channel is
  available and its plugin is loaded.
\<close>

definition with_channel ::
    "string \<Rightarrow> (string \<Rightarrow> race_sdk \<Rightarrow> sdk_response \<times> race_sdk) \<Rightarrow> race_sdk \<Rightarrow> sdk_response \<times> race_sdk" where
  "with_channel gid f s =
     (if isShuttingDown s then (sdk_response_of SDK_SHUTTING_DOWN, s)
      else if \<not> isAvailable gid (sdk_channels s) then (sdk_response_of SDK_INVALID_ARGUMENT, s)
      else case getWrapperIdForChannel gid (sdk_channels s) of
        Inl _ \<Rightarrow> (sdk_response_of SDK_INVALID_ARGUMENT, s)
      | Inr plugin \<Rightarrow>
          if plugin \<notin> commsWrappers s then (sdk_response_of SDK_PLUGIN_MISSING, s) else f plugin s)"

definition deactivateChannel :: "sdk_env \<Rightarrow> bool \<Rightarrow> string \<Rightarrow> race_sdk \<Rightarrow> sdk_response \<times> race_sdk" where
  "deactivateChannel E harness gid = with_channel gid (\<lambda>plugin s.
     let (handle, s1) = generateHandle harness s in comms_call E (CommsDeactivateChannel plugin handle gid) s1)"

definition new_link_request ::
    "sdk_env \<Rightarrow> bool \<Rightarrow> string \<Rightarrow> persona set \<Rightarrow> string \<Rightarrow> (string \<Rightarrow> u64 \<Rightarrow> sdk_call) \<Rightarrow>
     race_sdk \<Rightarrow> sdk_response \<times> race_sdk" where
  "new_link_request E harness gid ps address c = with_channel gid (\<lambda>plugin s.
     let (handle, s1) = generateHandle harness s
     in comms_call E (c plugin handle) (upd_links (addNewLinkRequest handle ps address) s1))"

definition createLink :: "sdk_env \<Rightarrow> bool \<Rightarrow> string \<Rightarrow> persona set \<Rightarrow> race_sdk \<Rightarrow> sdk_response \<times> race_sdk" where
  "createLink E harness gid ps = new_link_request E harness gid ps [] (\<lambda>plugin handle. CommsCreateLink plugin handle gid)"

definition loadLinkAddress ::
    "sdk_env \<Rightarrow> bool \<Rightarrow> string \<Rightarrow> string \<Rightarrow> persona set \<Rightarrow> race_sdk \<Rightarrow> sdk_response \<times> race_sdk" where
  "loadLinkAddress E harness gid address ps =
     new_link_request E harness gid ps address (\<lambda>plugin handle. CommsLoadLinkAddress plugin handle gid address)"

definition loadLinkAddresses ::
    "sdk_env \<Rightarrow> bool \<Rightarrow> string \<Rightarrow> string list \<Rightarrow> persona set \<Rightarrow> race_sdk \<Rightarrow> sdk_response \<times> race_sdk" where
  "loadLinkAddresses E harness gid addresses ps =
     new_link_request E harness gid ps [] (\<lambda>plugin handle. CommsLoadLinkAddresses plugin handle gid addresses)"

definition createLinkFromAddress ::
    "sdk_env \<Rightarrow> bool \<Rightarrow> string \<Rightarrow> string \<Rightarrow> persona set \<Rightarrow> race_sdk \<Rightarrow> sdk_response \<times> race_sdk" where
  "createLinkFromAddress E harness gid address ps =
     new_link_request E harness gid ps address (\<lambda>plugin handle. CommsCreateLinkFromAddress plugin handle gid address)"

text \<open>Requests about a link or a connection find the plugin in the id; an id without one throws.\<close>

definition with_plugin ::
    "exn + string \<Rightarrow> (string \<Rightarrow> race_sdk \<Rightarrow> (exn + sdk_response) \<times> race_sdk) \<Rightarrow>
     race_sdk \<Rightarrow> (exn + sdk_response) \<times> race_sdk" where
  "with_plugin plugin f s =
     (if isShuttingDown s then (Inr (sdk_response_of SDK_SHUTTING_DOWN), s)
      else case plugin of
        Inl e \<Rightarrow> (Inl e, s)
      | Inr p \<Rightarrow> if p \<notin> commsWrappers s then (Inr (sdk_response_of SDK_PLUGIN_MISSING), s) else f p s)"

definition returning :: "sdk_response \<times> race_sdk \<Rightarrow> (exn + sdk_response) \<times> race_sdk" where
  "returning r = (Inr (fst r), snd r)"

definition destroyLink :: "sdk_env \<Rightarrow> bool \<Rightarrow> link_id \<Rightarrow> race_sdk \<Rightarrow> (exn + sdk_response) \<times> race_sdk" where
  "destroyLink E harness l = with_plugin (getPluginFromLinkID l) (\<lambda>plugin s.
     let (handle, s1) = generateHandle harness s in returning (comms_call E (CommsDestroyLink plugin handle l) s1))"

definition openConnectionInternal ::
    "sdk_env \<Rightarrow> u64 \<Rightarrow> link_type \<Rightarrow> link_id \<Rightarrow> string \<Rightarrow> race_sdk \<Rightarrow> (exn + sdk_response) \<times> race_sdk" where
  "openConnectionInternal E handle ty l hints = with_plugin (getPluginFromLinkID l) (\<lambda>plugin s.
     returning (comms_call E (CommsOpenConnection plugin handle ty l hints)
       (upd_links (addConnectionRequest handle l) s)))"

definition openConnection ::
    "sdk_env \<Rightarrow> bool \<Rightarrow> link_type \<Rightarrow> link_id \<Rightarrow> string \<Rightarrow> race_sdk \<Rightarrow> (exn + sdk_response) \<times> race_sdk" where
  "openConnection E harness ty l hints s =
     (let (handle, s1) = generateHandle harness s in openConnectionInternal E handle ty l hints s1)"

definition closeConnection :: "sdk_env \<Rightarrow> bool \<Rightarrow> conn_id \<Rightarrow> race_sdk \<Rightarrow> (exn + sdk_response) \<times> race_sdk" where
  "closeConnection E harness c = with_plugin (getPluginFromConnectionID c) (\<lambda>plugin s.
     let (handle, s1) = generateHandle harness s in returning (comms_call E (CommsCloseConnection plugin handle c) s1))"

definition serveFiles :: "sdk_env \<Rightarrow> link_id \<Rightarrow> string \<Rightarrow> race_sdk \<Rightarrow> (exn + sdk_response) \<times> race_sdk" where
  "serveFiles E l path = with_plugin (getPluginFromLinkID l) (\<lambda>plugin s.
     returning (comms_call E (CommsServeFiles plugin l path) s))"

definition flushChannel :: "sdk_env \<Rightarrow> bool \<Rightarrow> string \<Rightarrow> u64 \<Rightarrow> race_sdk \<Rightarrow> (exn + sdk_response) \<times> race_sdk" where
  "flushChannel E harness gid batchId s =
     (if isShuttingDown s then (Inr (sdk_response_of SDK_SHUTTING_DOWN), s)
      else if batchId = 0 then (Inr (sdk_response_of SDK_INVALID_ARGUMENT), s)
      else if \<not> isAvailable gid (sdk_channels s) then (Inr (sdk_response_of SDK_INVALID_ARGUMENT), s)
      else case getWrapperIdForChannel gid (sdk_channels s) of
        Inl e \<Rightarrow> (Inl e, s)
      | Inr plugin \<Rightarrow>
          if plugin \<notin> commsWrappers s then (Inr (sdk_response_of SDK_PLUGIN_MISSING), s)
          else let (handle, s1) = generateHandle harness s
            in returning (comms_call E (CommsFlushChannel plugin handle gid batchId) s1))"

definition sdk_setPersonasForLink :: "link_id \<Rightarrow> persona set \<Rightarrow> race_sdk \<Rightarrow> sdk_response \<times> race_sdk" where
  "sdk_setPersonasForLink l ps s = (case setPersonasForLink l ps (sdk_links s) of
     (True, rl) \<Rightarrow> (sdk_response_of SDK_OK, s\<lparr>sdk_links := rl\<rparr>)
   | (False, rl) \<Rightarrow> (sdk_response_of SDK_INVALID_ARGUMENT, s\<lparr>sdk_links := rl\<rparr>))"

definition getPersonasForLink :: "link_id \<Rightarrow> race_sdk \<Rightarrow> persona set" where
  "getPersonasForLink l s = getAllPersonasForLink l (sdk_links s)"

section \<open>Reports of the comms plugins\<close>

definition doesLinkPropertiesContainUndef :: "link_properties \<Rightarrow> bool" where
  "doesLinkPropertiesContainUndef p \<longleftrightarrow> lp_linkType p = LT_UNDEF \<or> lp_transmissionType p = TT_UNDEF \<or>
     lp_connectionType p = CT_UNDEF \<or> lp_sendType p = ST_UNDEF"

definition onPackageStatusChanged ::
    "sdk_env \<Rightarrow> u64 \<Rightarrow> package_status \<Rightarrow> race_sdk \<Rightarrow> sdk_response \<times> race_sdk" where
  "onPackageStatusChanged E handle status s =
     nm_call E (NmPackageStatus (getNM handle) handle status) 0 (upd_links (removeCachedPackageHandle handle) s)"

text \<open>The branches of \<open>onConnectionStatusChanged\<close>; \<open>False\<close> is the return of SDK_INVALID_ARGUMENT.\<close>

definition connection_opened :: "sdk_env \<Rightarrow> u64 \<Rightarrow> conn_id \<Rightarrow> race_sdk \<Rightarrow> bool \<times> race_sdk" where
  "connection_opened E handle connId s = (case addConnection handle connId (sdk_links s) of
     (Some _, rl) \<Rightarrow> (False, s\<lparr>sdk_links := rl\<rparr>)
   | (None, rl) \<Rightarrow> (True, s\<lparr>sdk_links := addTraceCtxForConnection connId (span_ids E) rl\<rparr>))"

definition fail_packages :: "sdk_env \<Rightarrow> u64 list \<Rightarrow> race_sdk \<Rightarrow> race_sdk" where
  "fail_packages E hs s = fold (\<lambda>h s. snd (onPackageStatusChanged E h PACKAGE_FAILED_GENERIC s)) hs s"

definition connection_closed :: "sdk_env \<Rightarrow> u64 \<Rightarrow> conn_id \<Rightarrow> race_sdk \<Rightarrow> race_sdk" where
  "connection_closed E handle connId s =
     (let s1 = fail_packages E (getCachedPackageHandles connId (sdk_links s)) s
      in upd_links (\<lambda>rl. snd (removeConnection connId (removeConnectionRequest handle rl))) s1)"

definition onConnectionStatusChanged ::
    "sdk_env \<Rightarrow> u64 \<Rightarrow> conn_id \<Rightarrow> connection_status \<Rightarrow> link_properties \<Rightarrow> race_sdk \<Rightarrow> sdk_response \<times> race_sdk" where
  "onConnectionStatusChanged E handle connId status props s =
     (if isShuttingDown s then (sdk_response_of SDK_SHUTTING_DOWN, s)
      else if \<not> has_nm s then (sdk_response_of SDK_PLUGIN_MISSING, s)
      else if connId = [] then (sdk_response_of SDK_INVALID_ARGUMENT, s)
      else case getLinkIDFromConnectionID connId of
        Inl _ \<Rightarrow> (sdk_response_of SDK_INVALID_ARGUMENT, s)
      | Inr linkId \<Rightarrow>
          if status \<noteq> CONNECTION_CLOSED \<and> status \<noteq> CONNECTION_UNAVAILABLE \<and> doesLinkPropertiesContainUndef props
          then (sdk_response_of SDK_INVALID_ARGUMENT, s)
          else
            let (ok, s1) = (case status of
                CONNECTION_OPEN \<Rightarrow> connection_opened E handle connId s
              | CONNECTION_CLOSED \<Rightarrow> (True, connection_closed E handle connId s)
              | CONNECTION_AVAILABLE \<Rightarrow> (True, s)
              | CONNECTION_UNAVAILABLE \<Rightarrow> (True, s)
              | _ \<Rightarrow> (False, s))
            in if \<not> ok then (sdk_response_of SDK_INVALID_ARGUMENT, s1)
               else if bootstrap_conn E handle then (sdk_response_of SDK_OK, s1)
               else nm_call E (NmConnectionStatus (getNM handle) handle connId status linkId props) handle s1)"

text \<open>
  The branches of \<open>onLinkStatusChanged\<close>. A created link takes the personas of the request, and its
  address when the plugin does not give one; \<open>None\<close> is the return of SDK_INVALID_ARGUMENT.
\<close>

definition link_created ::
    "sdk_env \<Rightarrow> u64 \<Rightarrow> link_id \<Rightarrow> link_properties \<Rightarrow> race_sdk \<Rightarrow> link_properties option \<times> race_sdk" where
  "link_created E handle linkId props s = (case completeNewLinkRequest handle linkId (sdk_links s) of
     (Inl _, rl) \<Rightarrow> (None, s\<lparr>sdk_links := rl\<rparr>)
   | (Inr address, rl) \<Rightarrow>
       let props1 = (if address \<noteq> [] \<and> lp_linkAddress props = [] then props\<lparr>lp_linkAddress := address\<rparr> else props)
       in (case updateLinkProperties linkId props1 rl of
             (Some _, rl1) \<Rightarrow> (None, s\<lparr>sdk_links := rl1\<rparr>)
           | (None, rl1) \<Rightarrow>
               (Some props1, s\<lparr>sdk_links := addTraceCtxForLink linkId (span_ids E) rl1,
                  sdk_channels := (if lp_channelGid props1 \<noteq> []
                     then setLinkId (lp_channelGid props1) linkId (sdk_channels s) else sdk_channels s)\<rparr>)))"

definition close_connections ::
    "sdk_env \<Rightarrow> u64 \<Rightarrow> link_properties \<Rightarrow> conn_id list \<Rightarrow> race_sdk \<Rightarrow> race_sdk" where
  "close_connections E handle props cs s =
     fold (\<lambda>c s. snd (onConnectionStatusChanged E handle c CONNECTION_CLOSED props s)) cs s"

definition link_destroyed :: "sdk_env \<Rightarrow> u64 \<Rightarrow> link_id \<Rightarrow> link_properties \<Rightarrow> race_sdk \<Rightarrow> race_sdk" where
  "link_destroyed E handle linkId props s =
     (let s1 = close_connections E handle props (getLinkConnections linkId (sdk_links s)) s;
          s2 = upd_links (\<lambda>rl. removeLink linkId (removeNewLinkRequest handle linkId rl)) s1
      in if lp_channelGid props \<noteq> [] then upd_channels (removeLinkId (lp_channelGid props) linkId) s2 else s2)"

definition onLinkStatusChanged ::
    "sdk_env \<Rightarrow> u64 \<Rightarrow> link_id \<Rightarrow> link_status \<Rightarrow> link_properties \<Rightarrow> race_sdk \<Rightarrow> sdk_response \<times> race_sdk" where
  "onLinkStatusChanged E handle linkId status props s =
     (if isShuttingDown s then (sdk_response_of SDK_SHUTTING_DOWN, s)
      else if \<not> has_nm s then (sdk_response_of SDK_PLUGIN_MISSING, s)
      else if linkId = [] then (sdk_response_of SDK_INVALID_ARGUMENT, s)
      else if status \<noteq> LINK_DESTROYED \<and> doesLinkPropertiesContainUndef props
      then (sdk_response_of SDK_INVALID_ARGUMENT, s)
      else
        let (res, s1) = (case status of
            LINK_DESTROYED \<Rightarrow> (Some props, link_destroyed E handle linkId props s)
          | LINK_UNDEF \<Rightarrow> (None, s)
          | _ \<Rightarrow> link_created E handle linkId props s)
        in case res of
             None \<Rightarrow> (sdk_response_of SDK_INVALID_ARGUMENT, s1)
           | Some props1 \<Rightarrow>
               if bootstrap_link E handle then (sdk_response_of SDK_OK, s1)
               else nm_call E (NmLinkStatus (getNM handle) handle linkId status props1) handle s1)"

text \<open>\<open>isspace\<close> of the C locale.\<close>

definition is_space :: "char \<Rightarrow> bool" where
  "is_space c \<longleftrightarrow> c \<in> {CHR '' '', CHR 0x09, CHR 0x0A, CHR 0x0B, CHR 0x0C, CHR 0x0D}"

definition destroy_links :: "sdk_env \<Rightarrow> u64 \<Rightarrow> link_properties \<Rightarrow> link_id list \<Rightarrow> race_sdk \<Rightarrow> race_sdk" where
  "destroy_links E handle props ls s =
     fold (\<lambda>l s. snd (onLinkStatusChanged E handle l LINK_DESTROYED props s)) ls s"

definition channel_status_checks :: "string \<Rightarrow> channel_properties \<Rightarrow> race_sdk \<Rightarrow> sdk_status option" where
  "channel_status_checks gid props s =
     (if \<not> channelStaticPropertiesEqual (sdk_getChannelProperties (channelGid props) s) props
      then Some SDK_INVALID_ARGUMENT
      else if isShuttingDown s then Some SDK_SHUTTING_DOWN
      else if \<not> has_nm s then Some SDK_PLUGIN_MISSING
      else if filter (\<lambda>c. \<not> is_space c) gid = [] then Some SDK_INVALID_ARGUMENT
      else None)"

definition onChannelStatusChanged ::
    "sdk_env \<Rightarrow> u64 \<Rightarrow> string \<Rightarrow> channel_status \<Rightarrow> channel_properties \<Rightarrow> race_sdk \<Rightarrow> sdk_response \<times> race_sdk" where
  "onChannelStatusChanged E handle gid status props s = (case channel_status_checks gid props s of
     Some e \<Rightarrow> (sdk_response_of e, s)
   | None \<Rightarrow>
       if status = CHANNEL_AVAILABLE \<and> gid \<notin> channelsActivateRequested s
       then (sdk_response_of SDK_INVALID_ARGUMENT, s)
       else
         let s1 = (if status = CHANNEL_AVAILABLE
                then s\<lparr>channelsActivateRequested := channelsActivateRequested s - {gid}\<rparr> else s);
             status1 = (if gid \<in> channelsDisableRequested s1 then CHANNEL_DISABLED else status);
             s2 = s1\<lparr>channelsDisableRequested := channelsDisableRequested s1 - {gid}\<rparr>
         in (case update gid status1 props (sdk_channels s2) of
               (False, rc) \<Rightarrow> (sdk_response_of SDK_INVALID_ARGUMENT, s2\<lparr>sdk_channels := rc\<rparr>)
             | (True, rc) \<Rightarrow>
                 let (r, s3) = nm_call E (NmChannelStatus (getNM handle) handle gid status1 props) handle
                       (s2\<lparr>sdk_channels := rc\<rparr>)
                 in (r, if status1 = CHANNEL_FAILED \<or> status1 = CHANNEL_DISABLED
                     then destroy_links E handle (default_link_properties\<lparr>lp_channelGid := gid\<rparr>)
                       (getLinksForChannel gid (sdk_channels s3)) s3
                     else s3)))"

text \<open>
  The wrapper of the plugin, when it cannot post the activation, reports before it answers that the
  channel has failed, with properties made up on the spot (CommsWrapper.cpp).
\<close>

definition activateChannel :: "sdk_env \<Rightarrow> bool \<Rightarrow> string \<Rightarrow> string \<Rightarrow> race_sdk \<Rightarrow> sdk_response \<times> race_sdk" where
  "activateChannel E harness gid role s =
     (if isShuttingDown s then (sdk_response_of SDK_SHUTTING_DOWN, s)
      else case activate gid role (sdk_channels s) of
        (False, rc) \<Rightarrow> (sdk_response_of SDK_INVALID_ARGUMENT, s\<lparr>sdk_channels := rc\<rparr>)
      | (True, rc) \<Rightarrow>
          let s1 = s\<lparr>sdk_channels := rc, channelsActivateRequested := insert gid (channelsActivateRequested s)\<rparr>
          in (case getWrapperIdForChannel gid rc of
                Inl _ \<Rightarrow> (sdk_response_of SDK_INVALID_ARGUMENT, upd_channels (channelFailed gid) s1)
              | Inr plugin \<Rightarrow>
                  if plugin \<notin> commsWrappers s1
                  then (sdk_response_of SDK_PLUGIN_MISSING, upd_channels (channelFailed gid) s1)
                  else let (handle, s2) = generateHandle harness s1;
                      (r, s3) = comms_call E (CommsActivateChannel plugin handle gid role) s2
                    in (r, if resp_status r = SDK_INVALID_ARGUMENT \<or> resp_status r = SDK_QUEUE_FULL
                      then snd (onChannelStatusChanged E handle gid CHANNEL_FAILED
                        (default_channel_properties\<lparr>channelStatus := CHANNEL_FAILED\<rparr>) s3)
                      else s3)))"

text \<open>Both network manager wrappers are told, whatever they answer.\<close>

definition sdk_updateLinkProperties ::
    "link_id \<Rightarrow> link_properties \<Rightarrow> race_sdk \<Rightarrow> sdk_response \<times> race_sdk" where
  "sdk_updateLinkProperties l props s =
     (if doesLinkPropertiesContainUndef props then (sdk_response_of SDK_INVALID_ARGUMENT, s)
      else case updateLinkProperties l props (sdk_links s) of
        (Some _, rl) \<Rightarrow> (sdk_response_of SDK_INVALID_ARGUMENT, s\<lparr>sdk_links := rl\<rparr>)
      | (None, rl) \<Rightarrow> (sdk_response_of SDK_OK,
          log_call (NmLinkProperties TestHarness l props) (log_call (NmLinkProperties PluginNM l props)
            (s\<lparr>sdk_links := rl\<rparr>))))"

section \<open>Channels and the user\<close>

definition enableChannel :: "sdk_env \<Rightarrow> string \<Rightarrow> race_sdk \<Rightarrow> bool \<times> race_sdk" where
  "enableChannel E gid s =
     (if isShuttingDown s then (False, s)
      else case getWrapperIdForChannel gid (sdk_channels s) of
        Inl _ \<Rightarrow> (False, s)
      | Inr plugin \<Rightarrow>
          let s1 = upd_channels (setUserEnabled gid) s
          in if getStatus gid (sdk_channels s1) \<noteq> Inr CHANNEL_DISABLED then (True, s1)
             else if plugin \<notin> commsWrappers s1 then (False, s1)
             else let (r, s2) = onChannelStatusChanged E NULL_RACE_HANDLE gid CHANNEL_ENABLED
                    (sdk_getChannelProperties gid s1) s1
               in (resp_status r = SDK_OK, s2))"

definition disableChannel :: "sdk_env \<Rightarrow> string \<Rightarrow> race_sdk \<Rightarrow> bool \<times> race_sdk" where
  "disableChannel E gid s =
     (if isShuttingDown s then (False, s)
      else case getWrapperIdForChannel gid (sdk_channels s) of
        Inl _ \<Rightarrow> (False, s)
      | Inr plugin \<Rightarrow>
          let s1 = upd_channels (setUserDisabled gid) s; status = getStatus gid (sdk_channels s1)
          in if status = Inr CHANNEL_DISABLED then (True, s1)
             else if plugin \<notin> commsWrappers s1 then (False, s1)
             else if status = Inr CHANNEL_ENABLED \<or> status = Inr CHANNEL_UNAVAILABLE
             then let (r, s2) = onChannelStatusChanged E NULL_RACE_HANDLE gid CHANNEL_DISABLED
                    (sdk_getChannelProperties gid s1) s1
               in (resp_status r = SDK_OK, s2)
             else let (handle, s2) = generateHandle False
                    (s1\<lparr>channelsDisableRequested := insert gid (channelsDisableRequested s1)\<rparr>);
                  (r, s3) = comms_call E (CommsDeactivateChannel plugin handle gid) s2
               in (resp_status r = SDK_OK, s3))"

text \<open>
  \<open>getChannelProperties\<close> throws for an unknown channel, but on a client only: elsewhere the first
  operand of the condition decides.
\<close>

definition setChannelEnabled :: "sdk_env \<Rightarrow> string \<Rightarrow> bool \<Rightarrow> race_sdk \<Rightarrow> bool \<times> race_sdk" where
  "setChannelEnabled E gid enabled s =
     (if is_client E \<and> (case getChannelProperties gid (sdk_channels s) of
           Inl _ \<Rightarrow> True | Inr p \<Rightarrow> connectionType p = CT_DIRECT) then (False, s)
      else (True, upd_channels (setStatus gid (if enabled then CHANNEL_ENABLED else CHANNEL_DISABLED)) s))"

definition setEnabledChannels :: "sdk_env \<Rightarrow> string list \<Rightarrow> race_sdk \<Rightarrow> bool \<times> race_sdk" where
  "setEnabledChannels E gids s =
     (if isShuttingDown s then (False, s)
      else if has_app s then (False, s)
      else (True, fold (\<lambda>gid s. snd (setChannelEnabled E gid True s)) gids
        (upd_channels (setUserEnabledChannels gids) s)))"

definition getInitialEnabledChannels :: "string list \<Rightarrow> race_sdk \<Rightarrow> string list" where
  "getInitialEnabledChannels initial s =
     (if initial \<noteq> [] then initial
      else map channelGid (filter (\<lambda>p. channelStatus p \<noteq> CHANNEL_UNSUPPORTED) (getChannels (sdk_channels s))))"

text \<open>
  \<open>initializeRaceChannels\<close>: the plugin definitions as pairs of a file path and its channels, the
  compositions as pairs of an id and the file paths of its plugins, and what the file of enabled
  channels holds.
\<close>

definition init_channel ::
    "sdk_env \<Rightarrow> string set option \<Rightarrow> string \<Rightarrow> string list \<Rightarrow> string \<Rightarrow> race_sdk \<Rightarrow> race_sdk" where
  "init_channel E file gid plugins wrapper s =
     (let s1 = upd_channels (setWrapperIdForChannel gid wrapper \<circ> setPluginsForChannel gid plugins) s;
          (enabled, rc) = isUserEnabled file gid (sdk_channels s1)
      in snd (setChannelEnabled E gid enabled (s1\<lparr>sdk_channels := rc\<rparr>)))"

definition initializeRaceChannels ::
    "sdk_env \<Rightarrow> string set option \<Rightarrow> (string \<times> string list) list \<Rightarrow> (string \<times> string list) list \<Rightarrow>
     race_sdk \<Rightarrow> race_sdk" where
  "initializeRaceChannels E file pluginDefs compositions s =
     fold (\<lambda>(gid, plugins). init_channel E file gid plugins gid) compositions
       (fold (\<lambda>(path, gids). fold (\<lambda>gid. init_channel E file gid [path] path) gids) pluginDefs s)"

text \<open>After loading, channels whose wrapper did not load are unsupported.\<close>

definition mark_unsupported :: "race_sdk \<Rightarrow> race_sdk" where
  "mark_unsupported s = fold (\<lambda>p s. case getWrapperIdForChannel (channelGid p) (sdk_channels s) of
       Inl _ \<Rightarrow> s
     | Inr w \<Rightarrow> if w \<in> commsWrappers s then s
         else upd_channels (setStatus (channelGid p) CHANNEL_UNSUPPORTED) s)
     (getChannels (sdk_channels s)) s"

definition cleanupChannels :: "sdk_env \<Rightarrow> string \<Rightarrow> race_sdk \<Rightarrow> race_sdk" where
  "cleanupChannels E plugin s =
     fold (\<lambda>gid s. snd (onChannelStatusChanged E NULL_RACE_HANDLE gid CHANNEL_FAILED
         (sdk_getChannelProperties gid s) s))
       (getPluginChannelIds plugin (sdk_channels s)) s"

text \<open>\<open>shutdownPluginInternal\<close>, and \<open>shutdownPluginAsync\<close> in a thread of its own.\<close>

definition shutdownPlugin :: "sdk_env \<Rightarrow> string \<Rightarrow> race_sdk \<Rightarrow> race_sdk" where
  "shutdownPlugin E plugin s =
     (let s1 = cleanupChannels E plugin (log_call (CommsShutdown plugin) s)
      in s1\<lparr>commsWrappers := commsWrappers s1 - {plugin}\<rparr>)"

end
