(* ===== verification/Race_Sdk_Packages.thy ===== *)
theory Race_Sdk_Packages
  imports Race_Sdk
begin

text \<open>
  The SDK, continued: packages on their way to and from the comms plugins, and the requests of
  plugins to the user (racesdk/core/source/RaceSdk.cpp).
\<close>

section \<open>Sending\<close>

text \<open>\<open>VOA_DROP_TIMESTAMP\<close> is the smallest 32-bit integer.\<close>

definition VOA_DROP_TIMESTAMP :: real where
  "VOA_DROP_TIMESTAMP = - (2 ^ 31)"

definition shipPackage ::
    "sdk_env \<Rightarrow> u64 \<Rightarrow> enc_pkg \<Rightarrow> conn_id \<Rightarrow> bool \<Rightarrow> u64 \<Rightarrow> race_sdk \<Rightarrow> (exn + sdk_response) \<times> race_sdk" where
  "shipPackage E handle pkg connId harness batchId = with_plugin (getPluginFromConnectionID connId) (\<lambda>plugin s.
     if \<not> doesConnectionExist connId (sdk_links s) then (Inr (sdk_response_of SDK_INVALID_ARGUMENT), s)
     else case getLinkForConnection connId (sdk_links s) of
       Inl e \<Rightarrow> (Inl e, s)
     | Inr linkId \<Rightarrow>
         returning (comms_call E (CommsSendPackage plugin handle connId
             (setPackageType (if harness then PKG_TYPE_TEST_HARNESS else PKG_TYPE_NM) pkg) batchId)
           (upd_links (cachePackageHandle connId handle) s)))"

text \<open>
  The work items hold what \<open>shipPackage\<close> needs when their time has come. A package that is dropped
  drops the queue and leaves no handle to wait for.
\<close>

definition shipVoaItems ::
    "sdk_env \<Rightarrow> u64 \<Rightarrow> (enc_pkg \<times> real) list \<Rightarrow> conn_id \<Rightarrow> bool \<Rightarrow> u64 \<Rightarrow> race_sdk \<Rightarrow> sdk_response \<times> race_sdk" where
  "shipVoaItems E handle voaPkgQueue connId harness batchId s =
     (if isShuttingDown s then (sdk_response_of SDK_SHUTTING_DOWN, s)
      else if list_ex (\<lambda>(pkg, hold). hold = VOA_DROP_TIMESTAMP) voaPkgQueue then (sdk_response_of SDK_OK, s)
      else (\<lparr>resp_status = SDK_OK, queueUtilization = 0, resp_handle = handle\<rparr>,
        log_call (VoaProcess handle connId voaPkgQueue harness batchId) s))"

definition sendEncryptedPackage ::
    "sdk_env \<Rightarrow> bool \<Rightarrow> enc_pkg \<Rightarrow> conn_id \<Rightarrow> u64 \<Rightarrow> race_sdk \<Rightarrow> (exn + sdk_response) \<times> race_sdk" where
  "sendEncryptedPackage E harness pkg connId batchId s =
     (if isShuttingDown s then (Inr (sdk_response_of SDK_SHUTTING_DOWN), s)
      else if \<not> doesConnectionExist connId (sdk_links s) then (Inr (sdk_response_of SDK_INVALID_ARGUMENT), s)
      else
        let (handle, s1) = generateHandle harness s
        in if \<not> voa_active E then shipPackage E handle pkg connId harness batchId s1
           else case getLinkForConnection connId (sdk_links s1) of
             Inl e \<Rightarrow> (Inl e, s1)
           | Inr linkId \<Rightarrow>
               let q = voa_queue E pkg linkId (lp_channelGid (sdk_getLinkProperties linkId s1))
                     (getAllPersonasForLink linkId (sdk_links s1))
               in if q \<noteq> []
                  then returning (shipVoaItems E handle q connId harness batchId
                    (upd_links (cachePackageHandle connId handle) s1))
                  else shipPackage E handle pkg connId harness batchId s1)"

text \<open>\<open>createBootstrapPkg\<close> makes a JSON text; what it makes is an argument.\<close>

definition sendBootstrapPkg ::
    "sdk_env \<Rightarrow> bool \<Rightarrow> conn_id \<Rightarrow> bytes \<Rightarrow> race_sdk \<Rightarrow> (exn + sdk_response) \<times> race_sdk" where
  "sendBootstrapPkg E harness connId contents = with_plugin (getPluginFromConnectionID connId) (\<lambda>plugin s.
     if \<not> doesConnectionExist connId (sdk_links s) then (Inr (sdk_response_of SDK_INVALID_ARGUMENT), s)
     else let pkg = setPackageType PKG_TYPE_SDK (enc_pkg_new 0 0 contents);
              (handle, s1) = generateHandle harness s
       in returning (comms_call E (CommsSendPackage plugin handle connId pkg 0)
            (upd_links (cachePackageHandle connId handle) s1)))"

section \<open>Receiving\<close>

text \<open>
  Each connection of the set \<open>closed\<close> is erased once from the list, where it is first found. The set
  is unordered; erasing first occurrences of distinct elements in any order gives the same list.
\<close>

fun erase_each :: "conn_id list \<Rightarrow> conn_id list \<Rightarrow> conn_id list" where
  "erase_each [] cs = cs"
| "erase_each (x # xs) cs = erase_each xs (remove1 x cs)"

definition receiveEncPkg ::
    "sdk_env \<Rightarrow> enc_pkg \<Rightarrow> conn_id list \<Rightarrow> race_sdk \<Rightarrow> (exn + sdk_response) \<times> race_sdk" where
  "receiveEncPkg E pkg connIDs s =
     (if [] \<in> set connIDs then (Inr (sdk_response_of SDK_INVALID_ARGUMENT), s)
      else if isShuttingDown s then (Inr (sdk_response_of SDK_SHUTTING_DOWN), s)
      else if \<not> has_nm s then (Inr (sdk_response_of SDK_PLUGIN_MISSING), s)
      else
        let closed = remdups (filter (\<lambda>c. \<not> doesConnectionExist c (sdk_links s)) connIDs)
        in if length closed = length connIDs then (Inr (sdk_response_of SDK_INVALID_ARGUMENT), s)
           else
             let filtered = erase_each closed connIDs
             in if list_ex (\<lambda>c. case getLinkForConnection c (sdk_links s) of Inl _ \<Rightarrow> True | Inr _ \<Rightarrow> False) filtered
                then (Inl InvalidArgument, s)
                else if getPackageType pkg = PKG_TYPE_SDK
                then (Inr (sdk_response_of SDK_OK),
                  log_call (BootstrapReceive pkg (sdk_getLinkForConnection (hd connIDs) s)) s)
                else let (handle, s1) = generateHandle (getPackageType pkg = PKG_TYPE_TEST_HARNESS) s
                  in returning (nm_call E (NmProcessEncPkg (getNM handle) handle pkg filtered) handle s1))"

section \<open>The user\<close>

text \<open>A request that is not queued is forgotten.\<close>

definition user_request ::
    "sdk_env \<Rightarrow> string \<Rightarrow> bool \<Rightarrow> (u64 \<Rightarrow> sdk_call) \<Rightarrow> race_sdk \<Rightarrow> sdk_response \<times> race_sdk" where
  "user_request E pluginId harness c s =
     (let (handle, s1) = generateHandle harness s;
          (r, s2) = comms_call E (c handle) (s1\<lparr>userInputHandles := (userInputHandles s1)(handle \<mapsto> pluginId)\<rparr>)
      in (r, if resp_status r \<noteq> SDK_OK
          then s2\<lparr>userInputHandles := (userInputHandles s2)(handle := None)\<rparr> else s2))"

definition requestPluginUserInput ::
    "sdk_env \<Rightarrow> string \<Rightarrow> bool \<Rightarrow> string \<Rightarrow> string \<Rightarrow> bool \<Rightarrow> race_sdk \<Rightarrow> sdk_response \<times> race_sdk" where
  "requestPluginUserInput E pluginId harness key prompt cache =
     user_request E pluginId harness (\<lambda>handle. AppRequestUserInput handle pluginId key prompt cache)"

definition requestCommonUserInput ::
    "sdk_env \<Rightarrow> (string \<Rightarrow> bool) \<Rightarrow> string \<Rightarrow> bool \<Rightarrow> string \<Rightarrow> race_sdk \<Rightarrow> sdk_response \<times> race_sdk" where
  "requestCommonUserInput E validKey pluginId harness key s =
     (if \<not> validKey key then (sdk_response_of SDK_INVALID_ARGUMENT, s)
      else user_request E pluginId harness (\<lambda>handle. AppRequestUserInput handle ''Common'' key key True) s)"

definition displayInfoToUser :: "sdk_env \<Rightarrow> string \<Rightarrow> string \<Rightarrow> race_sdk \<Rightarrow> sdk_response \<times> race_sdk" where
  "displayInfoToUser E pluginId info =
     user_request E pluginId False (\<lambda>handle. AppDisplayInfo handle info)"

text \<open>
  The answer of the user goes to whoever asked: the SDK, the network manager of the handle (whose
  id is the argument \<open>nm_id\<close>), or a comms plugin.
\<close>

definition user_reply ::
    "sdk_env \<Rightarrow> (nm \<Rightarrow> string) \<Rightarrow> u64 \<Rightarrow> (race_sdk \<Rightarrow> sdk_response \<times> race_sdk) \<Rightarrow> (nm \<Rightarrow> sdk_call) \<Rightarrow>
     (string \<Rightarrow> sdk_call) \<Rightarrow> race_sdk \<Rightarrow> sdk_response \<times> race_sdk" where
  "user_reply E nm_id handle own nm_c comms_c s =
     (if isShuttingDown s then (sdk_response_of SDK_SHUTTING_DOWN, s)
      else case userInputHandles s handle of
        None \<Rightarrow> (sdk_response_of SDK_PLUGIN_MISSING, s)
      | Some pluginId \<Rightarrow>
          let s1 = s\<lparr>userInputHandles := (userInputHandles s)(handle := None)\<rparr>
          in if pluginId = ''sdk'' then own s1
             else if pluginId = nm_id (getNM handle) then nm_call E (nm_c (getNM handle)) handle s1
             else if pluginId \<notin> commsWrappers s1 then (sdk_response_of SDK_PLUGIN_MISSING, s1)
             else nm_call E (comms_c pluginId) handle s1)"

definition onUserAcknowledgementReceived ::
    "sdk_env \<Rightarrow> (nm \<Rightarrow> string) \<Rightarrow> u64 \<Rightarrow> race_sdk \<Rightarrow> sdk_response \<times> race_sdk" where
  "onUserAcknowledgementReceived E nm_id handle =
     user_reply E nm_id handle (Pair (sdk_response_of SDK_OK)) (\<lambda>nm. NmUserAcknowledgement nm handle)
       (\<lambda>plugin. CommsUserAcknowledgement plugin handle)"

text \<open>An answer to the SDK fulfils the promise it waits for.\<close>

definition onUserInputReceived ::
    "sdk_env \<Rightarrow> (nm \<Rightarrow> string) \<Rightarrow> u64 \<Rightarrow> bool \<Rightarrow> string \<Rightarrow> race_sdk \<Rightarrow> sdk_response \<times> race_sdk" where
  "onUserInputReceived E nm_id handle answered response =
     user_reply E nm_id handle
       (\<lambda>s. (\<lparr>resp_status = SDK_OK, queueUtilization = 0, resp_handle = handle\<rparr>,
          if handle \<in> sdkUserInputRequests s
          then log_call (SdkInputAnswer handle (if answered then Some response else None)) s else s))
       (\<lambda>nm. NmUserInput nm handle answered response) (\<lambda>plugin. CommsUserInput plugin handle answered response)"

section \<open>Bootstrap links and the network manager's state\<close>

text \<open>
  The first available channel that is for bootstrapping, local, and the one asked for if one is
  asked for; the channels are given in the order of their ids.
\<close>

fun bootstrap_channel ::
    "string \<Rightarrow> (string \<times> channel_properties) list \<Rightarrow> race_sdk \<Rightarrow> (string \<times> string) option" where
  "bootstrap_channel wanted [] s = None"
| "bootstrap_channel wanted ((gid, p) # rest) s =
     (if bootstrap p \<and> connectionType p = CT_LOCAL then
        (case getWrapperIdForChannel gid (sdk_channels s) of
           Inl _ \<Rightarrow> None
         | Inr plugin \<Rightarrow>
             if wanted = [] \<or> wanted = gid
             then (if plugin \<in> commsWrappers s then Some (plugin, gid) else None)
             else bootstrap_channel wanted rest s)
      else bootstrap_channel wanted rest s)"

definition createBootstrapLink ::
    "sdk_env \<Rightarrow> u64 \<Rightarrow> string \<Rightarrow> string \<Rightarrow> (string \<times> channel_properties) list \<Rightarrow> race_sdk \<Rightarrow> bool \<times> race_sdk" where
  "createBootstrapLink E handle passphrase wanted supported s =
     (case bootstrap_channel wanted supported s of
        None \<Rightarrow> (False, s)
      | Some (plugin, gid) \<Rightarrow>
          let (r, s1) = comms_call E (CommsCreateBootstrapLink plugin handle gid passphrase)
                (upd_links (addNewLinkRequest handle {} []) s)
          in (resp_status r = SDK_OK, s1))"

definition getContacts :: "race_sdk \<Rightarrow> persona set" where
  "getContacts s = getAllPersonaSet (sdk_links s)"

definition validateDeviceInfo :: "string \<Rightarrow> string \<Rightarrow> string \<Rightarrow> bool" where
  "validateDeviceInfo platform architecture nodeType \<longleftrightarrow>
     (platform, architecture) \<in> {(''linux'', ''x86_64''), (''android'', ''x86_64''), (''android'', ''arm64-v8a'')} \<and>
     (nodeType, platform) \<in> {(''client'', ''android''), (''client'', ''linux''), (''server'', ''linux'')}"

end
