(* ===== verification/Race_Links_Inv.thy ===== *)
theory Race_Links_Inv
  imports Race_Links
begin

text \<open>
  The links of the SDK, continued: the identifiers read back, the two maps between links and
  connections agree in every state the operations reach, and the operations implement an
  abstract table of links and connections.
\<close>

section \<open>Identifiers\<close>

definition no_slash :: "string \<Rightarrow> bool" where
  "no_slash s \<longleftrightarrow> CHR ''/'' \<notin> set s"

lemma plugin_of_link: "no_slash p \<Longrightarrow> getPluginFromLinkID (p @ CHR ''/'' # rest) = Inr p"
  by (simp add: getPluginFromLinkID_def str_pos_hit no_slash_def)

lemma link_of_conn:
  assumes "no_slash p" "no_slash gid" "no_slash l"
  shows "getLinkIDFromConnectionID (p @ ''/'' @ gid @ ''/'' @ l @ ''/'' @ rest) = Inr (p @ ''/'' @ gid @ ''/'' @ l)"
proof -
  let ?c = "CHR ''/''"
  have 1: "str_pos (p @ ?c # gid @ ?c # l @ ?c # rest) ?c 0 = Some (length p)"
    using assms by (intro str_pos_hit) (simp_all add: no_slash_def)
  have 2: "str_pos (p @ ?c # gid @ ?c # l @ ?c # rest) ?c (Suc (length p)) = Some (Suc (length p + length gid))"
    using assms str_pos_hit [of ?c "Suc (length p)" "p @ ?c # gid" "l @ ?c # rest"]
    by (simp add: no_slash_def)
  have 3: "str_pos (p @ ?c # gid @ ?c # l @ ?c # rest) ?c (Suc (Suc (length p + length gid))) =
      Some (Suc (Suc (length p + length gid + length l)))"
    using assms str_pos_hit [of ?c "Suc (Suc (length p + length gid))" "p @ ?c # gid @ ?c # l" rest]
    by (simp add: no_slash_def)
  show ?thesis using 1 2 3 by (simp add: getLinkIDFromConnectionID_def Let_def)
qed

section \<open>What the operations do to the maps\<close>

lemma link_of_upd_info [simp]:
  "link_of (upd_info l f rl) k = (if k = l then Some (f (at_default empty_link (linkIdToInfo rl) l)) else link_of rl k)"
  by (simp add: link_of_def upd_info_def)

lemma upd_info_fields [simp]:
  "destroyedLinkProfiles (upd_info l f rl) = destroyedLinkProfiles rl"
  "connToLink (upd_info l f rl) = connToLink rl"
  "handleToLink (upd_info l f rl) = handleToLink rl"
  "handleToNewLink (upd_info l f rl) = handleToNewLink rl"
  "packageHandleConnectionMap (upd_info l f rl) = packageHandleConnectionMap rl"
  by (simp_all add: upd_info_def)

lemma link_of_fields [simp]:
  "link_of (rl\<lparr>connToLink := a\<rparr>) = link_of rl"
  "link_of (rl\<lparr>handleToLink := b\<rparr>) = link_of rl"
  "link_of (rl\<lparr>handleToNewLink := n\<rparr>) = link_of rl"
  "link_of (rl\<lparr>packageHandleConnectionMap := p\<rparr>) = link_of rl"
  "link_of (rl\<lparr>destroyedLinkProfiles := d\<rparr>) = link_of rl"
  by (simp_all add: link_of_def fun_eq_iff)

lemma upd_info_Some [simp]:
  "link_of rl l = Some i \<Longrightarrow> at_default empty_link (linkIdToInfo rl) l = i"
  by (simp add: link_of_def)

lemma upd_conn_fields [simp]:
  "link_personas (upd_conn c f i) = link_personas i" "properties (upd_conn c f i) = properties i"
  "link_traceCtx (upd_conn c f i) = link_traceCtx i"
  "map_of (connIdToInfo (upd_conn c f i)) =
     (map_of (connIdToInfo i))(c \<mapsto> f (at_default empty_connection (connIdToInfo i) c))"
  by (simp_all add: upd_conn_def)

section \<open>The invariant\<close>

text \<open>The connections of a link.\<close>

definition conns_of :: "race_links \<Rightarrow> link_id \<Rightarrow> conn_id \<rightharpoonup> connection_info" where
  "conns_of rl l = (case link_of rl l of None \<Rightarrow> (\<lambda>_. None) | Some i \<Rightarrow> map_of (connIdToInfo i))"

text \<open>
  Keys are unique; \<open>connToLink\<close> and the tables of the links name the same connections, which are
  those their ids say; the handles of packages in flight lead back to their connection.
\<close>

definition keys_ok :: "race_links \<Rightarrow> bool" where
  "keys_ok rl \<longleftrightarrow> distinct (map fst (linkIdToInfo rl)) \<and>
     (\<forall>l i. link_of rl l = Some i \<longrightarrow> distinct (map fst (connIdToInfo i)))"

definition links_ok :: "race_links \<Rightarrow> bool" where
  "links_ok rl \<longleftrightarrow> keys_ok rl \<and>
     (\<forall>c l. connToLink rl c = Some l \<longleftrightarrow> conns_of rl l c \<noteq> None) \<and>
     (\<forall>c l. connToLink rl c = Some l \<longrightarrow> getLinkIDFromConnectionID c = Inr l) \<and>
     (\<forall>c l ci h. conns_of rl l c = Some ci \<longrightarrow> h \<in> set (packageHandles ci) \<longrightarrow>
        h \<noteq> NULL_RACE_HANDLE \<and> packageHandleConnectionMap rl h = Some c)"

text \<open>The operations, with what the SDK and the plugins must respect when they call them.\<close>

inductive links_step :: "race_links \<Rightarrow> race_links \<Rightarrow> bool" where
  ls_addLink: "links_step rl (snd (addLink l ps rl))"
| ls_removeLink: "links_step rl (removeLink l rl)"
| ls_complete: "\<forall>c. conns_of rl l c = None \<Longrightarrow> links_step rl (snd (completeNewLinkRequest h l rl))"
| ls_newRequest: "links_step rl (addNewLinkRequest h ps a rl)"
| ls_removeNewRequest: "links_step rl (removeNewLinkRequest h l rl)"
| ls_properties: "links_step rl (snd (updateLinkProperties l props rl))"
| ls_personas: "links_step rl (snd (setPersonasForLink l ps rl))"
| ls_connRequest: "links_step rl (addConnectionRequest h l rl)"
| ls_addConnection: "(\<And>l. handleToLink rl h = Some l \<Longrightarrow> getLinkIDFromConnectionID c = Inr l) \<Longrightarrow>
    links_step rl (snd (addConnection h c rl))"
| ls_removeConnRequest: "links_step rl (removeConnectionRequest h rl)"
| ls_removeConnection: "links_step rl (snd (removeConnection c rl))"
| ls_traceLink: "links_step rl (addTraceCtxForLink l ids rl)"
| ls_traceConn: "links_step rl (addTraceCtxForConnection c ids rl)"
| ls_cache: "packageHandleConnectionMap rl h \<in> {None, Some c} \<Longrightarrow> links_step rl (cachePackageHandle c h rl)"
| ls_uncache: "links_step rl (removeCachedPackageHandle h rl)"
| ls_nextId: "links_step rl (snd (getNextLinkID plugin rl))"

lemma links_okD:
  assumes "links_ok rl"
  shows "connToLink rl c = Some l \<longleftrightarrow> conns_of rl l c \<noteq> None"
    and "connToLink rl c = Some l \<Longrightarrow> getLinkIDFromConnectionID c = Inr l"
    and "conns_of rl l c = Some ci \<Longrightarrow> h \<in> set (packageHandles ci) \<Longrightarrow>
      h \<noteq> NULL_RACE_HANDLE \<and> packageHandleConnectionMap rl h = Some c"
  using assms unfolding links_ok_def by blast+

lemma links_ok_unique:
  "links_ok rl \<Longrightarrow> conns_of rl l c = Some ci \<Longrightarrow> conns_of rl k c = Some di \<Longrightarrow> k = l"
  using links_okD(1) by (metis option.discI option.inject)

lemma conns_of_upd_info [simp]:
  "conns_of (upd_info l f rl) k =
     (if k = l then map_of (connIdToInfo (f (at_default empty_link (linkIdToInfo rl) l))) else conns_of rl k)"
  by (simp add: conns_of_def)

lemma conns_of_fields [simp]:
  "conns_of (rl\<lparr>connToLink := a\<rparr>) = conns_of rl"
  "conns_of (rl\<lparr>handleToLink := b\<rparr>) = conns_of rl"
  "conns_of (rl\<lparr>handleToNewLink := n\<rparr>) = conns_of rl"
  "conns_of (rl\<lparr>packageHandleConnectionMap := p\<rparr>) = conns_of rl"
  "conns_of (rl\<lparr>destroyedLinkProfiles := d\<rparr>) = conns_of rl"
  by (simp_all add: conns_of_def fun_eq_iff)

lemma conns_of_Some: "link_of rl l = Some i \<Longrightarrow> map_of (connIdToInfo i) = conns_of rl l"
  by (simp add: conns_of_def)

lemma keys_ok_at: "keys_ok rl \<Longrightarrow> distinct (map fst (connIdToInfo (at_default empty_link (linkIdToInfo rl) l)))"
  by (cases "link_of rl l") (auto simp: keys_ok_def link_of_def at_default_def empty_link_def)

lemma keys_ok_upd_info:
  "keys_ok rl \<Longrightarrow> distinct (map fst (connIdToInfo (f (at_default empty_link (linkIdToInfo rl) l)))) \<Longrightarrow>
   keys_ok (upd_info l f rl)"
  by (simp add: keys_ok_def) (simp add: upd_info_def)

lemma keys_ok_fields [simp]:
  "keys_ok (rl\<lparr>connToLink := a\<rparr>) = keys_ok rl"
  "keys_ok (rl\<lparr>handleToLink := b\<rparr>) = keys_ok rl"
  "keys_ok (rl\<lparr>handleToNewLink := n\<rparr>) = keys_ok rl"
  "keys_ok (rl\<lparr>packageHandleConnectionMap := p\<rparr>) = keys_ok rl"
  "keys_ok (rl\<lparr>destroyedLinkProfiles := d\<rparr>) = keys_ok rl"
  by (simp_all add: keys_ok_def)

lemma keys_ok_upd_conn: "keys_ok rl \<Longrightarrow> keys_ok (upd_info l (upd_conn c f) rl)"
  by (rule keys_ok_upd_info) (simp_all add: upd_conn_def keys_ok_at)

text \<open>An update that keeps the connections of the link and their handles keeps the invariant.\<close>

lemma links_ok_cong:
  assumes "links_ok rl" "keys_ok rl'" "conns_of rl' = conns_of rl"
    "connToLink rl' = connToLink rl" "packageHandleConnectionMap rl' = packageHandleConnectionMap rl"
  shows "links_ok rl'"
  using assms by (simp add: links_ok_def)

lemma links_ok_upd_info:
  assumes "links_ok rl" "link_of rl l = Some i" "connIdToInfo (f i) = connIdToInfo i"
  shows "links_ok (upd_info l f rl)"
proof (rule links_ok_cong [OF assms(1)])
  show "keys_ok (upd_info l f rl)" using assms keys_ok_at [of rl l]
    by (intro keys_ok_upd_info) (simp_all add: links_ok_def)
qed (use assms in \<open>simp_all add: conns_of_def fun_eq_iff\<close>)

lemma connection_of_Some:
  "connection_of rl c = Some (l, ci) \<longleftrightarrow> connToLink rl c = Some l \<and> conns_of rl l c = Some ci"
  by (auto simp: connection_of_def conns_of_def bind_eq_Some_conv split: option.splits)

lemma connection_of_ok:
  assumes "links_ok rl"
  shows "connection_of rl c = None \<longleftrightarrow> connToLink rl c = None"
proof (cases "connToLink rl c")
  case (Some l)
  then obtain ci where "conns_of rl l c = Some ci" using links_okD(1) [OF assms] by blast
  with Some have "connection_of rl c = Some (l, ci)" by (simp add: connection_of_Some)
  with Some show ?thesis by simp
qed (simp add: connection_of_def)

lemma addLink_ok: "links_ok rl \<Longrightarrow> links_ok (snd (addLink l ps rl))"
  by (auto simp: addLink_def intro!: links_ok_cong [of rl] keys_ok_upd_info)
    (auto simp: links_ok_def conns_of_def fun_eq_iff)

lemma removeLink_fields:
  assumes "links_ok rl" "link_of rl l = Some i"
  shows "conns_of (removeLink l rl) k = (if k = l then (\<lambda>_. None) else conns_of rl k)"
    "connToLink (removeLink l rl) c = (if connToLink rl c = Some l then None else connToLink rl c)"
    "packageHandleConnectionMap (removeLink l rl) = packageHandleConnectionMap rl"
proof -
  have "c \<in> fst ` set (connIdToInfo i) \<longleftrightarrow> connToLink rl c = Some l"
    using links_okD(1) [OF assms(1)] assms(2) by (auto simp: fst_set_map_of conns_of_def)
  then show "connToLink (removeLink l rl) c = (if connToLink rl c = Some l then None else connToLink rl c)"
    using assms(2) by (simp add: removeLink_def)
qed (use assms in \<open>simp_all add: removeLink_def conns_of_def link_of_def\<close>)

lemma removeLink_ok: "links_ok rl \<Longrightarrow> links_ok (removeLink l rl)"
proof (cases "link_of rl l")
  case (Some i)
  assume ok: "links_ok rl"
  have "keys_ok (removeLink l rl)"
    using ok Some by (auto simp: removeLink_def links_ok_def keys_ok_def distinct_delete link_of_def)
  then show ?thesis using links_okD [OF ok]
    by (auto simp: links_ok_def removeLink_fields [OF ok Some]) (metis links_ok_unique [OF ok] not_None_eq)
qed (simp add: removeLink_def)

lemma complete_ok: "links_ok rl \<Longrightarrow> \<forall>c. conns_of rl l c = None \<Longrightarrow> links_ok (snd (completeNewLinkRequest h l rl))"
  by (auto simp: completeNewLinkRequest_def split: option.split intro!: links_ok_cong [of rl] keys_ok_upd_info)
    (auto simp: links_ok_def conns_of_def fun_eq_iff)

lemma requests_ok:
  "links_ok rl \<Longrightarrow> links_ok (addNewLinkRequest h ps a rl)"
  "links_ok rl \<Longrightarrow> links_ok (removeNewLinkRequest h l rl)"
  "links_ok rl \<Longrightarrow> links_ok (addConnectionRequest h l rl)"
  "links_ok rl \<Longrightarrow> links_ok (removeConnectionRequest h rl)"
  by (auto simp: addNewLinkRequest_def removeNewLinkRequest_def addConnectionRequest_def
    removeConnectionRequest_def links_ok_def split: option.split)

lemma properties_ok:
  "links_ok rl \<Longrightarrow> links_ok (snd (updateLinkProperties l props rl))"
  "links_ok rl \<Longrightarrow> links_ok (snd (setPersonasForLink l ps rl))"
  "links_ok rl \<Longrightarrow> links_ok (addTraceCtxForLink l ids rl)"
  by (auto simp: updateLinkProperties_def setPersonasForLink_def addTraceCtxForLink_def intro: links_ok_upd_info)

lemma addConnection_ok:
  assumes ok: "links_ok rl" and conn: "\<And>l. handleToLink rl h = Some l \<Longrightarrow> getLinkIDFromConnectionID c = Inr l"
  shows "links_ok (snd (addConnection h c rl))"
proof (cases "fst (addConnection h c rl) = None")
  case False
  then show ?thesis using ok
    by (auto simp: addConnection_def Let_def links_ok_def split: option.splits)
next
  case True
  then obtain l i where l: "handleToLink rl h = Some l" "link_of rl l = Some i" "connToLink rl c = None"
    "map_of (connIdToInfo i) c = None"
    by (auto simp: addConnection_def Let_def split: option.splits if_splits)
  then have "at_default empty_connection (connIdToInfo i) c = empty_connection" by (simp add: at_default_def)
  with l have r: "snd (addConnection h c rl) = upd_info l (upd_conn c id)
      (rl\<lparr>handleToLink := (handleToLink rl)(h := None), connToLink := (connToLink rl)(c \<mapsto> l)\<rparr>)"
    "conns_of (snd (addConnection h c rl)) = (\<lambda>k. if k = l then (conns_of rl l)(c \<mapsto> empty_connection) else conns_of rl k)"
    by (auto simp: addConnection_def Let_def conns_of_Some fun_eq_iff)
  have "conns_of rl k c = None" for k using links_okD(1) [OF ok, of c k] l(3) by simp
  with conn [OF l(1)] show ?thesis using links_okD [OF ok] unfolding links_ok_def r(2)
    using ok by (auto simp: r(1) links_ok_def keys_ok_upd_conn empty_connection_def split: if_splits)
qed

lemma removeConnection_ok: 
  assumes ok: "links_ok rl"
  shows "links_ok (snd (removeConnection c rl))"
proof (cases "getLinkIDFromConnectionID c")
  case (Inl e)
  then have "connToLink rl c = None" using links_okD(2) [OF ok, of c] by (cases "connToLink rl c") auto
  then have "rl\<lparr>connToLink := (connToLink rl)(c := None)\<rparr> = rl" by (simp add: fun_upd_idem)
  then show ?thesis using Inl ok by (simp add: removeConnection_def)
next
  case (Inr l)
  have other: "conns_of rl k c = None" if "k \<noteq> l" for k using links_okD(1,2) [OF ok, of c k] Inr that by auto
  have r: "conns_of (snd (removeConnection c rl)) = (\<lambda>k. (conns_of rl k)(c := None))"
  proof (cases "link_of rl l")
    case None
    then have "conns_of rl k c = None" for k using other [of k] by (cases "k = l") (simp_all add: conns_of_def)
    then show ?thesis using Inr None by (auto simp: removeConnection_def Let_def fun_eq_iff)
  qed (use Inr other in \<open>auto simp: removeConnection_def Let_def conns_of_Some fun_eq_iff\<close>)
  have "connToLink (snd (removeConnection c rl)) = (connToLink rl)(c := None)"
    "packageHandleConnectionMap (snd (removeConnection c rl)) = packageHandleConnectionMap rl"
    using Inr ok by (auto simp: removeConnection_def Let_def)
  moreover have "keys_ok (snd (removeConnection c rl))"
    using Inr ok keys_ok_at [of "rl\<lparr>connToLink := (connToLink rl)(c := None)\<rparr>" l]
    by (auto simp: removeConnection_def Let_def links_ok_def distinct_delete intro!: keys_ok_upd_info)
  ultimately show ?thesis using links_okD [OF ok] by (auto simp: links_ok_def r split: if_splits)
qed

lemma traceConn_ok: 
  assumes ok: "links_ok rl"
  shows "links_ok (addTraceCtxForConnection c ids rl)"
proof (cases "connToLink rl c")
  case (Some l)
  then obtain ci where ci: "conns_of rl l c = Some ci" using links_okD(1) [OF ok, of c l] by auto
  then obtain i where i: "link_of rl l = Some i" "map_of (connIdToInfo i) c = Some ci"
    by (auto simp: conns_of_def split: option.splits)
  then have r: "addTraceCtxForConnection c ids rl = upd_info l (upd_conn c (\<lambda>ci. ci\<lparr>conn_traceCtx := ids\<rparr>)) rl"
    "conns_of (addTraceCtxForConnection c ids rl) =
       (\<lambda>k. if k = l then (conns_of rl l)(c \<mapsto> ci\<lparr>conn_traceCtx := ids\<rparr>) else conns_of rl k)"
    using Some by (auto simp: addTraceCtxForConnection_def conns_of_Some fun_eq_iff)
  show ?thesis using links_okD [OF ok] ok ci unfolding links_ok_def r(2)
    by (auto simp: r(1) keys_ok_upd_conn split: if_splits)
qed (simp add: addTraceCtxForConnection_def ok)

text \<open>Both operations on the handles of a connection.\<close>

lemma handles_ok:
  assumes ok: "links_ok rl" and c: "connection_of rl c = Some (l, ci)"
    and rl': "rl' = (upd_info l (upd_conn c (\<lambda>ci. ci\<lparr>packageHandles := f (packageHandles ci)\<rparr>)) rl)
      \<lparr>packageHandleConnectionMap := p\<rparr>"
    and p: "\<And>h. h \<in> set (f (packageHandles ci)) \<Longrightarrow> h \<noteq> NULL_RACE_HANDLE \<and> p h = Some c"
    "\<And>h d. d \<noteq> c \<Longrightarrow> packageHandleConnectionMap rl h = Some d \<Longrightarrow> p h = Some d"
  shows "links_ok rl'"
proof -
  obtain i where i: "link_of rl l = Some i" "map_of (connIdToInfo i) c = Some ci"
    using c by (auto simp: connection_of_Some conns_of_def split: option.splits)
  then have r: "conns_of rl' = (\<lambda>k. if k = l then (conns_of rl l)(c \<mapsto> ci\<lparr>packageHandles := f (packageHandles ci)\<rparr>)
      else conns_of rl k)"
    by (auto simp: rl' conns_of_Some fun_eq_iff)
  have one: "conns_of rl k c = None" if "k \<noteq> l" for k
    using links_okD(1) [OF ok, of c] c that by (metis connection_of_Some option.inject)
  have "h \<noteq> NULL_RACE_HANDLE \<and> p h = Some d"
    if d: "conns_of rl' k d = Some di" "h \<in> set (packageHandles di)" for d k di h
  proof (cases "d = c")
    case True
    then have "di = ci\<lparr>packageHandles := f (packageHandles ci)\<rparr>"
      using d(1) one [of k] by (auto simp: r split: if_splits)
    then show ?thesis using d(2) p(1) [of h] True by simp
  next
    case False
    then have "conns_of rl k d = Some di" using d(1) by (auto simp: r split: if_splits)
    with links_okD(3) [OF ok this d(2)] p(2) [OF False] show ?thesis by blast
  qed
  moreover have "connToLink rl' = connToLink rl" "packageHandleConnectionMap rl' = p"
    "keys_ok rl'" using ok by (simp_all add: rl' links_ok_def keys_ok_upd_conn)
  moreover have "conns_of rl' k d \<noteq> None \<longleftrightarrow> conns_of rl k d \<noteq> None" for k d
    using c by (simp add: r connection_of_Some)
  ultimately show ?thesis using links_okD(1,2) [OF ok] unfolding links_ok_def by simp
qed

lemma cache_ok:
  assumes ok: "links_ok rl" and h: "packageHandleConnectionMap rl h \<in> {None, Some c}"
  shows "links_ok (cachePackageHandle c h rl)"
proof (cases "connToLink rl c = None \<or> h = NULL_RACE_HANDLE \<or> connection_of rl c = None")
  case True
  then show ?thesis using ok by (auto simp: cachePackageHandle_def)
next
  case False
  then obtain l ci where c: "connection_of rl c = Some (l, ci)" by (cases "connection_of rl c") auto
  show ?thesis
  proof (rule handles_ok [OF ok c])
    show "cachePackageHandle c h rl = (upd_info l (upd_conn c
        (\<lambda>ci. ci\<lparr>packageHandles := List.insert h (packageHandles ci)\<rparr>)) rl)
      \<lparr>packageHandleConnectionMap := (packageHandleConnectionMap rl)(h \<mapsto> c)\<rparr>"
      using False c by (auto simp: cachePackageHandle_def)
  qed (use False h links_okD(3) [OF ok, of l c ci] c in \<open>auto simp: connection_of_Some\<close>)
qed

lemma uncache_ok: 
  assumes ok: "links_ok rl"
  shows "links_ok (removeCachedPackageHandle h rl)"
proof (cases "Option.bind (packageHandleConnectionMap rl h) (connection_of rl) = None \<or> h = NULL_RACE_HANDLE")
  case True
  then show ?thesis using ok by (auto simp: removeCachedPackageHandle_def split: option.split)
next
  case False
  then obtain c l ci where c: "packageHandleConnectionMap rl h = Some c" "connection_of rl c = Some (l, ci)"
    by (cases "packageHandleConnectionMap rl h") auto
  show ?thesis
  proof (rule handles_ok [OF ok c(2)])
    show "removeCachedPackageHandle h rl = (upd_info l (upd_conn c
        (\<lambda>ci. ci\<lparr>packageHandles := removeAll h (packageHandles ci)\<rparr>)) rl)
      \<lparr>packageHandleConnectionMap := (packageHandleConnectionMap rl)(h := None)\<rparr>"
      using False c by (simp add: removeCachedPackageHandle_def)
  qed (use c links_okD(3) [OF ok, of l c ci] in \<open>auto simp: connection_of_Some\<close>)
qed

lemma new_race_links_ok: "links_ok new_race_links"
  by (simp add: links_ok_def keys_ok_def new_race_links_def conns_of_def link_of_def)

lemma links_step_ok: "links_step rl rl' \<Longrightarrow> links_ok rl \<Longrightarrow> links_ok rl'"
proof (induction rule: links_step.induct)
  case (ls_nextId rl plugin)
  then show ?case by (simp add: getNextLinkID_def links_ok_def keys_ok_def conns_of_def link_of_def)
qed (simp_all add: addLink_ok removeLink_ok complete_ok requests_ok properties_ok addConnection_ok
  removeConnection_ok traceConn_ok cache_ok uncache_ok)

interpretation race_links: invariant_system "\<lambda>rl. rl = new_race_links" links_step links_ok
  by unfold_locales (auto simp: new_race_links_ok intro: links_step_ok)


section \<open>An abstract table of links and connections\<close>

text \<open>
  What the SDK relies on: which links there are and whom they reach, and the link of every open
  connection.
\<close>

record link_table =
  lt_personas :: "link_id \<rightharpoonup> persona set"
  lt_conns :: "conn_id \<rightharpoonup> link_id"

definition table_of :: "race_links \<Rightarrow> link_table" where
  "table_of rl = \<lparr>lt_personas = (\<lambda>l. map_option link_personas (link_of rl l)), lt_conns = connToLink rl\<rparr>"

definition t_put :: "link_id \<Rightarrow> persona set \<Rightarrow> link_table \<Rightarrow> link_table" where
  "t_put l ps t = t\<lparr>lt_personas := (lt_personas t)(l \<mapsto> ps)\<rparr>"

definition t_drop :: "link_id \<Rightarrow> link_table \<Rightarrow> link_table" where
  "t_drop l t = t\<lparr>lt_personas := (lt_personas t)(l := None),
     lt_conns := (\<lambda>c. if lt_conns t c = Some l then None else lt_conns t c)\<rparr>"

definition t_open :: "conn_id \<Rightarrow> link_id \<Rightarrow> link_table \<Rightarrow> link_table" where
  "t_open c l t = t\<lparr>lt_conns := (lt_conns t)(c \<mapsto> l)\<rparr>"

definition t_close :: "conn_id \<Rightarrow> link_table \<Rightarrow> link_table" where
  "t_close c t = t\<lparr>lt_conns := (lt_conns t)(c := None)\<rparr>"

lemma table_of_removeLink:
  assumes ok: "links_ok rl"
  shows "table_of (removeLink l rl) = t_drop l (table_of rl)"
proof (cases "link_of rl l")
  case None
  then have "connToLink rl c \<noteq> Some l" for c using links_okD(1) [OF ok, of c l] by (simp add: conns_of_def)
  then show ?thesis using None by (auto simp: removeLink_def table_of_def t_drop_def fun_eq_iff)
next
  case (Some i)
  have "link_of (removeLink l rl) k = (if k = l then None else link_of rl k)" for k
    using Some by (simp add: removeLink_def link_of_def)
  then show ?thesis by (simp add: table_of_def t_drop_def removeLink_fields(2) [OF ok Some] fun_eq_iff)
qed

lemma table_of_complete:
  "completeNewLinkRequest h l rl = (r, rl') \<Longrightarrow> table_of rl' =
     (case handleToNewLink rl h of None \<Rightarrow> table_of rl | Some (ps, a) \<Rightarrow> t_put l ps (table_of rl)) \<and>
   r = (case handleToNewLink rl h of None \<Rightarrow> Inl InvalidArgument | Some (ps, a) \<Rightarrow> Inr a)"
  by (auto simp: completeNewLinkRequest_def table_of_def t_put_def fun_eq_iff split: option.splits)

lemma table_of_addConnection:
  assumes ok: "links_ok rl" and r: "addConnection h c rl = (r, rl')"
  shows "(case Option.bind (handleToLink rl h) (\<lambda>l. if lt_personas (table_of rl) l = None then None else Some l) of
      Some l \<Rightarrow> if lt_conns (table_of rl) c = None then r = None \<and> table_of rl' = t_open c l (table_of rl)
        else r = Some InvalidArgument \<and> table_of rl' = table_of rl
    | None \<Rightarrow> r = Some InvalidArgument \<and> table_of rl' = table_of rl)"
proof (cases "handleToLink rl h")
  case (Some l)
  show ?thesis
  proof (cases "link_of rl l")
    case None
    with Some r show ?thesis by (auto simp: addConnection_def table_of_def)
  next
    case i: (Some i)
    have "map_of (connIdToInfo i) c \<noteq> None \<Longrightarrow> connToLink rl c \<noteq> None"
      using links_okD(1) [OF ok, of c l] i by (auto simp: conns_of_def)
    with Some i r show ?thesis
      by (auto simp: addConnection_def Let_def table_of_def t_open_def fun_eq_iff split: if_splits)
  qed
qed (use r in \<open>auto simp: addConnection_def\<close>)

lemma table_of_removeConnection: "table_of (snd (removeConnection c rl)) = t_close c (table_of rl)"
  by (auto simp: removeConnection_def table_of_def t_close_def Let_def fun_eq_iff split: sum.split)

lemma table_queries:
  assumes ok: "links_ok rl"
  shows "set (getLinkConnections l rl) = {c. lt_conns (table_of rl) c = Some l}"
    "doesConnectionExist c rl \<longleftrightarrow> lt_conns (table_of rl) c \<noteq> None"
    "getAllPersonaSet rl = \<Union> (ran (lt_personas (table_of rl)))"
proof -
  have c: "c \<in> set (getLinkConnections l rl) \<longleftrightarrow> connToLink rl c = Some l" for c
    using links_okD(1) [OF ok, of c l]
    by (auto simp: getLinkConnections_def conns_of_def fst_set_map_of dom_def split: option.splits)
  then show "set (getLinkConnections l rl) = {c. lt_conns (table_of rl) c = Some l}" by (auto simp: table_of_def)
  have d: "distinct (map fst (linkIdToInfo rl))" using ok by (simp add: links_ok_def keys_ok_def)
  have "ran (lt_personas (table_of rl)) = link_personas ` ran (map_of (linkIdToInfo rl))"
    by (auto simp: table_of_def link_of_def ran_def)
  also have "\<dots> = set (map (link_personas \<circ> snd) (linkIdToInfo rl))" using ran_distinct [OF d] by auto
  finally show "getAllPersonaSet rl = \<Union> (ran (lt_personas (table_of rl)))" by (simp add: getAllPersonaSet_def)
qed (simp_all add: doesConnectionExist_def table_of_def)

lemma fst_filter: "l \<in> set (map fst (filter (\<lambda>(l, i). P i) m)) \<longleftrightarrow> (\<exists>i. (l, i) \<in> set m \<and> P i)"
  by (induction m) auto

lemma links_for_personas:
  assumes ok: "links_ok rl"
  shows "l \<in> set (getAllLinksForPersonas ps ty rl) \<longleftrightarrow>
    (\<exists>i. link_of rl l = Some i \<and> ps \<subseteq> link_personas i \<and> lp_linkType (properties i) \<in> {LT_BIDI, ty})"
proof -
  have "distinct (map fst (linkIdToInfo rl))" using ok by (simp add: links_ok_def keys_ok_def)
  then have "(l, i) \<in> set (linkIdToInfo rl) \<longleftrightarrow> link_of rl l = Some i" for i by (simp add: link_of_def)
  then show ?thesis unfolding getAllLinksForPersonas_def fst_filter doesLinkIncludeGivenPersonas_def
    by (simp add: subset_eq)
qed


section \<open>A run\<close>

text \<open>A link is requested and created, and a connection opened on it that holds a package.\<close>

definition demo_requested :: race_links where
  "demo_requested = addConnectionRequest 2 ''p/g/L'' (snd (completeNewLinkRequest 1 ''p/g/L''
     (addNewLinkRequest 1 {''alice''} [] new_race_links)))"

definition demo_links :: race_links where
  "demo_links = cachePackageHandle ''p/g/L/C'' 7 (snd (addConnection 2 ''p/g/L/C'' demo_requested))"

lemma demo_conn_id: "getLinkIDFromConnectionID ''p/g/L/C'' = Inr ''p/g/L''"
  using link_of_conn [of "''p''" "''g''" "''L''" "''C''"] by (simp add: no_slash_def)

lemma demo_links_reach: "links_step\<^sup>*\<^sup>* new_race_links demo_links"
proof -
  have 1: "links_step new_race_links (addNewLinkRequest 1 {''alice''} [] new_race_links)" by (rule ls_newRequest)
  have 2: "links_step (addNewLinkRequest 1 {''alice''} [] new_race_links)
      (snd (completeNewLinkRequest 1 ''p/g/L'' (addNewLinkRequest 1 {''alice''} [] new_race_links)))"
    by (rule ls_complete) (simp add: addNewLinkRequest_def new_race_links_def conns_of_def link_of_def)
  have 3: "links_step (snd (completeNewLinkRequest 1 ''p/g/L''
      (addNewLinkRequest 1 {''alice''} [] new_race_links))) demo_requested"
    unfolding demo_requested_def by (rule ls_connRequest)
  have 4: "links_step demo_requested (snd (addConnection 2 ''p/g/L/C'' demo_requested))"
    by (rule ls_addConnection) (simp add: demo_conn_id demo_requested_def addConnectionRequest_def)
  have 5: "links_step (snd (addConnection 2 ''p/g/L/C'' demo_requested)) demo_links"
    unfolding demo_links_def
    by (rule ls_cache) (simp add: demo_requested_def addConnectionRequest_def addConnection_def
      completeNewLinkRequest_def addNewLinkRequest_def new_race_links_def link_of_def upd_info_def
      upd_default_def empty_link_def at_default_def)
  show ?thesis by (meson 1 2 3 4 5 converse_rtranclp_into_rtranclp rtranclp.rtrancl_refl)
qed

lemmas demo_links_simps = demo_links_def demo_requested_def addConnectionRequest_def addConnection_def
  completeNewLinkRequest_def addNewLinkRequest_def cachePackageHandle_def new_race_links_def link_of_def
  upd_info_def upd_conn_def upd_default_def empty_link_def empty_connection_def at_default_def
  connection_of_def NULL_RACE_HANDLE_def

lemma demo_links_facts:
  "link_of demo_links l = (if l = ''p/g/L'' then Some (empty_link\<lparr>link_personas := {''alice''},
     connIdToInfo := [(''p/g/L/C'', \<lparr>packageHandles = [7], conn_traceCtx = (0, 0)\<rparr>)]\<rparr>) else None)"
  "connToLink demo_links = [''p/g/L/C'' \<mapsto> ''p/g/L'']"
  by (simp_all add: demo_links_simps)



end
