(* ===== verification/Race_Channels_Inv.thy ===== *)
theory Race_Channels_Inv
  imports Race_Channels
begin

text \<open>
  The channels of the SDK, continued: no mechanical tag is claimed by two channels, what activation
  does in every case, and where it departs from its comments.
\<close>

section \<open>The invariant\<close>

text \<open>The mechanical tags a channel claims by its current role.\<close>

definition tags_at :: "race_channels \<Rightarrow> nat \<Rightarrow> string set" where
  "tags_at rc i = set (mechanicalTags (currentRole (ci_properties (channels rc ! i))))"

definition channels_ok :: "race_channels \<Rightarrow> bool" where
  "channels_ok rc \<longleftrightarrow> (\<forall>gid i. channelIdToInfo rc gid = Some i \<longrightarrow> i < length (channels rc)) \<and>
     inj_on (channelIdToInfo rc) (dom (channelIdToInfo rc)) \<and>
     (\<forall>i < length (channels rc). \<forall>j < length (channels rc). i \<noteq> j \<longrightarrow> tags_at rc i \<inter> tags_at rc j = {})"

lemma channels_okD:
  assumes "channels_ok rc"
  shows "channelIdToInfo rc gid = Some i \<Longrightarrow> i < length (channels rc)"
    and "channelIdToInfo rc gid = Some i \<Longrightarrow> channelIdToInfo rc hid = Some i \<Longrightarrow> gid = hid"
    and "i < length (channels rc) \<Longrightarrow> j < length (channels rc) \<Longrightarrow> i \<noteq> j \<Longrightarrow> tags_at rc i \<inter> tags_at rc j = {}"
  using assms by (auto simp: channels_ok_def inj_on_def dom_def)

lemma upd_channel_fields [simp]:
  "channelIdToInfo (upd_channel gid f rc) = channelIdToInfo rc"
  "channelIdToLinkIds (upd_channel gid f rc) = channelIdToLinkIds rc"
  "userEnabledChannels (upd_channel gid f rc) = userEnabledChannels rc"
  "allowedTags (upd_channel gid f rc) = allowedTags rc"
  "length (channels (upd_channel gid f rc)) = length (channels rc)"
  by (simp_all add: upd_channel_def split: option.split)

lemma upd_channel_nth:
  "channelIdToInfo rc gid = Some i \<Longrightarrow> i < length (channels rc) \<Longrightarrow>
   channels (upd_channel gid f rc) ! j = (if j = i then f (channels rc ! i) else channels rc ! j)"
  by (simp add: upd_channel_def)

lemma info_of_upd_channel:
  assumes "channels_ok rc"
  shows "info_of (upd_channel gid f rc) hid = (if hid = gid then map_option f (info_of rc gid) else info_of rc hid)"
proof (cases "channelIdToInfo rc gid")
  case None
  then show ?thesis by (auto simp: info_of_def upd_channel_def)
next
  case (Some i)
  note i = channels_okD(1) [OF assms Some]
  show ?thesis
  proof (cases "channelIdToInfo rc hid")
    case None
    then show ?thesis using Some by (auto simp: info_of_def)
  next
    case j: (Some j)
    have "j = i \<longleftrightarrow> hid = gid" using channels_okD(2) [OF assms] Some j by auto
    then show ?thesis using Some j upd_channel_nth [OF Some i] by (simp add: info_of_def)
  qed
qed

text \<open>An update of one channel keeps the invariant if the tags it claims are its own or not claimed.\<close>

lemma upd_channel_ok:
  assumes ok: "channels_ok rc"
    and tags: "\<And>i. channelIdToInfo rc gid = Some i \<Longrightarrow> i < length (channels rc) \<Longrightarrow>
      \<forall>t \<in> set (mechanicalTags (currentRole (ci_properties (f (channels rc ! i))))).
        \<forall>j < length (channels rc). i \<noteq> j \<longrightarrow> t \<notin> tags_at rc j"
  shows "channels_ok (upd_channel gid f rc)"
proof (cases "channelIdToInfo rc gid")
  case None
  then show ?thesis using ok by (simp add: upd_channel_def)
next
  case (Some i)
  have i: "i < length (channels rc)" using channels_okD(1) [OF ok Some] .
  have t: "tags_at (upd_channel gid f rc) j = (if j = i
      then set (mechanicalTags (currentRole (ci_properties (f (channels rc ! i))))) else tags_at rc j)" for j
    by (simp add: tags_at_def upd_channel_nth [OF Some i])
  have "tags_at (upd_channel gid f rc) j \<inter> tags_at (upd_channel gid f rc) k = {}"
    if "j < length (channels rc)" "k < length (channels rc)" "j \<noteq> k" for j k
    using channels_okD(3) [OF ok that] tags [OF Some i] that unfolding t by (cases "j = i"; cases "k = i") auto
  then show ?thesis using ok by (simp add: channels_ok_def)
qed

lemma upd_channel_same_role:
  assumes ok: "channels_ok rc"
    and "\<And>ci. currentRole (ci_properties (f ci)) = currentRole (ci_properties ci) \<or>
      mechanicalTags (currentRole (ci_properties (f ci))) = []"
  shows "channels_ok (upd_channel gid f rc)"
proof (rule upd_channel_ok [OF ok], intro ballI allI impI)
  fix i t j assume i: "i < length (channels rc)" "j < length (channels rc)" "i \<noteq> j"
    and t: "t \<in> set (mechanicalTags (currentRole (ci_properties (f (channels rc ! i)))))"
  from t assms(2) [of "channels rc ! i"] have "t \<in> tags_at rc i" by (auto simp: tags_at_def)
  with channels_okD(3) [OF ok i] show "t \<notin> tags_at rc j" by blast
qed

lemma checkMechanicalTags_iff:
  "checkMechanicalTags tags rc \<longleftrightarrow> (\<exists>j < length (channels rc). tags_at rc j \<inter> set tags \<noteq> {})"
proof -
  have "checkMechanicalTags tags rc \<longleftrightarrow>
      (\<exists>ci \<in> set (channels rc). set (mechanicalTags (currentRole (ci_properties ci))) \<inter> set tags \<noteq> {})"
    by (auto simp: checkMechanicalTags_def list_ex_iff)
  then show ?thesis unfolding tags_at_def by (metis in_set_conv_nth)
qed

lemma choose_role_ok:
  "choose_role gid name rs rc = (b, rc') \<Longrightarrow> channels_ok rc \<Longrightarrow> channels_ok rc'"
proof (induction gid name rs rc rule: choose_role.induct)
  case (2 gid name role rest rc)
  show ?case
  proof (cases "name = roleName role \<and> \<not> checkMechanicalTags (mechanicalTags role) rc \<and>
      \<not> checkBehavioralTags (behavioralTags role) rc")
    case True
    have "channels_ok (upd_properties gid (\<lambda>p. p\<lparr>currentRole := role\<rparr>) rc)"
      unfolding upd_properties_def using 2 True
      by (intro upd_channel_ok) (auto simp: checkMechanicalTags_iff)
    then show ?thesis using 2 True by simp
  qed (use 2 in \<open>auto split: if_splits\<close>)
qed simp

lemma activate_ok: "channels_ok rc \<Longrightarrow> channels_ok (snd (activate gid name rc))"
  by (auto simp: activate_def setStatus_def upd_properties_def dest: choose_role_ok
    intro: upd_channel_same_role split: option.split prod.split bool.split)

text \<open>
  The operations. A new channel claims no tags, and the properties a plugin reports carry the
  current role of the channel, or none.
\<close>

definition own_role :: "string \<Rightarrow> channel_properties \<Rightarrow> race_channels \<Rightarrow> bool" where
  "own_role gid props rc \<longleftrightarrow> mechanicalTags (currentRole props) = [] \<or>
     (case info_of rc gid of None \<Rightarrow> True | Some ci \<Rightarrow> currentRole props = currentRole (ci_properties ci))"

inductive channels_step :: "race_channels \<Rightarrow> race_channels \<Rightarrow> bool" where
  cs_add: "mechanicalTags (currentRole props) = [] \<Longrightarrow> channels_step rc (snd (add props rc))"
| cs_update: "own_role gid props rc \<Longrightarrow> channels_step rc (snd (update gid status props rc))"
| cs_wrapper: "channels_step rc (setWrapperIdForChannel gid w rc)"
| cs_plugins: "channels_step rc (setPluginsForChannel gid ps rc)"
| cs_setLink: "channels_step rc (setLinkId gid l rc)"
| cs_removeLink: "channels_step rc (removeLinkId gid l rc)"
| cs_status: "channels_step rc (setStatus gid status rc)"
| cs_activate: "channels_step rc (snd (activate gid name rc))"
| cs_failed: "channels_step rc (channelFailed gid rc)"
| cs_tags: "channels_step rc (setAllowedTags tags rc)"
| cs_setEnabled: "channels_step rc (setUserEnabledChannels gids rc)"
| cs_enable: "channels_step rc (setUserEnabled gid rc)"
| cs_disable: "channels_step rc (setUserDisabled gid rc)"
| cs_isEnabled: "channels_step rc (snd (isUserEnabled file gid rc))"

lemma add_ok: 
  assumes ok: "channels_ok rc" and tags: "mechanicalTags (currentRole props) = []"
  shows "channels_ok (snd (add props rc))"
proof (cases "channelIdToInfo rc (channelGid props)")
  case None
  let ?n = "length (channels rc)"
  have t: "tags_at (snd (add props rc)) i = (if i = ?n then {} else tags_at rc i)" if "i \<le> ?n" for i
    using None that tags by (auto simp: add_def tags_at_def nth_append)
  have "tags_at (snd (add props rc)) i \<inter> tags_at (snd (add props rc)) j = {}"
    if "i < Suc ?n" "j < Suc ?n" "i \<noteq> j" for i j
    using channels_okD(3) [OF ok, of i j] that t [of i] t [of j] by auto
  moreover have "channelIdToInfo rc gid = Some i \<Longrightarrow> i < ?n" for gid i using channels_okD(1) [OF ok] .
  moreover have "inj_on (channelIdToInfo (snd (add props rc))) (dom (channelIdToInfo (snd (add props rc))))"
    using channels_okD(1,2) [OF ok] None by (auto simp: add_def inj_on_def dom_def) (metis less_irrefl)+
  ultimately show ?thesis using None by (auto simp: channels_ok_def add_def less_Suc_eq)
qed (use ok in \<open>simp add: add_def\<close>)

lemma update_ok:
  assumes ok: "channels_ok rc" and props: "own_role gid props rc"
  shows "channels_ok (snd (update gid status props rc))"
  unfolding update_def upd_properties_def snd_conv
proof (rule upd_channel_ok [OF ok], intro ballI allI impI)
  fix i t j assume i: "channelIdToInfo rc gid = Some i" "i < length (channels rc)" "j < length (channels rc)" "i \<noteq> j"
    and "t \<in> set (mechanicalTags (currentRole (ci_properties ((channels rc ! i)
      \<lparr>ci_properties := if status = CHANNEL_ENABLED then props\<lparr>channelStatus := status, currentRole := default_role\<rparr>
         else props\<lparr>channelStatus := status\<rparr>\<rparr>))))"
  then have "t \<in> tags_at rc i" using props
    by (auto simp: tags_at_def info_of_def default_role_def own_role_def split: if_splits)
  with channels_okD(3) [OF ok i(2,3,4)] show "t \<notin> tags_at rc j" by blast
qed

lemma channels_ok_cong:
  "channels_ok rc \<Longrightarrow> channels rc' = channels rc \<Longrightarrow> channelIdToInfo rc' = channelIdToInfo rc \<Longrightarrow> channels_ok rc'"
  by (simp add: channels_ok_def tags_at_def)

lemma same_channels_ok:
  "channels_ok rc \<Longrightarrow> channels_ok (setLinkId gid l rc)"
  "channels_ok rc \<Longrightarrow> channels_ok (removeLinkId gid l rc)"
  "channels_ok rc \<Longrightarrow> channels_ok (setAllowedTags tags rc)"
  "channels_ok rc \<Longrightarrow> channels_ok (setUserEnabledChannels gids rc)"
  "channels_ok rc \<Longrightarrow> channels_ok (setUserEnabled gid rc)"
  "channels_ok rc \<Longrightarrow> channels_ok (setUserDisabled gid rc)"
  "channels_ok rc \<Longrightarrow> channels_ok (snd (isUserEnabled file gid rc))"
  by (erule channels_ok_cong; simp add: setLinkId_def removeLinkId_def setAllowedTags_def setUserEnabledChannels_def
    writeUserEnabledChannels_def setUserEnabled_def setUserDisabled_def isUserEnabled_def
    readUserEnabledChannels_def Let_def split: option.split)+

lemma set_channel_ok:
  "channels_ok rc \<Longrightarrow> channels_ok (setWrapperIdForChannel gid w rc)"
  "channels_ok rc \<Longrightarrow> channels_ok (setPluginsForChannel gid ps rc)"
  "channels_ok rc \<Longrightarrow> channels_ok (setStatus gid status rc)"
  "channels_ok rc \<Longrightarrow> channels_ok (channelFailed gid rc)"
  by (auto simp: setWrapperIdForChannel_def setPluginsForChannel_def setStatus_def channelFailed_def
    upd_properties_def intro: upd_channel_same_role split: option.split)

lemma channels_step_ok: "channels_step rc rc' \<Longrightarrow> channels_ok rc \<Longrightarrow> channels_ok rc'"
  by (induction rule: channels_step.induct)
    (simp_all add: add_ok update_ok activate_ok set_channel_ok same_channels_ok)

lemma empty_channels_ok: "channels_ok (empty_channels sdk)"
  by (simp add: channels_ok_def empty_channels_def)

interpretation race_channels: invariant_system "\<lambda>rc. \<exists>sdk. rc = empty_channels sdk" channels_step channels_ok
  by unfold_locales (auto simp: empty_channels_ok intro: channels_step_ok)


section \<open>Activation\<close>

lemma choose_role_none: "\<forall>r \<in> set rs. roleName r \<noteq> name \<Longrightarrow> choose_role gid name rs rc = (True, rc)"
  by (induction rs) auto

lemma choose_role_one:
  "filter (\<lambda>r. roleName r = name) rs = [role] \<Longrightarrow> choose_role gid name rs rc =
     (if checkMechanicalTags (mechanicalTags role) rc \<or> checkBehavioralTags (behavioralTags role) rc then (False, rc)
      else (True, upd_properties gid (\<lambda>p. p\<lparr>currentRole := role\<rparr>) rc))"
proof (induction rs)
  case (Cons r rs)
  show ?case
  proof (cases "roleName r = name")
    case True
    then have "r = role" "filter (\<lambda>r. roleName r = name) rs = []" using Cons.prems by auto
    then have "\<forall>r \<in> set rs. roleName r \<noteq> name" by (simp add: filter_empty_conv)
    with True \<open>r = role\<close> show ?thesis by (auto simp: choose_role_none)
  qed (use Cons in auto)
qed simp


text \<open>
  A role name the channel does not have is not refused when the channel still has a role with
  a side: the loop finds nothing and the check that follows looks at the role of the last
  activation.
\<close>

theorem channel_activate_stale_role:
  assumes "info_of rc gid = Some ci" "channelStatus (ci_properties ci) = CHANNEL_ENABLED"
    and "name \<notin> roleName ` set (roles (ci_properties ci))"
  shows "fst (activate gid name rc) \<longleftrightarrow> linkSide (currentRole (ci_properties ci)) \<noteq> LS_UNDEF"
proof -
  have "choose_role gid name (roles (ci_properties ci)) rc = (True, rc)"
    using assms(3) by (intro choose_role_none) auto
  then show ?thesis using assms(1,2) by (simp add: activate_def)
qed

text \<open>
  C38: A channel that fails while it is starting keeps its role: its mechanical tags stay claimed and
  no channel, itself included, can be activated in a role that shares one, although none that is
  active uses it.
\<close>

theorem channel_failed_keeps_tags:
  assumes ok: "channels_step\<^sup>*\<^sup>* (empty_channels sdk) rc" and ci: "info_of rc gid = Some ci"
    and st: "channelStatus (ci_properties ci) = CHANNEL_STARTING"
    and di: "info_of rc hid = Some di"
    and role: "filter (\<lambda>r. roleName r = name) (roles (ci_properties di)) = [role]"
    and t: "t \<in> set (mechanicalTags (currentRole (ci_properties ci)))" "t \<in> set (mechanicalTags role)"
  shows "isAvailable gid (channelFailed gid rc) = False \<and>
     getStatus gid (channelFailed gid rc) = Inr CHANNEL_FAILED \<and>
     \<not> fst (activate hid name (channelFailed gid rc))"
proof -
  have inv: "channels_ok rc" using race_channels.reachable_inv ok by blast
  let ?rc = "channelFailed gid rc"
  have f: "?rc = setStatus gid CHANNEL_FAILED rc" using ci st by (simp add: channelFailed_def)
  have g: "info_of ?rc gid = Some (ci\<lparr>ci_properties := (ci_properties ci)\<lparr>channelStatus := CHANNEL_FAILED\<rparr>\<rparr>)"
    using ci inv by (simp add: f setStatus_def upd_properties_def info_of_upd_channel)
  obtain di' where d: "info_of ?rc hid = Some di'" "roles (ci_properties di') = roles (ci_properties di)"
    using di ci inv g by (cases "hid = gid") (auto simp: f setStatus_def upd_properties_def info_of_upd_channel)
  have "channels_ok ?rc" using inv set_channel_ok(4) by blast
  moreover from g obtain i where "channelIdToInfo ?rc gid = Some i"
    "channels ?rc ! i = ci\<lparr>ci_properties := (ci_properties ci)\<lparr>channelStatus := CHANNEL_FAILED\<rparr>\<rparr>"
    by (auto simp: info_of_def)
  ultimately have "\<exists>j < length (channels ?rc). tags_at ?rc j \<inter> set (mechanicalTags role) \<noteq> {}"
    using t channels_okD(1) [of ?rc gid i] by (intro exI [of _ i]) (auto simp: tags_at_def)
  then have "checkMechanicalTags (mechanicalTags role) ?rc" by (simp add: checkMechanicalTags_iff)
  then have "choose_role hid name (roles (ci_properties di')) ?rc = (False, ?rc)"
    using role by (simp add: d(2) choose_role_one)
  then have "\<not> fst (activate hid name ?rc)" using d(1) by (simp add: activate_def)
  with g show ?thesis by (simp add: isAvailable_def getStatus_def)
qed

section \<open>Runs\<close>

text \<open>Two channels whose role needs the same service; the first is activated.\<close>

definition demo_role :: channel_role where
  "demo_role = \<lparr>roleName = ''r'', mechanicalTags = [''pixelfed''], behavioralTags = [], linkSide = LS_BOTH\<rparr>"

definition demo_properties :: "string \<Rightarrow> channel_properties" where
  "demo_properties gid = default_channel_properties\<lparr>channelGid := gid, channelStatus := CHANNEL_ENABLED,
     roles := [demo_role]\<rparr>"

definition demo_channels :: race_channels where
  "demo_channels = snd (add (demo_properties ''d'') (snd (add (demo_properties ''c'') (empty_channels True))))"

definition demo_started :: race_channels where
  "demo_started = snd (activate ''c'' ''r'' demo_channels)"

lemma demo_properties_simps [simp]:
  "channelGid (demo_properties gid) = gid" "channelStatus (demo_properties gid) = CHANNEL_ENABLED"
  "roles (demo_properties gid) = [demo_role]" "currentRole (demo_properties gid) = default_role"
  "mechanicalTags default_role = []" "roleName demo_role = ''r''" "mechanicalTags demo_role = [''pixelfed'']"
  "behavioralTags demo_role = []" "linkSide demo_role = LS_BOTH"
  by (simp_all add: demo_properties_def default_channel_properties_def default_role_def demo_role_def)

lemma demo_channels_reach: "channels_step\<^sup>*\<^sup>* (empty_channels True) demo_channels"
proof -
  have "channels_step (empty_channels True) (snd (add (demo_properties ''c'') (empty_channels True)))"
    by (rule cs_add) simp
  moreover have "channels_step (snd (add (demo_properties ''c'') (empty_channels True))) demo_channels"
    unfolding demo_channels_def by (rule cs_add) simp
  ultimately show ?thesis by (meson converse_rtranclp_into_rtranclp rtranclp.rtrancl_refl)
qed

lemma demo_started_reach: "channels_step\<^sup>*\<^sup>* (empty_channels True) demo_started"
  using demo_channels_reach unfolding demo_started_def by (meson rtranclp.rtrancl_into_rtrancl cs_activate)

lemma demo_channels_eq: "demo_channels = (empty_channels True)\<lparr>
    channels := map (\<lambda>gid. \<lparr>ci_properties = demo_properties gid, ci_plugins = [], wrapperId = []\<rparr>) [''c'', ''d''],
    channelIdToInfo := [''c'' \<mapsto> 0, ''d'' \<mapsto> 1]\<rparr>"
  by (simp add: demo_channels_def add_def empty_channels_def)

lemma demo_infos:
  "info_of demo_channels ''c'' = Some \<lparr>ci_properties = demo_properties ''c'', ci_plugins = [], wrapperId = []\<rparr>"
  "info_of demo_channels ''d'' = Some \<lparr>ci_properties = demo_properties ''d'', ci_plugins = [], wrapperId = []\<rparr>"
  "\<not> checkMechanicalTags [''pixelfed''] demo_channels" "\<not> checkBehavioralTags [] demo_channels"
  by (simp_all add: demo_channels_eq info_of_def empty_channels_def checkMechanicalTags_def checkBehavioralTags_def)

lemma demo_started_eq: "demo_started = (empty_channels True)\<lparr>
    channels := [\<lparr>ci_properties = (demo_properties ''c'')\<lparr>currentRole := demo_role, channelStatus := CHANNEL_STARTING\<rparr>,
        ci_plugins = [], wrapperId = []\<rparr>,
      \<lparr>ci_properties = demo_properties ''d'', ci_plugins = [], wrapperId = []\<rparr>],
    channelIdToInfo := [''c'' \<mapsto> 0, ''d'' \<mapsto> 1]\<rparr>"
  by (simp add: demo_started_def activate_def demo_infos upd_properties_def setStatus_def)
    (simp add: demo_channels_eq info_of_def upd_channel_def empty_channels_def)



theorem channel_activate_stale_role_witness:
  "fst (activate ''c'' ''nonsense'' (setStatus ''c'' CHANNEL_ENABLED demo_started))"
  using channel_activate_stale_role [of "setStatus ''c'' CHANNEL_ENABLED demo_started" "''c''"
    "\<lparr>ci_properties = (demo_properties ''c'')\<lparr>currentRole := demo_role\<rparr>, ci_plugins = [], wrapperId = []\<rparr>" "''nonsense''"]
  by (simp add: demo_started_eq setStatus_def upd_properties_def upd_channel_def info_of_def empty_channels_def
    demo_properties_def default_channel_properties_def demo_role_def)

theorem channel_failed_keeps_tags_witness:
  "\<not> fst (activate ''d'' ''r'' (channelFailed ''c'' demo_started))"
proof -
  have c: "info_of demo_started ''c'' = Some \<lparr>ci_properties = (demo_properties ''c'')
      \<lparr>currentRole := demo_role, channelStatus := CHANNEL_STARTING\<rparr>, ci_plugins = [], wrapperId = []\<rparr>"
    and d: "info_of demo_started ''d'' = Some \<lparr>ci_properties = demo_properties ''d'', ci_plugins = [], wrapperId = []\<rparr>"
    by (simp_all add: demo_started_eq info_of_def empty_channels_def)
  from channel_failed_keeps_tags [OF demo_started_reach c _ d, of "''r''" demo_role "''pixelfed''"] show ?thesis
    by simp
qed

end
