(* ===== verification/Race_Sdk_Props.thy ===== *)
theory Race_Sdk_Props
  imports Race_Sdk_Packages Race_Links_Inv Race_Channels_Inv
begin

text \<open>
  What the SDK promises: ids that read back, handles that find their network manager, links that
  go with everything on them, channels that are available only when they were asked for, packages
  that reach the network manager with the connections that are open; and the defects.
\<close>

section \<open>Ids and handles\<close>

lemma int_digits_no_slash: "no_slash (int_digits i)"
  using digits_no_slash by (simp add: no_slash_def int_digits_def)

text \<open>
  C36: The ids the SDK makes up read back: the plugin and the link are found in the id of a
  connection, and the plugin in the id of a link, if neither the id of the plugin nor that of the channel has a
  slash in it.
\<close>

theorem sdk_ids_roundtrip:
  assumes "no_slash plugin" "no_slash gid" "isAvailable gid (sdk_channels s)"
  shows "getPluginFromLinkID (fst (generateLinkId plugin gid s)) = Inr plugin \<and>
     getPluginFromConnectionID (fst (generateConnectionId (fst (generateLinkId plugin gid s)) t)) = Inr plugin \<and>
     getLinkIDFromConnectionID (fst (generateConnectionId (fst (generateLinkId plugin gid s)) t)) =
       Inr (fst (generateLinkId plugin gid s))"
proof -
  have "no_slash (''LinkID_'' @ int_digits (link_count s))"
    using int_digits_no_slash by (simp add: no_slash_def)
  from link_of_conn [OF assms(1,2) this, of "''Connection_'' @ int_digits (connection_count t)"]
  show ?thesis using assms plugin_of_link [OF assms(1)]
    by (simp add: generateLinkId_def generateConnectionId_def getPluginFromConnectionID_def)
qed

text \<open>
  An id with a single slash is not rejected: \<open>npos + 1\<close> wraps around, the search for the third
  slash starts over, and what stands before the only slash passes for a link id.
\<close>

theorem sdk_connection_id_one_slash:
  assumes "no_slash a" "no_slash b"
  shows "getLinkIDFromConnectionID (a @ ''/'' @ b) = Inr a"
proof -
  have 1: "str_pos (a @ CHR ''/'' # b) CHR ''/'' 0 = Some (length a)"
    using assms by (intro str_pos_hit) (simp_all add: no_slash_def)
  have 2: "str_pos (a @ CHR ''/'' # b) CHR ''/'' (Suc (length a)) = None"
    using assms by (intro str_pos_miss) (simp add: no_slash_def)
  from 1 2 show ?thesis by (simp add: getLinkIDFromConnectionID_def Let_def)
qed

text \<open>The counters stay in their halves of the 64 bits.\<close>

definition counters_ok :: "race_sdk \<Rightarrow> bool" where
  "counters_ok s \<longleftrightarrow> 1 \<le> networkManagerPluginHandleCount s \<and>
     networkManagerPluginHandleCount s \<le> START_TEST_HARNESS_HANDLE \<and>
     (testHarnessHandleCount s = 0 \<or> START_TEST_HARNESS_HANDLE \<le> testHarnessHandleCount s)"

lemma start_harness: "unat START_TEST_HARNESS_HANDLE = 2 ^ 63" "START_TEST_HARNESS_HANDLE = 9223372036854775808"
  by (simp_all add: START_TEST_HARNESS_HANDLE_def)

lemma high_bit: "and h START_TEST_HARNESS_HANDLE \<noteq> 0 \<longleftrightarrow> START_TEST_HARNESS_HANDLE \<le> h"
proof -
  have "and h START_TEST_HARNESS_HANDLE \<noteq> 0 \<longleftrightarrow> bit h 63"
    unfolding START_TEST_HARNESS_HANDLE_def bit_iff_and_push_bit_not_eq_0 by simp
  also have "\<dots> \<longleftrightarrow> bit (unat h) 63" by (simp add: bit_unsigned_iff)
  also have "\<dots> \<longleftrightarrow> odd (unat h div 2 ^ 63)" by (rule bit_iff_odd)
  also have "\<dots> \<longleftrightarrow> 2 ^ 63 \<le> unat h"
  proof -
    have "unat h < 2 ^ 64" using unsigned_less [of h] by simp
    then have "unat h div 2 ^ 63 < 2" by (simp add: less_mult_imp_div_less)
    then have "odd (unat h div 2 ^ 63) \<longleftrightarrow> 0 < unat h div 2 ^ 63" by (cases "unat h div 2 ^ 63") auto
    then show ?thesis by (simp add: div_greater_zero_iff)
  qed
  also have "\<dots> \<longleftrightarrow> START_TEST_HARNESS_HANDLE \<le> h" using start_harness(1) by (simp add: word_le_nat_alt)
  finally show ?thesis .
qed

lemma generateHandle_ok:
  assumes "counters_ok s"
  shows "counters_ok (snd (generateHandle b s))" "getNM (fst (generateHandle b s)) = (if b then TestHarness else PluginNM)"
    "fst (generateHandle b s) \<noteq> NULL_RACE_HANDLE"
proof -
  let ?n = "networkManagerPluginHandleCount s" and ?t = "testHarnessHandleCount s"
  have n: "1 \<le> unat ?n" "unat ?n \<le> 2 ^ 63" and t: "?t = 0 \<or> 2 ^ 63 \<le> unat ?t"
    using assms by (auto simp: counters_ok_def word_le_nat_alt start_harness(1))
  have s: "unat (w + 1 :: u64) = (if w + 1 = 0 then 0 else Suc (unat w))" for w :: u64
    using unatSuc [of w] by (simp add: add.commute)
  show "counters_ok (snd (generateHandle b s))"
  proof (cases b)
    case True
    let ?c = "if ?t = 0 then START_TEST_HARNESS_HANDLE else ?t"
    have "2 ^ 63 \<le> unat ?c" using t start_harness(1) by auto
    then have "?c + 1 = 0 \<or> START_TEST_HARNESS_HANDLE \<le> ?c + 1"
      using s [of ?c] by (auto simp: word_le_nat_alt start_harness(1) simp del: One_nat_def)
    then show ?thesis using assms True by (simp add: counters_ok_def generateHandle_def Let_def)
  next
    case False
    let ?c = "if ?n = START_TEST_HARNESS_HANDLE then 1 else ?n"
    have "?n \<noteq> START_TEST_HARNESS_HANDLE \<Longrightarrow> unat ?n < 2 ^ 63"
      using n(2) start_harness(1) by (metis order.strict_iff_order word_unat_eq_iff)
    then have c: "1 \<le> unat ?c" "unat ?c < 2 ^ 63" using n(1) by auto
    then have "?c + 1 \<noteq> 0" by (auto simp: start_harness word_unat_eq_iff unat_word_ariths)
    then have "unat (?c + 1) = Suc (unat ?c)" using s [of ?c] by simp
    then have "1 \<le> ?c + 1" "?c + 1 \<le> START_TEST_HARNESS_HANDLE"
      using c by (simp_all add: word_le_nat_alt start_harness(1))
    then show ?thesis using assms False by (simp add: counters_ok_def generateHandle_def Let_def)
  qed
  show "getNM (fst (generateHandle b s)) = (if b then TestHarness else PluginNM)"
  proof (cases b)
    case True
    then have "START_TEST_HARNESS_HANDLE \<le> fst (generateHandle b s)"
      using t by (auto simp: generateHandle_def Let_def word_le_nat_alt start_harness(1))
    then show ?thesis using True high_bit by (simp add: getNM_def)
  next
    case False
    have "?n \<noteq> START_TEST_HARNESS_HANDLE \<Longrightarrow> \<not> START_TEST_HARNESS_HANDLE \<le> ?n"
      using n(2) start_harness(1) by (metis le_antisym word_le_nat_alt word_unat_eq_iff)
    moreover have "\<not> START_TEST_HARNESS_HANDLE \<le> (1 :: u64)" by (simp add: word_le_nat_alt start_harness(1))
    ultimately have "\<not> START_TEST_HARNESS_HANDLE \<le> fst (generateHandle b s)"
      using False by (auto simp: generateHandle_def Let_def)
    then show ?thesis using False high_bit by (simp add: getNM_def)
  qed
  show "fst (generateHandle b s) \<noteq> NULL_RACE_HANDLE"
    using n t by (auto simp: generateHandle_def Let_def NULL_RACE_HANDLE_def start_harness)
qed

section \<open>Links and everything on them\<close>

lemma log_call_fields [simp]:
  "isShuttingDown (log_call c s) = isShuttingDown s" "sdk_links (log_call c s) = sdk_links s"
  "sdk_channels (log_call c s) = sdk_channels s" "has_nm (log_call c s) = has_nm s"
  "commsWrappers (log_call c s) = commsWrappers s"
  "channelsActivateRequested (log_call c s) = channelsActivateRequested s"
  "channelsDisableRequested (log_call c s) = channelsDisableRequested s"
  "networkManagerPluginHandleCount (log_call c s) = networkManagerPluginHandleCount s"
  "testHarnessHandleCount (log_call c s) = testHarnessHandleCount s"
  "sdk_calls (log_call c s) = sdk_calls s @ [c]"
  by (simp_all add: log_call_def)

lemma upd_links_fields [simp]:
  "isShuttingDown (upd_links f s) = isShuttingDown s" "sdk_links (upd_links f s) = f (sdk_links s)"
  "sdk_channels (upd_links f s) = sdk_channels s" "has_nm (upd_links f s) = has_nm s"
  "commsWrappers (upd_links f s) = commsWrappers s"
  "channelsActivateRequested (upd_links f s) = channelsActivateRequested s"
  "channelsDisableRequested (upd_links f s) = channelsDisableRequested s"
  "networkManagerPluginHandleCount (upd_links f s) = networkManagerPluginHandleCount s"
  "testHarnessHandleCount (upd_links f s) = testHarnessHandleCount s"
  "sdk_calls (upd_links f s) = sdk_calls s"
  by (simp_all add: upd_links_def)

lemma upd_channels_fields [simp]:
  "isShuttingDown (upd_channels f s) = isShuttingDown s" "sdk_channels (upd_channels f s) = f (sdk_channels s)"
  "sdk_links (upd_channels f s) = sdk_links s" "has_nm (upd_channels f s) = has_nm s"
  "commsWrappers (upd_channels f s) = commsWrappers s"
  "channelsActivateRequested (upd_channels f s) = channelsActivateRequested s"
  "channelsDisableRequested (upd_channels f s) = channelsDisableRequested s"
  "networkManagerPluginHandleCount (upd_channels f s) = networkManagerPluginHandleCount s"
  "testHarnessHandleCount (upd_channels f s) = testHarnessHandleCount s"
  "sdk_calls (upd_channels f s) = sdk_calls s"
  by (simp_all add: upd_channels_def)

lemma snd_nm_call [simp]: "snd (nm_call E c h s) = log_call c s"
  by (simp add: nm_call_def split: prod.split)

lemma case_nm_call: "(case nm_call E c h s of (r, t) \<Rightarrow> f r t) = f (fst (nm_call E c h s)) (log_call c s)"
  by (simp add: case_prod_beta)

lemma snd_comms_call [simp]: "snd (comms_call E c s) = log_call c s"
  by (simp add: comms_call_def)

text \<open>What the operations on packages in flight leave alone.\<close>

definition cached :: "race_links \<Rightarrow> conn_id \<Rightarrow> u64 list" where
  "cached rl c = getCachedPackageHandles c rl"

lemma connection_of_conns: "connection_of rl c = Option.bind (connToLink rl c) (\<lambda>l. map_option (Pair l) (conns_of rl l c))"
  by (auto simp: connection_of_def conns_of_def split: option.split bind_split)

lemma cached_eq: "cached rl c = (case connToLink rl c of None \<Rightarrow> [] | Some l \<Rightarrow>
    (case conns_of rl l c of None \<Rightarrow> [] | Some ci \<Rightarrow> packageHandles ci))"
  by (simp add: cached_def getCachedPackageHandles_def connection_of_conns split: option.split)

lemma uncache_frame:
  assumes ok: "links_ok rl"
  shows "table_of (removeCachedPackageHandle h rl) = table_of rl"
    and "packageHandleConnectionMap rl h \<noteq> Some d \<Longrightarrow> cached (removeCachedPackageHandle h rl) d = cached rl d"
    and "packageHandleConnectionMap (removeCachedPackageHandle h rl) g \<in> {None, packageHandleConnectionMap rl g}"
proof -
  let ?rl = "removeCachedPackageHandle h rl"
  show t: "table_of ?rl = table_of rl"
    by (auto simp: removeCachedPackageHandle_def table_of_def connection_of_Some conns_of_def fun_eq_iff
      split: option.split)
  then have l: "connToLink ?rl = connToLink rl" by (simp add: table_of_def)
  have "conns_of ?rl k d = (if packageHandleConnectionMap rl h = Some d \<and> h \<noteq> NULL_RACE_HANDLE
      then map_option (\<lambda>ci. ci\<lparr>packageHandles := removeAll h (packageHandles ci)\<rparr>) (conns_of rl k d) else conns_of rl k d)" for k d
  proof (cases "packageHandleConnectionMap rl h")
    case (Some c)
    show ?thesis
    proof (cases "connection_of rl c")
      case None
      then have "conns_of rl k c = None" for k using connection_of_ok [OF ok] links_okD(1) [OF ok] by (metis option.discI)
      then show ?thesis using Some None by (auto simp: removeCachedPackageHandle_def)
    next
      case x: (Some x)
      then obtain l ci where x': "x = (l, ci)" "connToLink rl c = Some l" "conns_of rl l c = Some ci"
        by (cases x) (simp add: connection_of_Some)
      then have "k \<noteq> l \<Longrightarrow> conns_of rl k c = None" using links_ok_unique [OF ok x'(3)] by (metis not_None_eq)
      then show ?thesis using Some x x' 
        by (auto simp: removeCachedPackageHandle_def conns_of_def split: option.splits)
    qed
  qed (simp add: removeCachedPackageHandle_def)
  note c = this
  show "packageHandleConnectionMap ?rl g \<in> {None, packageHandleConnectionMap rl g}"
    by (auto simp: removeCachedPackageHandle_def split: option.split)
  assume "packageHandleConnectionMap rl h \<noteq> Some d"
  then show "cached ?rl d = cached rl d" by (simp add: cached_eq l c split: option.split)
qed

definition package_failures :: "u64 list \<Rightarrow> sdk_call list" where
  "package_failures hs = map (\<lambda>h. NmPackageStatus (getNM h) h PACKAGE_FAILED_GENERIC) hs"

text \<open>What the callbacks about links leave alone.\<close>

definition sdk_frame :: "race_sdk \<Rightarrow> bool \<times> bool \<times> string set \<times> string set \<times> string set \<times> u64 \<times> u64" where
  "sdk_frame s = (isShuttingDown s, has_nm s, commsWrappers s, channelsActivateRequested s,
     channelsDisableRequested s, networkManagerPluginHandleCount s, testHarnessHandleCount s)"

lemma fail_packages_frame:
  assumes "links_ok (sdk_links s)" "\<forall>h \<in> set hs. packageHandleConnectionMap (sdk_links s) h \<in> {None, Some c}"
  shows "links_ok (sdk_links (fail_packages E hs s)) \<and> table_of (sdk_links (fail_packages E hs s)) = table_of (sdk_links s) \<and>
     sdk_channels (fail_packages E hs s) = sdk_channels s \<and> sdk_frame (fail_packages E hs s) = sdk_frame s \<and>
     sdk_calls (fail_packages E hs s) = sdk_calls s @ package_failures hs \<and>
     (\<forall>d. d \<noteq> c \<longrightarrow> cached (sdk_links (fail_packages E hs s)) d = cached (sdk_links s) d)"
  using assms
proof (induction hs arbitrary: s)
  case (Cons h hs)
  let ?s = "snd (onPackageStatusChanged E h PACKAGE_FAILED_GENERIC s)"
  have s: "fail_packages E (h # hs) s = fail_packages E hs ?s" by (simp add: fail_packages_def)
  have l: "sdk_links ?s = removeCachedPackageHandle h (sdk_links s)" "sdk_channels ?s = sdk_channels s"
    "sdk_frame ?s = sdk_frame s" "sdk_calls ?s = sdk_calls s @ [NmPackageStatus (getNM h) h PACKAGE_FAILED_GENERIC]"
    by (simp_all add: onPackageStatusChanged_def sdk_frame_def)
  have ok: "links_ok (sdk_links ?s)" using uncache_ok Cons.prems(1) by (simp add: l)
  have "\<forall>g \<in> set hs. packageHandleConnectionMap (sdk_links ?s) g \<in> {None, Some c}"
  proof
    fix g assume "g \<in> set hs"
    with uncache_frame(3) [OF Cons.prems(1), of h g] Cons.prems(2)
    show "packageHandleConnectionMap (sdk_links ?s) g \<in> {None, Some c}" by (auto simp: l)
  qed
  note IH = Cons.IH [OF ok this]
  have "cached (sdk_links ?s) d = cached (sdk_links s) d" if "d \<noteq> c" for d
    unfolding l using that Cons.prems(2) by (intro uncache_frame(2) [OF Cons.prems(1)]) auto
  moreover have "table_of (sdk_links ?s) = table_of (sdk_links s)"
    unfolding l by (rule uncache_frame(1) [OF Cons.prems(1)])
  ultimately show ?case using IH by (simp add: s l(2,3,4) package_failures_def)
qed (simp add: fail_packages_def package_failures_def)

lemma fold_frame: "(\<And>x s. v (f x s) = v s) \<Longrightarrow> v (fold f xs s) = v s"
  by (induction xs arbitrary: s) simp_all

lemma frame_package_status [simp]: "sdk_frame (snd (onPackageStatusChanged E h st s)) = sdk_frame s"
  by (simp add: onPackageStatusChanged_def sdk_frame_def)

lemma frame_connection_status [simp]: "sdk_frame (snd (onConnectionStatusChanged E h c st props s)) = sdk_frame s"
proof -
  have "sdk_frame (connection_closed E h c s) = sdk_frame s" for s
    using fold_frame [of sdk_frame "\<lambda>h s. snd (onPackageStatusChanged E h PACKAGE_FAILED_GENERIC s)"]
    by (simp add: connection_closed_def fail_packages_def Let_def) (simp add: sdk_frame_def)
  moreover have "connection_opened E h c s = (b, t) \<Longrightarrow> sdk_frame t = sdk_frame s" for b t
    by (auto simp: connection_opened_def sdk_frame_def split: prod.splits option.splits)
  moreover have "sdk_frame (log_call d s) = sdk_frame s" for d s by (simp add: sdk_frame_def)
  ultimately show ?thesis
    by (cases st) (auto simp: onConnectionStatusChanged_def split: sum.split prod.split)
qed

lemma frame_link_status [simp]: "sdk_frame (snd (onLinkStatusChanged E h l st props s)) = sdk_frame s"
proof -
  have "sdk_frame (link_destroyed E h l props s) = sdk_frame s" for s
    using fold_frame [of sdk_frame "\<lambda>c s. snd (onConnectionStatusChanged E h c CONNECTION_CLOSED props s)"]
    by (simp add: link_destroyed_def close_connections_def Let_def) (simp add: sdk_frame_def)
  moreover have "link_created E h l props s = (r, t) \<Longrightarrow> sdk_frame t = sdk_frame s" for r t
    by (auto simp: link_created_def sdk_frame_def Let_def split: prod.splits option.splits sum.splits)
  moreover have "sdk_frame (log_call d s) = sdk_frame s" for d s by (simp add: sdk_frame_def)
  ultimately show ?thesis
    by (cases st) (auto simp: onLinkStatusChanged_def split: option.split prod.split)
qed

lemma frame_destroy_links [simp]: "sdk_frame (destroy_links E h props ls s) = sdk_frame s"
  unfolding destroy_links_def by (rule fold_frame) simp

text \<open>One connection is closed: its packages fail first, then the network manager is told.\<close>

lemma cached_handle:
  assumes "links_ok rl" "h \<in> set (cached rl c)"
  shows "h \<noteq> NULL_RACE_HANDLE \<and> packageHandleConnectionMap rl h = Some c"
proof (cases "connToLink rl c")
  case (Some l)
  then show ?thesis using assms links_okD(3) [OF assms(1), of l c _ h]
    by (cases "conns_of rl l c") (auto simp: cached_eq)
qed (use assms in \<open>simp add: cached_eq\<close>)

lemma removeConnection_cached:
  assumes "d \<noteq> c"
  shows "cached (snd (removeConnection c rl)) d = cached rl d"
proof -
  have "conns_of (snd (removeConnection c rl)) k d = conns_of rl k d" for k
  proof (cases "getLinkIDFromConnectionID c")
    case (Inr l)
    then show ?thesis using assms
      by (cases "link_of rl l") (auto simp: removeConnection_def Let_def conns_of_Some)
  qed (simp add: removeConnection_def)
  moreover have "connToLink (snd (removeConnection c rl)) d = connToLink rl d"
    using assms by (auto simp: removeConnection_def Let_def split: sum.split)
  ultimately show ?thesis by (simp add: cached_eq split: option.split)
qed

lemma cached_removeConnectionRequest [simp]: "cached (removeConnectionRequest h rl) = cached rl"
  by (simp add: fun_eq_iff cached_eq removeConnectionRequest_def split: option.split)

definition closing_calls :: "u64 \<Rightarrow> link_id \<Rightarrow> link_properties \<Rightarrow> race_links \<Rightarrow> conn_id \<Rightarrow> sdk_call list" where
  "closing_calls handle l props rl c = package_failures (cached rl c) @
     [NmConnectionStatus (getNM handle) handle c CONNECTION_CLOSED l props]"

lemma close_one:
  assumes ok: "links_ok (sdk_links s)" and run: "\<not> isShuttingDown s" "has_nm s" "\<not> bootstrap_conn E handle"
    and c: "connToLink (sdk_links s) c = Some l"
    and s': "s' = snd (onConnectionStatusChanged E handle c CONNECTION_CLOSED props s)"
  shows "links_ok (sdk_links s')" "table_of (sdk_links s') = t_close c (table_of (sdk_links s))"
    "sdk_channels s' = sdk_channels s" "sdk_frame s' = sdk_frame s"
    "sdk_calls s' = sdk_calls s @ closing_calls handle l props (sdk_links s) c"
    "d \<noteq> c \<Longrightarrow> cached (sdk_links s') d = cached (sdk_links s) d"
proof -
  have l: "getLinkIDFromConnectionID c = Inr l" using links_okD(2) [OF ok c] .
  have nil: "getLinkIDFromConnectionID [] = Inl InvalidArgument"
    by (simp add: getLinkIDFromConnectionID_def str_pos_def)
  then have "c \<noteq> []" using l by auto
  let ?t = "fail_packages E (cached (sdk_links s) c) s"
  let ?f = "\<lambda>rl. snd (removeConnection c (removeConnectionRequest handle rl))"
  have e: "s' = log_call (NmConnectionStatus (getNM handle) handle c CONNECTION_CLOSED l props) (upd_links ?f ?t)"
    using run l \<open>c \<noteq> []\<close> by (simp add: s' onConnectionStatusChanged_def connection_closed_def cached_def Let_def)
  have "\<forall>h \<in> set (cached (sdk_links s) c). packageHandleConnectionMap (sdk_links s) h \<in> {None, Some c}"
    using cached_handle [OF ok] by auto
  note f = fail_packages_frame [OF ok this, of E]
  then have ok1: "links_ok (removeConnectionRequest handle (sdk_links ?t))" by (simp add: requests_ok)
  show "links_ok (sdk_links s')" using removeConnection_ok [OF ok1] by (simp add: e)
  show "table_of (sdk_links s') = t_close c (table_of (sdk_links s))"
    using f by (simp add: e table_of_removeConnection) (simp add: table_of_def removeConnectionRequest_def)
  show "sdk_channels s' = sdk_channels s" using f by (simp add: e)
  show "sdk_frame s' = sdk_frame s" using f by (simp add: e sdk_frame_def)
  show "sdk_calls s' = sdk_calls s @ closing_calls handle l props (sdk_links s) c"
    using f by (simp add: e closing_calls_def)
  assume "d \<noteq> c"
  then show "cached (sdk_links s') d = cached (sdk_links s) d"
    using f removeConnection_cached by (simp add: e)
qed

lemma close_all:
  assumes "links_ok (sdk_links s)" "\<not> isShuttingDown s" "has_nm s" "\<not> bootstrap_conn E handle" "distinct cs"
    "\<forall>c \<in> set cs. connToLink (sdk_links s) c = Some l"
  shows "links_ok (sdk_links (close_connections E handle props cs s)) \<and>
    table_of (sdk_links (close_connections E handle props cs s)) = fold t_close cs (table_of (sdk_links s)) \<and>
    sdk_channels (close_connections E handle props cs s) = sdk_channels s \<and>
    sdk_frame (close_connections E handle props cs s) = sdk_frame s \<and>
    sdk_calls (close_connections E handle props cs s) = sdk_calls s @ concat (map (closing_calls handle l props (sdk_links s)) cs)"
  using assms
proof (induction cs arbitrary: s)
  case (Cons c cs)
  let ?s = "snd (onConnectionStatusChanged E handle c CONNECTION_CLOSED props s)"
  have "connToLink (sdk_links s) c = Some l" using Cons.prems(6) by simp
  note one = close_one [OF Cons.prems(1-4) this refl, where props = props]
  have fr: "\<not> isShuttingDown ?s" "has_nm ?s" using one(4) Cons.prems(2,3) by (simp_all add: sdk_frame_def)
  have tab: "connToLink (sdk_links ?s) d = (if d = c then None else connToLink (sdk_links s) d)" for d
    using arg_cong [OF one(2), of lt_conns] by (simp add: table_of_def t_close_def)
  have "\<forall>d \<in> set cs. connToLink (sdk_links ?s) d = Some l" using Cons.prems(5,6) tab by auto
  note IH = Cons.IH [OF one(1) fr Cons.prems(4) _ this]
  have m: "map (closing_calls handle l props (sdk_links ?s)) cs = map (closing_calls handle l props (sdk_links s)) cs"
  proof (rule map_cong [OF refl])
    fix d assume "d \<in> set cs"
    then have "cached (sdk_links ?s) d = cached (sdk_links s) d" using Cons.prems(5) by (intro one(6)) auto
    then show "closing_calls handle l props (sdk_links ?s) d = closing_calls handle l props (sdk_links s) d"
      by (simp add: closing_calls_def)
  qed
  show ?case using IH [unfolded m] one Cons.prems(5) by (simp add: close_connections_def)
qed (simp add: close_connections_def)

lemma fold_t_close: "lt_personas (fold t_close cs t) = lt_personas t"
  "lt_conns (fold t_close cs t) c = (if c \<in> set cs then None else lt_conns t c)"
  by (induction cs arbitrary: t) (auto simp: t_close_def)

lemma getLinkConnections_ok:
  assumes "links_ok rl"
  shows "distinct (getLinkConnections l rl)" "c \<in> set (getLinkConnections l rl) \<longleftrightarrow> connToLink rl c = Some l"
proof -
  show "distinct (getLinkConnections l rl)" using assms
    by (cases "link_of rl l") (simp_all add: getLinkConnections_def links_ok_def keys_ok_def)
  show "c \<in> set (getLinkConnections l rl) \<longleftrightarrow> connToLink rl c = Some l"
    using links_okD(1) [OF assms, of c l]
    by (auto simp: getLinkConnections_def conns_of_def fst_set_map_of dom_def split: option.splits)
qed

text \<open>What the network manager hears when a link goes.\<close>

definition destroy_calls :: "u64 \<Rightarrow> link_properties \<Rightarrow> race_links \<Rightarrow> link_id \<Rightarrow> sdk_call list" where
  "destroy_calls handle props rl l =
     concat (map (closing_calls handle l props rl) (getLinkConnections l rl)) @
     [NmLinkStatus (getNM handle) handle l LINK_DESTROYED props]"

lemma t_drop_close: "(\<And>c. c \<in> set cs \<longleftrightarrow> lt_conns t c = Some l) \<Longrightarrow> t_drop l (fold t_close cs t) = t_drop l t"
  by (auto simp: t_drop_def fold_t_close fun_eq_iff)

lemma table_of_removeNewLinkRequest [simp]: "table_of (removeNewLinkRequest h l rl) = table_of rl"
  by (simp add: table_of_def removeNewLinkRequest_def fun_eq_iff split: option.split)

lemma link_destroyed_ok:
  assumes ok: "links_ok (sdk_links s)" and run: "\<not> isShuttingDown s" "has_nm s"
    and b: "\<not> bootstrap_conn E handle" "\<not> bootstrap_link E handle" and l: "l \<noteq> []"
    and s': "s' = snd (onLinkStatusChanged E handle l LINK_DESTROYED props s)"
  shows "links_ok (sdk_links s')" "table_of (sdk_links s') = t_drop l (table_of (sdk_links s))"
    "sdk_frame s' = sdk_frame s" "sdk_calls s' = sdk_calls s @ destroy_calls handle props (sdk_links s) l"
    "sdk_channels s' = (if lp_channelGid props = [] then sdk_channels s
       else removeLinkId (lp_channelGid props) l (sdk_channels s))"
proof -
  let ?cs = "getLinkConnections l (sdk_links s)"
  let ?t = "close_connections E handle props ?cs s"
  note cs = getLinkConnections_ok [OF ok, where l = l]
  then have all: "\<forall>c \<in> set ?cs. connToLink (sdk_links s) c = Some l" by blast
  note t = close_all [OF ok run b(1) cs(1) all, of props]
  define rl where "rl = removeNewLinkRequest handle l (sdk_links ?t)"
  have rl: "links_ok rl" "table_of rl = fold t_close ?cs (table_of (sdk_links s))"
    using t by (simp_all add: rl_def requests_ok)
  have e: "sdk_links s' = removeLink l rl" "sdk_frame s' = sdk_frame ?t"
    "sdk_calls s' = sdk_calls ?t @ [NmLinkStatus (getNM handle) handle l LINK_DESTROYED props]"
    "sdk_channels s' = (if lp_channelGid props = [] then sdk_channels ?t
       else removeLinkId (lp_channelGid props) l (sdk_channels ?t))"
    using run b l
    by (simp_all add: s' onLinkStatusChanged_def link_destroyed_def Let_def rl_def sdk_frame_def split: prod.split)
  show "links_ok (sdk_links s')" by (simp add: e(1) removeLink_ok rl(1))
  have "c \<in> set ?cs \<longleftrightarrow> lt_conns (table_of (sdk_links s)) c = Some l" for c by (simp add: cs(2) table_of_def)
  then show "table_of (sdk_links s') = t_drop l (table_of (sdk_links s))"
    by (simp add: e(1) table_of_removeLink [OF rl(1)] rl(2) t_drop_close)
  show "sdk_frame s' = sdk_frame s" using t by (simp add: e)
  show "sdk_calls s' = sdk_calls s @ destroy_calls handle props (sdk_links s) l"
    using t by (simp add: e destroy_calls_def)
  show "sdk_channels s' = (if lp_channelGid props = [] then sdk_channels s
       else removeLinkId (lp_channelGid props) l (sdk_channels s))" using t by (simp add: e)
qed

text \<open>
  C5: When a plugin reports a link destroyed, the link goes and all its connections with it, and
  nothing else: for every connection the network manager hears first that the packages in flight on
  it have failed, then that it is closed, and last that the link is gone.
\<close>

theorem sdk_link_destroyed:
  assumes "links_step\<^sup>*\<^sup>* new_race_links (sdk_links s)" "\<not> isShuttingDown s" "has_nm s" "l \<noteq> []"
    "\<not> bootstrap_conn E handle" "\<not> bootstrap_link E handle"
  shows "table_of (sdk_links (snd (onLinkStatusChanged E handle l LINK_DESTROYED props s))) =
      t_drop l (table_of (sdk_links s)) \<and>
    sdk_calls (snd (onLinkStatusChanged E handle l LINK_DESTROYED props s)) = sdk_calls s @
      concat (map (\<lambda>c. map (\<lambda>h. NmPackageStatus (getNM h) h PACKAGE_FAILED_GENERIC) (getCachedPackageHandles c (sdk_links s)) @
          [NmConnectionStatus (getNM handle) handle c CONNECTION_CLOSED l props]) (getLinkConnections l (sdk_links s))) @
      [NmLinkStatus (getNM handle) handle l LINK_DESTROYED props]"
proof -
  have ok: "links_ok (sdk_links s)" using race_links.reachable_inv assms(1) by blast
  from link_destroyed_ok(2,4) [OF ok assms(2,3,5,6,4) refl] show ?thesis
    by (simp add: destroy_calls_def closing_calls_def [abs_def] package_failures_def cached_def)
qed

section \<open>Channels\<close>

text \<open>All links of a channel that fails or is disabled are destroyed, in turn.\<close>

definition is_link_call :: "sdk_call \<Rightarrow> bool" where
  "is_link_call c \<longleftrightarrow> (case c of NmLinkStatus _ _ _ _ _ \<Rightarrow> True | _ \<Rightarrow> False)"

lemma destroy_calls_links [simp]:
  "filter is_link_call (destroy_calls handle props rl l) = [NmLinkStatus (getNM handle) handle l LINK_DESTROYED props]"
proof -
  have "filter is_link_call (package_failures hs) = []" for hs
    by (simp add: package_failures_def is_link_call_def filter_empty_conv)
  then have "filter is_link_call (closing_calls handle l props rl c) = []" for c
    by (simp add: closing_calls_def) (simp add: is_link_call_def)
  then have "filter is_link_call (concat (map (closing_calls handle l props rl) cs)) = []" for cs
    by (induction cs) simp_all
  then show ?thesis by (simp add: destroy_calls_def) (simp add: is_link_call_def)
qed

lemma getLinksForChannel_removeLinkId:
  "getLinksForChannel gid (removeLinkId hid l rc) =
     (if gid = hid then removeAll l (getLinksForChannel gid rc) else getLinksForChannel gid rc)"
  by (simp add: getLinksForChannel_def removeLinkId_def)

lemma info_of_removeLinkId [simp]: "info_of (removeLinkId hid l rc) = info_of rc"
  by (simp add: fun_eq_iff info_of_def removeLinkId_def)

lemma destroy_links_ok:
  assumes "links_ok (sdk_links s)" "\<not> isShuttingDown s" "has_nm s" "\<not> bootstrap_conn E handle"
    "\<not> bootstrap_link E handle" "[] \<notin> set ls" "lp_channelGid props = gid" "gid \<noteq> []"
  shows "links_ok (sdk_links (destroy_links E handle props ls s)) \<and>
    table_of (sdk_links (destroy_links E handle props ls s)) = fold t_drop ls (table_of (sdk_links s)) \<and>
    sdk_frame (destroy_links E handle props ls s) = sdk_frame s \<and>
    info_of (sdk_channels (destroy_links E handle props ls s)) = info_of (sdk_channels s) \<and>
    getLinksForChannel gid (sdk_channels (destroy_links E handle props ls s)) =
      filter (\<lambda>l. l \<notin> set ls) (getLinksForChannel gid (sdk_channels s)) \<and>
    filter is_link_call (sdk_calls (destroy_links E handle props ls s)) = filter is_link_call (sdk_calls s) @
      map (\<lambda>l. NmLinkStatus (getNM handle) handle l LINK_DESTROYED props) ls"
  using assms
proof (induction ls arbitrary: s)
  case (Cons l ls)
  let ?s = "snd (onLinkStatusChanged E handle l LINK_DESTROYED props s)"
  have "l \<noteq> []" using Cons.prems(6) by auto
  note one = link_destroyed_ok [OF Cons.prems(1-5) this refl, where props = props]
  have fr: "\<not> isShuttingDown ?s" "has_nm ?s" using one(3) Cons.prems(2,3) by (simp_all add: sdk_frame_def)
  have ls: "[] \<notin> set ls" using Cons.prems(6) by simp
  have f: "filter (\<lambda>k. k \<notin> set ls) (removeAll l xs) = filter (\<lambda>k. k \<notin> set (l # ls)) xs" for xs
    by (induction xs) auto
  show ?case using Cons.IH [OF one(1) fr Cons.prems(4,5) ls Cons.prems(7,8)] one(2-5) Cons.prems(7,8)
    by (simp add: destroy_links_def getLinksForChannel_removeLinkId f [unfolded list.set insert_iff de_Morgan_disj])
qed (simp add: destroy_links_def)

lemma status_checks_None:
  assumes "channel_status_checks gid props s = None"
  shows "\<not> isShuttingDown s" "has_nm s" "gid \<noteq> []"
  using assms by (auto simp: channel_status_checks_def split: if_splits)

lemma getLinksForChannel_update [simp]:
  "getLinksForChannel hid (snd (update gid status props rc)) = getLinksForChannel hid rc"
  by (simp add: update_def upd_properties_def getLinksForChannel_def)

text \<open>
  C9: When a channel fails or is disabled, or reports anything after the user has asked to disable
  it, the network manager hears of the channel, and then every link of the channel is destroyed:
  nothing is left of them in the tables, the network manager hears of each that it is
  gone, and no other link is touched.
\<close>

theorem sdk_channel_down:
  assumes "links_step\<^sup>*\<^sup>* new_race_links (sdk_links s)" "channel_status_checks gid props s = None"
    "\<not> bootstrap_conn E handle" "\<not> bootstrap_link E handle"
    and ls: "[] \<notin> set (getLinksForChannel gid (sdk_channels s))"
    and st: "st = (if gid \<in> channelsDisableRequested s then CHANNEL_DISABLED else status)"
      "st = CHANNEL_FAILED \<or> st = CHANNEL_DISABLED" "status \<noteq> CHANNEL_AVAILABLE"
    and s': "s' = snd (onChannelStatusChanged E handle gid status props s)"
  shows "table_of (sdk_links s') = fold t_drop (getLinksForChannel gid (sdk_channels s)) (table_of (sdk_links s)) \<and>
    getLinksForChannel gid (sdk_channels s') = [] \<and> gid \<notin> channelsDisableRequested s' \<and>
    filter is_link_call (sdk_calls s') = filter is_link_call (sdk_calls s) @
      map (\<lambda>l. NmLinkStatus (getNM handle) handle l LINK_DESTROYED (default_link_properties\<lparr>lp_channelGid := gid\<rparr>))
        (getLinksForChannel gid (sdk_channels s))"
proof -
  have ok: "links_ok (sdk_links s)" using race_links.reachable_inv assms(1) by blast
  note c = status_checks_None [OF assms(2)]
  define t where "t = log_call (NmChannelStatus (getNM handle) handle gid st props)
    (s\<lparr>channelsDisableRequested := channelsDisableRequested s - {gid},
       sdk_channels := snd (update gid st props (sdk_channels s))\<rparr>)"
  have t: "links_ok (sdk_links t)" "\<not> isShuttingDown t" "has_nm t" "sdk_links t = sdk_links s"
    "channelsDisableRequested t = channelsDisableRequested s - {gid}"
    "getLinksForChannel gid (sdk_channels t) = getLinksForChannel gid (sdk_channels s)"
    "filter is_link_call (sdk_calls t) = filter is_link_call (sdk_calls s)"
    using ok c by (simp_all add: t_def is_link_call_def)
  have e: "s' = destroy_links E handle (default_link_properties\<lparr>lp_channelGid := gid\<rparr>)
      (getLinksForChannel gid (sdk_channels t)) t"
    using st assms(2) by (auto simp: s' onChannelStatusChanged_def Let_def t_def update_def case_nm_call)
  note d = destroy_links_ok [OF t(1-3) assms(3,4) ls _ c(3), where props = "default_link_properties\<lparr>lp_channelGid := gid\<rparr>"]
  then have "sdk_frame s' = sdk_frame t" by (simp add: e t(6))
  then have "channelsDisableRequested s' = channelsDisableRequested s - {gid}" by (simp add: sdk_frame_def t(5))
  then show ?thesis using d by (simp add: e t(4,6,7))
qed


lemma channels_package_status [simp]: "sdk_channels (snd (onPackageStatusChanged E h st s)) = sdk_channels s"
  by (simp add: onPackageStatusChanged_def)

lemma channels_connection_closed [simp]:
  "sdk_channels (snd (onConnectionStatusChanged E h c CONNECTION_CLOSED props s)) = sdk_channels s"
proof -
  have "sdk_channels (connection_closed E h c s) = sdk_channels s"
    using fold_frame [of sdk_channels "\<lambda>h s. snd (onPackageStatusChanged E h PACKAGE_FAILED_GENERIC s)"]
    by (simp add: connection_closed_def fail_packages_def Let_def)
  then show ?thesis by (simp add: onConnectionStatusChanged_def split: sum.split)
qed

lemma channels_link_destroyed [simp]:
  "channels (sdk_channels (snd (onLinkStatusChanged E h l LINK_DESTROYED props s))) = channels (sdk_channels s)"
  "channelIdToInfo (sdk_channels (snd (onLinkStatusChanged E h l LINK_DESTROYED props s))) = channelIdToInfo (sdk_channels s)"
proof -
  have "sdk_channels (close_connections E h props cs s) = sdk_channels s" for cs
    unfolding close_connections_def by (rule fold_frame) simp
  then have "channels (sdk_channels (link_destroyed E h l props s)) = channels (sdk_channels s)"
    "channelIdToInfo (sdk_channels (link_destroyed E h l props s)) = channelIdToInfo (sdk_channels s)"
    by (simp_all add: link_destroyed_def Let_def removeLinkId_def)
  then show "channels (sdk_channels (snd (onLinkStatusChanged E h l LINK_DESTROYED props s))) = channels (sdk_channels s)"
    "channelIdToInfo (sdk_channels (snd (onLinkStatusChanged E h l LINK_DESTROYED props s))) = channelIdToInfo (sdk_channels s)"
    by (simp_all add: onLinkStatusChanged_def)
qed

lemma channels_destroy_links [simp]:
  "channels (sdk_channels (destroy_links E h props ls s)) = channels (sdk_channels s)"
  "channelIdToInfo (sdk_channels (destroy_links E h props ls s)) = channelIdToInfo (sdk_channels s)"
  unfolding destroy_links_def
  by (rule fold_frame [where v = "\<lambda>s. channels (sdk_channels s)"], simp)
    (rule fold_frame [where v = "\<lambda>s. channelIdToInfo (sdk_channels s)"], simp)

lemma no_roles_no_activation:
  assumes "info_of rc gid = Some ci" "roles (ci_properties ci) = []" "linkSide (currentRole (ci_properties ci)) = LS_UNDEF"
  shows "activate gid name rc = (False, rc)"
  using assms by (simp add: activate_def)

text \<open>
  C33: A report that carries default properties passes the check of the static properties, because
  the check looks up the channel these properties name, and there is none; the properties of the channel are
  overwritten. Decomposed channels report deactivation and failure in this way,
  and so do wrappers that cannot post an activation: after it the channel has no roles, and whatever
  status it is given, it is never activated again.
\<close>

theorem sdk_channel_wiped:
  assumes "channels_step\<^sup>*\<^sup>* (empty_channels b) (sdk_channels s)" "info_of (sdk_channels s) gid = Some ci"
    "info_of (sdk_channels s) [] = None" "\<not> isShuttingDown s" "has_nm s" "filter (\<lambda>c. \<not> is_space c) gid \<noteq> []"
    and st: "status \<noteq> CHANNEL_AVAILABLE"
    and s': "s' = snd (onChannelStatusChanged E handle gid status (default_channel_properties\<lparr>channelStatus := any\<rparr>) s)"
  shows "getChannelProperties gid (sdk_channels s') = Inr (default_channel_properties\<lparr>channelStatus :=
       (if gid \<in> channelsDisableRequested s then CHANNEL_DISABLED else status)\<rparr>) \<and>
     \<not> fst (activate gid name (setStatus gid later (sdk_channels s')))"
proof -
  let ?p = "default_channel_properties\<lparr>channelStatus := any\<rparr>"
  let ?st = "if gid \<in> channelsDisableRequested s then CHANNEL_DISABLED else status"
  define ci' where "ci' = ci\<lparr>ci_properties := default_channel_properties\<lparr>channelStatus := ?st\<rparr>\<rparr>"
  have inv: "channels_ok (sdk_channels s)" using race_channels.reachable_inv assms(1) by blast
  have r: "currentRole default_channel_properties = default_role" "roles default_channel_properties = []"
    "mechanicalTags default_role = []" "linkSide default_role = LS_UNDEF" "channelGid default_channel_properties = []"
    by (simp_all add: default_channel_properties_def default_role_def)
  then have p: "?p\<lparr>channelStatus := ?st, currentRole := default_role\<rparr> = default_channel_properties\<lparr>channelStatus := ?st\<rparr>"
    "?p\<lparr>channelStatus := ?st\<rparr> = default_channel_properties\<lparr>channelStatus := ?st\<rparr>" by simp_all
  let ?rc = "snd (update gid ?st ?p (sdk_channels s))"
  have u: "info_of ?rc gid = Some ci'" "channels_ok ?rc"
    using assms(2) inv update_ok [OF inv, of gid ?p] p
    by (auto simp: update_def upd_properties_def info_of_upd_channel ci'_def own_role_def r)
  have c: "channel_status_checks gid ?p s = None"
    using assms by (simp add: channel_status_checks_def channelStaticPropertiesEqual_def
      sdk_getChannelProperties_def getChannelProperties_def r)
  then have e: "channels (sdk_channels s') = channels ?rc" "channelIdToInfo (sdk_channels s') = channelIdToInfo ?rc"
    using st by (auto simp: s' onChannelStatusChanged_def Let_def update_def case_nm_call)
  then have i: "info_of (sdk_channels s') gid = Some ci'" "channels_ok (sdk_channels s')"
    using u channels_ok_cong [OF u(2)] by (simp_all add: info_of_def)
  then have l: "info_of (setStatus gid later (sdk_channels s')) gid =
      Some (ci'\<lparr>ci_properties := (ci_properties ci')\<lparr>channelStatus := later\<rparr>\<rparr>)"
    by (simp add: setStatus_def upd_properties_def info_of_upd_channel)
  have "\<not> fst (activate gid name (setStatus gid later (sdk_channels s')))"
    using no_roles_no_activation [OF l, of name] by (simp add: ci'_def r)
  with i(1) show ?thesis by (simp add: getChannelProperties_def ci'_def)
qed

end
