(* ===== verification/Race_Sdk_Runs.thy ===== *)
theory Race_Sdk_Runs
  imports Race_Sdk_Props
begin

text \<open>
  The SDK, continued: handles are not given out twice, packages reach the network manager with the
  connections that are open, which channels are cleaned up with a plugin; and runs on which the
  properties are seen.
\<close>

section \<open>Handles are fresh\<close>

fun handles :: "nat \<Rightarrow> bool \<Rightarrow> race_sdk \<Rightarrow> u64 list \<times> race_sdk" where
  "handles 0 b s = ([], s)"
| "handles (Suc n) b s =
     (let (h, s1) = generateHandle b s; (hs, s2) = handles n b s1 in (h # hs, s2))"

text \<open>Where a counter stands in its half of the 64 bits.\<close>

definition handle_base :: "bool \<Rightarrow> nat" where
  "handle_base b = (if b then 2 ^ 63 else 1)"

definition handle_size :: "bool \<Rightarrow> nat" where
  "handle_size b = (if b then 2 ^ 63 else 2 ^ 63 - 1)"

definition handle_index :: "bool \<Rightarrow> race_sdk \<Rightarrow> nat" where
  "handle_index b s =
     (if b then (if testHarnessHandleCount s = 0 then 0 else unat (testHarnessHandleCount s) - 2 ^ 63)
      else if networkManagerPluginHandleCount s = START_TEST_HARNESS_HANDLE then 0
      else unat (networkManagerPluginHandleCount s) - 1)"

lemma unat_next: "unat (w + 1 :: u64) = (if w + 1 = 0 then 0 else Suc (unat w))"
  using unatSuc [of w] by (simp add: add.commute)

lemma unat_next_zero: "(w :: u64) + 1 = 0 \<longleftrightarrow> unat w = 2 ^ 64 - 1"
proof -
  have "w + 1 = 0 \<longleftrightarrow> w = - 1" by (rule add_eq_0_iff2)
  also have "\<dots> \<longleftrightarrow> unat w = unat (- 1 :: u64)" by (simp add: word_unat_eq_iff)
  also have "unat (- 1 :: u64) = 2 ^ 64 - 1" by (simp add: unsigned_minus_1_eq_mask mask_eq_exp_minus_1)
  finally show ?thesis .
qed

lemma generateHandle_index:
  assumes "counters_ok s"
  shows "unat (fst (generateHandle b s)) = handle_base b + handle_index b s"
    and "handle_index b s < handle_size b"
    and "handle_index b (snd (generateHandle b s)) = Suc (handle_index b s) mod handle_size b"
proof -
  let ?n = "networkManagerPluginHandleCount s" and ?t = "testHarnessHandleCount s"
  have n: "1 \<le> unat ?n" "unat ?n \<le> 2 ^ 63" "?n = START_TEST_HARNESS_HANDLE \<longleftrightarrow> unat ?n = 2 ^ 63"
    and t: "?t = 0 \<or> 2 ^ 63 \<le> unat ?t"
    using assms start_harness(1) by (auto simp: counters_ok_def word_le_nat_alt word_unat_eq_iff)
  have m: "unat ?t < 2 ^ 64" using unsigned_less [of ?t] by simp
  show i: "handle_index b s < handle_size b"
    using n t m by (auto simp: handle_index_def handle_size_def)
  show h: "unat (fst (generateHandle b s)) = handle_base b + handle_index b s"
    using n(1) t start_harness(1) by (auto simp: generateHandle_def handle_base_def handle_index_def Let_def)
  show "handle_index b (snd (generateHandle b s)) = Suc (handle_index b s) mod handle_size b"
  proof (cases b)
    case True
    let ?c = "if ?t = 0 then START_TEST_HARNESS_HANDLE else ?t"
    have c: "unat ?c = 2 ^ 63 + handle_index b s" using True h by (simp add: generateHandle_def Let_def handle_base_def)
    have "testHarnessHandleCount (snd (generateHandle b s)) = ?c + 1"
      using True by (simp add: generateHandle_def Let_def)
    then have "handle_index b (snd (generateHandle b s)) = (if ?c + 1 = 0 then 0 else unat (?c + 1) - 2 ^ 63)"
      using True by (simp only: handle_index_def if_True)
    also have "\<dots> = (if handle_index b s = 2 ^ 63 - 1 then 0 else Suc (handle_index b s))"
      using unat_next [of ?c] unat_next_zero [of ?c] c i True by (simp only: handle_size_def if_True) auto
    finally show ?thesis using i True by (auto simp: handle_size_def mod_Suc)
  next
    case False
    let ?c = "if ?n = START_TEST_HARNESS_HANDLE then 1 else ?n"
    have c: "unat ?c = 1 + handle_index b s" using False h by (simp add: generateHandle_def Let_def handle_base_def)
    have "unat ?c < 2 ^ 64 - 1" using c i False by (simp add: handle_size_def)
    then have c1: "unat (?c + 1) = Suc (unat ?c)" using unat_next [of ?c] unat_next_zero [of ?c] by auto
    have "networkManagerPluginHandleCount (snd (generateHandle b s)) = ?c + 1"
      using False by (simp add: generateHandle_def Let_def)
    then have "handle_index b (snd (generateHandle b s)) =
        (if ?c + 1 = START_TEST_HARNESS_HANDLE then 0 else unat (?c + 1) - 1)"
      using False by (simp only: handle_index_def if_False)
    also have "\<dots> = (if Suc (handle_index b s) = 2 ^ 63 - 1 then 0 else Suc (handle_index b s))"
      using c c1 start_harness(1) by (auto simp: word_unat_eq_iff)
    finally show ?thesis using i False by (auto simp: handle_size_def mod_Suc)
  qed
qed

lemma handles_index:
  assumes "counters_ok s"
  shows "map unat (fst (handles n b s)) =
      map (\<lambda>k. handle_base b + (handle_index b s + k) mod handle_size b) [0..<n] \<and>
    counters_ok (snd (handles n b s)) \<and>
    (\<forall>h \<in> set (fst (handles n b s)). h \<noteq> NULL_RACE_HANDLE \<and> getNM h = (if b then TestHarness else PluginNM))"
  using assms
proof (induction n arbitrary: s)
  case (Suc n)
  let ?s = "snd (generateHandle b s)"
  note ok = generateHandle_ok [OF Suc.prems, of b]
  note ix = generateHandle_index [OF Suc.prems, of b]
  note IH = Suc.IH [OF ok(1)]
  have "map (\<lambda>k. handle_base b + (handle_index b ?s + k) mod handle_size b) [0..<n]
      = map (\<lambda>k. handle_base b + (handle_index b s + k) mod handle_size b) [1..<Suc n]"
    by (rule nth_equalityI) (simp_all add: ix(3) mod_add_left_eq del: upt_Suc)
  moreover have "map unat (fst (handles (Suc n) b s)) = (handle_base b + handle_index b s) # map unat (fst (handles n b ?s))"
    using ix(1) by (simp add: case_prod_beta)
  ultimately show ?case using IH ok ix(2)
    by (simp add: case_prod_beta upt_conv_Cons del: upt_Suc)
qed simp

text \<open>
  C32: Handles come from two halves of the 64 bits: those made for the network manager lead back to
  it, those made for the test harness lead back to the harness, none is the null handle, and no
  handle is given out twice before all of its half have been, counters that wrap around included.
\<close>

theorem sdk_handles:
  assumes "counters_ok s" "n \<le> 2 ^ 63 - 1"
  shows "distinct (fst (handles n b s)) \<and> counters_ok (snd (handles n b s)) \<and>
    (\<forall>h. h \<in> set (fst (handles n b s)) \<longrightarrow> h \<noteq> NULL_RACE_HANDLE \<and>
       getNM h = (if b then TestHarness else PluginNM))"
proof -
  have sz: "n \<le> handle_size b" using assms(2) by (simp add: handle_size_def)
  have "inj_on (\<lambda>k. handle_base b + (handle_index b s + k) mod handle_size b) {0..<n}"
  proof (rule inj_onI)
    fix i j assume i: "i \<in> {0..<n}" "j \<in> {0..<n}"
      and "handle_base b + (handle_index b s + i) mod handle_size b =
        handle_base b + (handle_index b s + j) mod handle_size b"
    then have "(handle_index b s + i) mod handle_size b = (handle_index b s + j) mod handle_size b" by simp
    then have "i mod handle_size b = j mod handle_size b" by (simp add: nat_mod_eq_iff) 
    then show "i = j" using i sz by simp
  qed
  then have "distinct (map unat (fst (handles n b s)))"
    using handles_index [OF assms(1), of n b] by (simp add: distinct_map)
  from this [THEN distinct_map [THEN iffD1], THEN conjunct1] show ?thesis using handles_index [OF assms(1), of n b] by blast
qed

section \<open>Packages\<close>

lemma erase_each_distinct: "distinct cs \<Longrightarrow> erase_each xs cs = filter (\<lambda>c. c \<notin> set xs) cs"
proof (induction xs arbitrary: cs)
  case (Cons x xs)
  then have "erase_each xs (remove1 x cs) = filter (\<lambda>c. c \<notin> set xs) (removeAll x cs)"
    by (simp add: distinct_remove1_removeAll distinct_removeAll)
  also have "\<dots> = filter (\<lambda>c. c \<notin> set (x # xs)) cs" by (induction cs) auto
  finally show ?case by simp
qed simp

lemma erase_each_twice: "distinct xs \<Longrightarrow> Suc 0 < count_list cs c \<Longrightarrow> c \<in> set (erase_each xs cs)"
proof (induction xs arbitrary: cs)
  case Nil
  then show ?case using count_list_0_iff [of cs c] by simp
next
  case (Cons x xs)
  have count: "count_list (remove1 x cs) c = (if c = x then count_list cs c - 1 else count_list cs c)"
    by (induction cs) auto
  show ?case
  proof (cases "c = x")
    case True
    then have "c \<notin> set xs" "c \<in> set (remove1 x cs)"
      using Cons.prems count count_list_0_iff [of "remove1 x cs" c] by auto
    then have "c \<in> set (erase_each xs (remove1 x cs))"
      by (induction xs "remove1 x cs" arbitrary: cs x rule: erase_each.induct) (simp_all add: set_remove1_eq)
    then show ?thesis by simp
  qed (use Cons count in auto)
qed

lemma erase_each_subset: "set (erase_each xs cs) \<subseteq> set cs"
proof (induction xs arbitrary: cs)
  case (Cons x xs)
  then show ?case using set_remove1_subset [of x cs] by fastforce
qed simp

lemma distinct_count: "distinct cs \<Longrightarrow> count_list cs c \<le> 1"
  by (induction cs) (auto simp: count_list_0_iff)


text \<open>
  A closed connection that is named twice is only taken out once: the package goes on, and the
  network manager is told that it came over a connection that is not open.
\<close>

theorem sdk_receive_duplicate:
  assumes "\<not> doesConnectionExist c (sdk_links s)" "Suc 0 < count_list cs c" "[] \<notin> set cs"
    "\<not> isShuttingDown s" "has_nm s" "getPackageType pkg = PKG_TYPE_NM"
    and ids: "\<forall>d \<in> set cs. \<exists>l. getLinkIDFromConnectionID d = Inr l"
  shows "\<exists>told. c \<in> set told \<and> sdk_calls (snd (receiveEncPkg E pkg cs s)) = sdk_calls s @
     [NmProcessEncPkg (getNM (fst (generateHandle False s))) (fst (generateHandle False s)) pkg told]"
proof -
  let ?closed = "remdups (filter (\<lambda>c. \<not> doesConnectionExist c (sdk_links s)) cs)"
  have "c \<in> set cs" using assms(2) count_list_0_iff [of cs c] by (metis less_nat_zero_code)
  have "\<not> distinct cs" using assms(2) distinct_count [of cs c] by auto
  then have "card (set cs) < length cs" using card_length [of cs] card_distinct [of cs] by linarith
  moreover have "length ?closed \<le> card (set cs)"
    by (simp add: length_remdups_card_conv) (rule card_mono; auto)
  ultimately have len: "length ?closed \<noteq> length cs" by simp
  let ?told = "erase_each ?closed cs"
  have "getPackageType pkg \<noteq> PKG_TYPE_SDK" "getPackageType pkg \<noteq> PKG_TYPE_TEST_HARNESS"
    using assms(6) by (simp_all add: assms(6))
  moreover have "\<not> list_ex (\<lambda>d. case getLinkForConnection d (sdk_links s) of Inl _ \<Rightarrow> True | Inr _ \<Rightarrow> False) ?told"
    using ids erase_each_subset [of ?closed cs] by (force simp: list_ex_iff getLinkForConnection_def)
  moreover have "sdk_calls (snd (generateHandle False s)) = sdk_calls s"
    by (simp add: generateHandle_def Let_def)
  ultimately have "sdk_calls (snd (receiveEncPkg E pkg cs s)) = sdk_calls s @
     [NmProcessEncPkg (getNM (fst (generateHandle False s))) (fst (generateHandle False s)) pkg ?told]"
    using assms(3-6) len by (simp add: receiveEncPkg_def Let_def case_prod_beta returning_def)
  moreover have "c \<in> set ?told" by (rule erase_each_twice) (use assms(2) in simp_all)
  ultimately show ?thesis by blast
qed

section \<open>Plugins that are shut down\<close>

text \<open>
  When a plugin is shut down its channels fail only if the plugin is named by the id of its
  wrapper among the plugins of the channel. The wrapper of a decomposed channel goes by the id of
  the channel, the plugins of the channel are the files of its components: after a fatal error of a
  decomposed channel nothing is cleaned up, and its channel stays as it was.
\<close>

theorem sdk_cleanup_composition:
  assumes "\<forall>ci \<in> set (channels (sdk_channels s)). gid \<notin> set (ci_plugins ci)"
  shows "cleanupChannels E gid s = s \<and> gid \<notin> commsWrappers (shutdownPlugin E gid s) \<and>
    sdk_channels (shutdownPlugin E gid s) = sdk_channels s \<and> sdk_links (shutdownPlugin E gid s) = sdk_links s \<and>
    sdk_calls (shutdownPlugin E gid s) = sdk_calls s @ [CommsShutdown gid]"
proof -
  have "getPluginChannelIds gid rc = []" if "channels rc = channels (sdk_channels s)" for rc
    using assms that by (auto simp: getPluginChannelIds_def filter_empty_conv)
  then show ?thesis by (simp add: cleanupChannels_def shutdownPlugin_def Let_def)
qed

section \<open>Runs\<close>

text \<open>
  An SDK with the network manager and one comms plugin, a channel \<open>c\<close> that is starting and has a link with an open
  connection, which holds a package in flight.
\<close>

definition demo_sdk :: race_sdk where
  "demo_sdk = (new_race_sdk (setLinkId ''c'' ''p/g/L'' demo_started))
     \<lparr>sdk_links := demo_links, has_nm := True, commsWrappers := {''p''}\<rparr>"

definition demo_sdk_env :: sdk_env where
  "demo_sdk_env = \<lparr>comms_answer = (\<lambda>_. sdk_response_of SDK_OK), nm_answer = (\<lambda>_. (True, 0)),
     bootstrap_link = (\<lambda>_. False), bootstrap_conn = (\<lambda>_. False), span_ids = (0, 0),
     voa_queue = (\<lambda>_ _ _ _. []), voa_active = False, is_client = False\<rparr>"

lemma demo_sdk_env_simps [simp]: "\<not> bootstrap_link demo_sdk_env h" "\<not> bootstrap_conn demo_sdk_env h"
  by (simp_all add: demo_sdk_env_def)

lemma demo_sdk_simps [simp]:
  "sdk_links demo_sdk = demo_links" "sdk_channels demo_sdk = setLinkId ''c'' ''p/g/L'' demo_started"
  "has_nm demo_sdk" "\<not> isShuttingDown demo_sdk" "commsWrappers demo_sdk = {''p''}"
  "channelsDisableRequested demo_sdk = {}" "channelsActivateRequested demo_sdk = {}" "sdk_calls demo_sdk = []"
  "networkManagerPluginHandleCount demo_sdk = 1" "testHarnessHandleCount demo_sdk = START_TEST_HARNESS_HANDLE"
  by (simp_all add: demo_sdk_def new_race_sdk_def)

lemma demo_counters: "counters_ok demo_sdk"
  by (simp add: counters_ok_def word_le_nat_alt start_harness(1))

lemma demo_sdk_channels: "channels_step\<^sup>*\<^sup>* (empty_channels True) (sdk_channels demo_sdk)"
  unfolding demo_sdk_simps by (rule rtranclp.rtrancl_into_rtrancl [OF demo_started_reach cs_setLink])

lemma demo_sdk_links: "links_step\<^sup>*\<^sup>* new_race_links (sdk_links demo_sdk)"
  using demo_links_reach by simp

lemma demo_connections:
  "getLinkConnections ''p/g/L'' demo_links = [''p/g/L/C'']" "getCachedPackageHandles ''p/g/L/C'' demo_links = [7]"
  "doesConnectionExist c demo_links \<longleftrightarrow> c = ''p/g/L/C''"
  by (simp_all add: demo_links_facts getLinkConnections_def getCachedPackageHandles_def connection_of_def
    doesConnectionExist_def)

lemma demo_channel_props:
  "channelStaticPropertiesEqual p p" "\<not> is_space CHR ''c''"
  "getLinksForChannel ''c'' (setLinkId ''c'' ''p/g/L'' demo_started) = [''p/g/L'']"
  by (simp_all add: channelStaticPropertiesEqual_def is_space_def getLinksForChannel_def setLinkId_def
    demo_started_eq empty_channels_def)

lemma demo_checks: "channel_status_checks ''c'' (sdk_getChannelProperties ''c'' demo_sdk) demo_sdk = None"
proof -
  have "channelGid (sdk_getChannelProperties ''c'' demo_sdk) = ''c''"
    by (simp add: sdk_getChannelProperties_def getChannelProperties_def info_of_def setLinkId_def
      demo_started_eq empty_channels_def)
  then show ?thesis by (simp add: channel_status_checks_def demo_channel_props)
qed

definition demo_available :: race_sdk where
  "demo_available = demo_sdk\<lparr>sdk_channels := setStatus ''c'' CHANNEL_AVAILABLE demo_started\<rparr>"

theorem sdk_ids_roundtrip_witness:
  "fst (generateLinkId ''p'' ''c'' demo_available) = ''p/c/LinkID_0'' \<and>
   getLinkIDFromConnectionID (fst (generateConnectionId ''p/c/LinkID_0'' demo_available)) = Inr ''p/c/LinkID_0''"
proof -
  have av: "isAvailable ''c'' (sdk_channels demo_available)"
    by (simp add: demo_available_def isAvailable_def info_of_def setStatus_def upd_properties_def
      upd_channel_def demo_started_eq empty_channels_def)
  have "char_of (48 :: nat) = CHR ''0''" by code_simp
  with av have "fst (generateLinkId ''p'' ''c'' demo_available) = ''p/c/LinkID_0''"
    by (simp add: generateLinkId_def int_digits_def demo_available_def demo_sdk_def new_race_sdk_def digits.simps)
  with sdk_ids_roundtrip [OF _ _ av, of "''p''" demo_available] show ?thesis by (simp add: no_slash_def)
qed

theorem sdk_connection_id_one_slash_witness: "getLinkIDFromConnectionID ''a/b'' = Inr ''a''"
  using sdk_connection_id_one_slash [of "''a''" "''b''"] by (simp add: no_slash_def)

lemma harness_ne: "(1 :: u64) \<noteq> START_TEST_HARNESS_HANDLE" "(2 :: u64) \<noteq> START_TEST_HARNESS_HANDLE"
  by (rule notI; drule arg_cong [where f = unat]; simp add: start_harness(1))+

theorem sdk_handles_witness:
  "fst (handles (Suc (Suc 0)) False demo_sdk) = [1, 2] \<and> getNM 2 = PluginNM"
proof -
  have "fst (handles (Suc (Suc 0)) False demo_sdk) = [1, 2]"
    by (simp add: generateHandle_def harness_ne Let_def)
  with sdk_handles [OF demo_counters, of "Suc (Suc 0)" False] show ?thesis by simp
qed

theorem sdk_link_destroyed_witness:
  "sdk_calls (snd (onLinkStatusChanged demo_sdk_env 0 ''p/g/L'' LINK_DESTROYED default_link_properties demo_sdk)) =
     [NmPackageStatus (getNM 7) 7 PACKAGE_FAILED_GENERIC,
      NmConnectionStatus (getNM 0) 0 ''p/g/L/C'' CONNECTION_CLOSED ''p/g/L'' default_link_properties,
      NmLinkStatus (getNM 0) 0 ''p/g/L'' LINK_DESTROYED default_link_properties]"
  using sdk_link_destroyed [OF demo_sdk_links, of "''p/g/L''" demo_sdk_env 0 default_link_properties]
  by (simp add: demo_connections)

theorem sdk_channel_down_witness:
  "getLinksForChannel ''c'' (sdk_channels (snd (onChannelStatusChanged demo_sdk_env 0 ''c'' CHANNEL_FAILED
     (sdk_getChannelProperties ''c'' demo_sdk) demo_sdk))) = []"
  using sdk_channel_down [OF demo_sdk_links demo_checks _ _ _ refl _ _ refl, of demo_sdk_env 0 CHANNEL_FAILED]
  by (simp add: demo_channel_props)

theorem sdk_channel_wiped_witness:
  "getChannelProperties ''c'' (sdk_channels (snd (onChannelStatusChanged demo_sdk_env 0 ''c'' CHANNEL_ENABLED
     default_channel_properties demo_sdk))) = Inr (default_channel_properties\<lparr>channelStatus := CHANNEL_ENABLED\<rparr>)"
proof -
  have i: "info_of (sdk_channels demo_sdk) ''c'' \<noteq> None" "info_of (sdk_channels demo_sdk) [] = None"
    by (simp_all add: info_of_def setLinkId_def demo_started_eq empty_channels_def)
  then obtain ci where ci: "info_of (sdk_channels demo_sdk) ''c'' = Some ci" by blast
  have "default_channel_properties\<lparr>channelStatus := CHANNEL_UNDEF\<rparr> = default_channel_properties"
    by (simp add: default_channel_properties_def)
  with sdk_channel_wiped [OF demo_sdk_channels ci i(2) _ _ _ _ refl, of CHANNEL_ENABLED demo_sdk_env 0 CHANNEL_UNDEF]
  show ?thesis by (simp add: demo_channel_props)
qed


theorem sdk_receive_duplicate_witness:
  "\<exists>told. ''x/y/L/C'' \<in> set told \<and> sdk_calls (snd (receiveEncPkg demo_sdk_env (setPackageType PKG_TYPE_NM (enc_pkg_new 0 0 []))
     [''x/y/L/C'', ''x/y/L/C''] demo_sdk)) =
     [NmProcessEncPkg (getNM (fst (generateHandle False demo_sdk))) (fst (generateHandle False demo_sdk))
       (setPackageType PKG_TYPE_NM (enc_pkg_new 0 0 [])) told]"
proof -
  have "getPackageType (setPackageType PKG_TYPE_NM (enc_pkg_new 0 0 [])) = PKG_TYPE_NM"
    by (simp add: getPackageType_def setPackageType_def enc_pkg_new_def)
  moreover have "getLinkIDFromConnectionID ''x/y/L/C'' = Inr ''x/y/L''"
    using link_of_conn [of "''x''" "''y''" "''L''" "''C''"] by (simp add: no_slash_def)
  ultimately show ?thesis
    using sdk_receive_duplicate [of "''x/y/L/C''" demo_sdk "[''x/y/L/C'', ''x/y/L/C'']"
      "setPackageType PKG_TYPE_NM (enc_pkg_new 0 0 [])" demo_sdk_env]
    by (simp add: demo_connections)
qed

theorem sdk_cleanup_composition_witness:
  "cleanupChannels demo_sdk_env ''c'' demo_sdk = demo_sdk \<and> getStatus ''c'' (sdk_channels demo_sdk) = Inr CHANNEL_STARTING"
proof -
  have "\<forall>ci \<in> set (channels (sdk_channels demo_sdk)). ''c'' \<notin> set (ci_plugins ci)"
    "getStatus ''c'' (sdk_channels demo_sdk) = Inr CHANNEL_STARTING"
    by (simp_all add: setLinkId_def demo_started_eq empty_channels_def getStatus_def info_of_def)
  with sdk_cleanup_composition [of demo_sdk "''c''" demo_sdk_env] show ?thesis by blast
qed

end
