(* ===== verification/Wrapper_Post.thy ===== *)
theory Wrapper_Post
  imports Handler
begin

text \<open>
  What the wrappers of the plugins share (CommsWrapper.cpp, NMWrapper.cpp in racesdk/core/source):
  a wrapper contains a work queue and posts its calls to it. A call of the wrapper returns, or passes an
  exception on, or waits for room in its queue (\<open>Blocks\<close>) until a later try.
\<close>

datatype ('a, 'w) call_result = Returned 'a 'w | Raised exn 'w | Blocks

text \<open>
  The work the handler makes for a job has the next identity; a post that finds its time stamp in the past calls the
  timeout callback instead and makes no work. \<open>store\<close> puts the handler and the posted jobs into the wrapper.
\<close>

definition posted_as ::
    "(handler \<Rightarrow> (work_id \<Rightarrow> 'j option) \<Rightarrow> 'w) \<Rightarrow> handler \<Rightarrow> (work_id \<Rightarrow> 'j option) \<Rightarrow> 'w \<Rightarrow>
     exn + handler \<times> post_result \<Rightarrow> 'j \<Rightarrow> (post_status \<times> u64, 'w) call_result" where
  "posted_as store s jobs w r job = (case r of
     Inl e \<Rightarrow> Raised e w
   | Inr (h, WouldBlock) \<Rightarrow> Blocks
   | Inr (h, Posted st n) \<Rightarrow> Returned (st, n)
       (store h (if next_wid h = next_wid s then jobs else jobs(next_wid s \<mapsto> job))))"

text \<open>\<open>std::out_of_range\<close> is caught around every post; any other exception leaves the call.\<close>

definition answered ::
    "(post_status \<times> u64, 'w) call_result \<Rightarrow> (post_status \<Rightarrow> u64 \<Rightarrow> 'w \<Rightarrow> 'a \<times> 'w) \<Rightarrow> ('w \<Rightarrow> 'a \<times> 'w) \<Rightarrow>
     ('a, 'w) call_result" where
  "answered r f missing = (case r of
     Returned (st, n) w \<Rightarrow> (case f st n w of (x, w1) \<Rightarrow> Returned x w1)
   | Raised e w \<Rightarrow> if e = OutOfRange then (case missing w of (x, w1) \<Rightarrow> Returned x w1) else Raised e w
   | Blocks \<Rightarrow> Blocks)"

text \<open>How full the queue is. Its limit is positive in every configuration; with 0 the quotient is no number in C++.\<close>

definition utilization_of :: "u64 \<Rightarrow> handler \<Rightarrow> real" where
  "utilization_of n s = real (unat n) / real (unat (max_queue_size s))"

end
