(* ===== verification/Comms_Wrapper.thy ===== *)
theory Comms_Wrapper
  imports Wrapper_Post Race_Sdk_Packages
begin

text \<open>
  The wrapper of a comms plugin: racesdk/core/source/CommsWrapper.h and CommsWrapper.cpp. Every
  call into the plugin becomes a job that is posted to the work queue of the wrapper (\<open>Handler\<close>) and
  run on its thread; the reports of the plugin go to the SDK (\<open>Race_Sdk\<close>). What the plugin answers
  and the clock are arguments. Logging and the numbers of the posts in the log are left out.

  \<open>cw_post_again\<close> is the next try of a call that waits for room in its queue.
\<close>

section \<open>The data\<close>

datatype wrapper_state = CONSTRUCTED | INITIALIZED | SHUTDOWN

text \<open>A call into the plugin, with what the lambda has captured. \<open>JWait\<close> is the empty callback.\<close>

datatype comms_job =
    JShutdown
  | JSendPackage u64 conn_id enc_pkg timestamp u64
  | JOpenConnection u64 link_type link_id string int
  | JCloseConnection u64 conn_id
  | JDeactivateChannel u64 string
  | JActivateChannel u64 string string
  | JDestroyLink u64 link_id
  | JCreateLink u64 string
  | JCreateBootstrapLink u64 string string
  | JLoadLinkAddress u64 string string
  | JLoadLinkAddresses u64 string "string list"
  | JCreateLinkFromAddress u64 string string
  | JServeFiles link_id string
  | JFlushChannel u64 string u64
  | JUserInput u64 bool string
  | JUserAcknowledgement u64
  | JWait

datatype plugin_answer = Responded plugin_response | Threw

record comms_wrapper =
  raceSdk :: race_sdk
  mThreadHandler :: handler
  posted_jobs :: "work_id \<rightharpoonup> comms_job"
  cw_state :: wrapper_state
  mId :: string
  mHandlePriorityTimeoutMap :: "u64 \<rightharpoonup> int \<times> timestamp"
  mConnectionSendTimeoutMap :: "conn_id \<rightharpoonup> timestamp"
  plugin_calls :: "comms_job list"
  shutdowns_asked :: nat

type_synonym 'a cw_result = "('a, comms_wrapper) call_result"

definition upd_sdk :: "(race_sdk \<Rightarrow> 'a \<times> race_sdk) \<Rightarrow> comms_wrapper \<Rightarrow> 'a \<times> comms_wrapper" where
  "upd_sdk f w = (case f (raceSdk w) of (r, s) \<Rightarrow> (r, w\<lparr>raceSdk := s\<rparr>))"

section \<open>Queues\<close>

text \<open>\<open>std::numeric_limits<int>::max()\<close> and \<open>min()\<close>.\<close>

definition new_comms_wrapper :: "string \<Rightarrow> u64 \<Rightarrow> u64 \<Rightarrow> race_sdk \<Rightarrow> exn + comms_wrapper" where
  "new_comms_wrapper i mq mt s = (case create_queue (new_handler mq mt) ''lifecycle'' (2 ^ 31 - 1) of
     Inl e \<Rightarrow> Inl e
   | Inr h \<Rightarrow> (case create_queue h ''wait queue'' (- (2 ^ 31)) of
       Inl e \<Rightarrow> Inl e
     | Inr h1 \<Rightarrow> Inr \<lparr>raceSdk = s, mThreadHandler = h1, posted_jobs = (\<lambda>_. None), cw_state = CONSTRUCTED,
         mId = i, mHandlePriorityTimeoutMap = (\<lambda>_. None), mConnectionSendTimeoutMap = (\<lambda>_. None),
         plugin_calls = [], shutdowns_asked = 0\<rparr>))"

definition createQueue :: "string \<Rightarrow> int \<Rightarrow> comms_wrapper \<Rightarrow> exn + comms_wrapper" where
  "createQueue name p w = (case create_queue (mThreadHandler w) name p of
     Inl e \<Rightarrow> Inl e | Inr h \<Rightarrow> Inr (w\<lparr>mThreadHandler := h\<rparr>))"

definition removeQueue :: "string \<Rightarrow> comms_wrapper \<Rightarrow> exn + comms_wrapper" where
  "removeQueue name w = (case remove_queue (mThreadHandler w) name of
     Inl e \<Rightarrow> Inl e | Inr h \<Rightarrow> Inr (w\<lparr>mThreadHandler := h\<rparr>))"

definition unblockQueue :: "conn_id \<Rightarrow> comms_wrapper \<Rightarrow> sdk_response \<times> comms_wrapper" where
  "unblockQueue c w = (sdk_response_of SDK_OK, w\<lparr>mThreadHandler := unblock_queue (mThreadHandler w) c\<rparr>)"

definition startHandler :: "comms_wrapper \<Rightarrow> exn + comms_wrapper" where
  "startHandler w = (case start (mThreadHandler w) of
     Inl e \<Rightarrow> Inl e | Inr h \<Rightarrow> Inr (w\<lparr>mThreadHandler := h\<rparr>))"

section \<open>Posting\<close>

definition cw_posted :: "exn + handler \<times> post_result \<Rightarrow> comms_job \<Rightarrow> comms_wrapper \<Rightarrow> (post_status \<times> u64) cw_result" where
  "cw_posted r job w = posted_as (\<lambda>h jobs. w\<lparr>mThreadHandler := h, posted_jobs := jobs\<rparr>)
     (mThreadHandler w) (posted_jobs w) w r job"

definition cw_post ::
    "string \<Rightarrow> u64 \<Rightarrow> bool \<Rightarrow> real \<Rightarrow> timestamp \<Rightarrow> bool \<Rightarrow> comms_job \<Rightarrow> comms_wrapper \<Rightarrow>
     (post_status \<times> u64) cw_result" where
  "cw_post name n blocking now ts cb job w =
     cw_posted (post (mThreadHandler w) name n blocking (At now) ts cb) job w"

definition cw_post_again ::
    "string \<Rightarrow> u64 \<Rightarrow> timestamp \<Rightarrow> bool \<Rightarrow> comms_job \<Rightarrow> comms_wrapper \<Rightarrow> (post_status \<times> u64) cw_result" where
  "cw_post_again name n ts cb job w = cw_posted (post_locked (mThreadHandler w) name n True ts cb) job w"

definition queue_utilization :: "u64 \<Rightarrow> comms_wrapper \<Rightarrow> real" where
  "queue_utilization n w = utilization_of n (mThreadHandler w)"

definition makeResponse :: "bool \<Rightarrow> u64 \<Rightarrow> u64 \<Rightarrow> comms_wrapper \<Rightarrow> sdk_response" where
  "makeResponse success n handle w =
     \<lparr>resp_status = (if success then SDK_OK
        else if queue_utilization n w = 0 then SDK_INVALID_ARGUMENT else SDK_QUEUE_FULL),
      queueUtilization = queue_utilization n w, resp_handle = handle\<rparr>"

text \<open>The common form of the requests: a job of size 0 without a timeout.\<close>

definition request ::
    "string \<Rightarrow> sdk_status \<Rightarrow> u64 \<Rightarrow> comms_job \<Rightarrow> bool \<Rightarrow> real \<Rightarrow> comms_wrapper \<Rightarrow> sdk_response cw_result" where
  "request name missing handle job blocking now w =
     (if cw_state w = SHUTDOWN then Returned (sdk_response_of SDK_SHUTTING_DOWN) w
      else answered (cw_post name 0 blocking now Infinity False job w)
        (\<lambda>st n w. (makeResponse (st = OK) n handle w, w)) (Pair (sdk_response_of missing)))"

section \<open>Requests\<close>

definition cw_closeConnection :: "u64 \<Rightarrow> conn_id \<Rightarrow> bool \<Rightarrow> real \<Rightarrow> comms_wrapper \<Rightarrow> sdk_response cw_result" where
  "cw_closeConnection handle c = request c SDK_INVALID_ARGUMENT handle (JCloseConnection handle c)"

definition cw_deactivateChannel :: "u64 \<Rightarrow> string \<Rightarrow> bool \<Rightarrow> real \<Rightarrow> comms_wrapper \<Rightarrow> sdk_response cw_result" where
  "cw_deactivateChannel handle gid = request [] SDK_INVALID handle (JDeactivateChannel handle gid)"

definition cw_destroyLink :: "u64 \<Rightarrow> link_id \<Rightarrow> bool \<Rightarrow> real \<Rightarrow> comms_wrapper \<Rightarrow> sdk_response cw_result" where
  "cw_destroyLink handle l = request [] SDK_INVALID handle (JDestroyLink handle l)"

definition cw_createLink :: "u64 \<Rightarrow> string \<Rightarrow> bool \<Rightarrow> real \<Rightarrow> comms_wrapper \<Rightarrow> sdk_response cw_result" where
  "cw_createLink handle gid = request [] SDK_INVALID handle (JCreateLink handle gid)"

definition cw_createBootstrapLink ::
    "u64 \<Rightarrow> string \<Rightarrow> string \<Rightarrow> bool \<Rightarrow> real \<Rightarrow> comms_wrapper \<Rightarrow> sdk_response cw_result" where
  "cw_createBootstrapLink handle gid passphrase =
     request [] SDK_INVALID handle (JCreateBootstrapLink handle gid passphrase)"

definition cw_loadLinkAddress ::
    "u64 \<Rightarrow> string \<Rightarrow> string \<Rightarrow> bool \<Rightarrow> real \<Rightarrow> comms_wrapper \<Rightarrow> sdk_response cw_result" where
  "cw_loadLinkAddress handle gid address = request [] SDK_INVALID handle (JLoadLinkAddress handle gid address)"

definition cw_loadLinkAddresses ::
    "u64 \<Rightarrow> string \<Rightarrow> string list \<Rightarrow> bool \<Rightarrow> real \<Rightarrow> comms_wrapper \<Rightarrow> sdk_response cw_result" where
  "cw_loadLinkAddresses handle gid addresses =
     request [] SDK_INVALID handle (JLoadLinkAddresses handle gid addresses)"

definition cw_createLinkFromAddress ::
    "u64 \<Rightarrow> string \<Rightarrow> string \<Rightarrow> bool \<Rightarrow> real \<Rightarrow> comms_wrapper \<Rightarrow> sdk_response cw_result" where
  "cw_createLinkFromAddress handle gid address =
     request [] SDK_INVALID handle (JCreateLinkFromAddress handle gid address)"

definition cw_serveFiles :: "link_id \<Rightarrow> string \<Rightarrow> bool \<Rightarrow> real \<Rightarrow> comms_wrapper \<Rightarrow> sdk_response cw_result" where
  "cw_serveFiles l path = request [] SDK_INVALID NULL_RACE_HANDLE (JServeFiles l path)"

definition cw_flushChannel ::
    "u64 \<Rightarrow> string \<Rightarrow> u64 \<Rightarrow> bool \<Rightarrow> real \<Rightarrow> comms_wrapper \<Rightarrow> sdk_response cw_result" where
  "cw_flushChannel handle gid batchId =
     request [] SDK_INVALID NULL_RACE_HANDLE (JFlushChannel handle gid batchId)"

text \<open>A channel whose activation cannot be posted has failed.\<close>

definition cw_activateChannel ::
    "sdk_env \<Rightarrow> u64 \<Rightarrow> string \<Rightarrow> string \<Rightarrow> bool \<Rightarrow> real \<Rightarrow> comms_wrapper \<Rightarrow> sdk_response cw_result" where
  "cw_activateChannel E handle gid role blocking now w =
     (if cw_state w = SHUTDOWN then Returned (sdk_response_of SDK_SHUTTING_DOWN) w
      else answered (cw_post [] 0 blocking now Infinity False (JActivateChannel handle gid role) w)
        (\<lambda>st n w. (makeResponse (st = OK) n handle w,
           if st = OK then w
           else snd (upd_sdk (onChannelStatusChanged E handle gid CHANNEL_FAILED
             (default_channel_properties\<lparr>channelStatus := CHANNEL_FAILED\<rparr>)) w)))
        (Pair (sdk_response_of SDK_INVALID)))"

text \<open>The priority and the timeout of the connection wait for it under the handle of the request.\<close>

definition RACE_UNLIMITED :: int where
  "RACE_UNLIMITED = - (2 ^ 31)"

definition cw_openConnection ::
    "u64 \<Rightarrow> link_type \<Rightarrow> link_id \<Rightarrow> string \<Rightarrow> int \<Rightarrow> int \<Rightarrow> bool \<Rightarrow> real \<Rightarrow> comms_wrapper \<Rightarrow>
     sdk_response cw_result" where
  "cw_openConnection handle ty l hints prio sendTimeout blocking now w =
     (if cw_state w = SHUTDOWN then Returned (sdk_response_of SDK_SHUTTING_DOWN) w
      else
        let w1 = w\<lparr>mHandlePriorityTimeoutMap := (mHandlePriorityTimeoutMap w)(handle \<mapsto>
              (prio, if sendTimeout = RACE_UNLIMITED then Infinity else At (real_of_int sendTimeout)))\<rparr>;
            forget = (\<lambda>w. w\<lparr>mHandlePriorityTimeoutMap := (mHandlePriorityTimeoutMap w)(handle := None)\<rparr>)
        in answered (cw_post [] 0 blocking now Infinity False (JOpenConnection handle ty l hints sendTimeout) w1)
             (\<lambda>st n w. (makeResponse (st = OK) n handle w, if st = OK then w else forget w))
             (\<lambda>w. (sdk_response_of SDK_INVALID, forget w)))"

text \<open>
  \<open>operator[]\<close> does not throw: a connection without a timeout gets one of 0. When the time of the
  package has passed already, the handler makes no work and calls the timeout callback at once.
\<close>

definition cw_sendPackage ::
    "sdk_env \<Rightarrow> u64 \<Rightarrow> conn_id \<Rightarrow> enc_pkg \<Rightarrow> u64 \<Rightarrow> bool \<Rightarrow> real \<Rightarrow> comms_wrapper \<Rightarrow> sdk_response cw_result" where
  "cw_sendPackage E handle c pkg batchId blocking now w =
     (if cw_state w = SHUTDOWN then Returned (sdk_response_of SDK_SHUTTING_DOWN) w
      else
        let sendTimeout = (case mConnectionSendTimeoutMap w c of None \<Rightarrow> At 0 | Some t \<Rightarrow> t);
            w1 = w\<lparr>mConnectionSendTimeoutMap := (mConnectionSendTimeoutMap w)(c \<mapsto> sendTimeout)\<rparr>;
            timeoutTimestamp = ts_add sendTimeout now;
            newPkg = setSpanId (snd (span_ids E)) (setTraceId (fst (span_ids E)) pkg);
            pkgSize = ucast (of_nat (getSize newPkg) :: u32)
        in answered (cw_post c pkgSize blocking now timeoutTimestamp True
               (JSendPackage handle c newPkg timeoutTimestamp batchId) w1)
             (\<lambda>st n w. (makeResponse (st = OK) n handle w,
                if timeoutTimestamp < At now
                then snd (upd_sdk (onPackageStatusChanged E handle PACKAGE_FAILED_TIMEOUT) w) else w))
             (Pair (sdk_response_of SDK_INVALID_ARGUMENT)))"

text \<open>The answers of the user are posted without a response of the SDK.\<close>

definition user_answer :: "comms_job \<Rightarrow> bool \<Rightarrow> real \<Rightarrow> comms_wrapper \<Rightarrow> (bool \<times> real) cw_result" where
  "user_answer job blocking now w =
     (if cw_state w = SHUTDOWN then Returned (False, 0) w
      else answered (cw_post [] 0 blocking now Infinity False job w)
        (\<lambda>st n w. ((st = OK, queue_utilization n w), w)) (Pair (False, 0)))"

definition cw_onUserInputReceived ::
    "u64 \<Rightarrow> bool \<Rightarrow> string \<Rightarrow> bool \<Rightarrow> real \<Rightarrow> comms_wrapper \<Rightarrow> (bool \<times> real) cw_result" where
  "cw_onUserInputReceived handle was_answered response = user_answer (JUserInput handle was_answered response)"

definition cw_onUserAcknowledgementReceived ::
    "u64 \<Rightarrow> bool \<Rightarrow> real \<Rightarrow> comms_wrapper \<Rightarrow> (bool \<times> real) cw_result" where
  "cw_onUserAcknowledgementReceived handle = user_answer (JUserAcknowledgement handle)"

definition waitForCallbacks :: "real \<Rightarrow> comms_wrapper \<Rightarrow> (post_status \<times> u64) cw_result" where
  "waitForCallbacks now = cw_post ''wait queue'' 0 False now Infinity False JWait"

text \<open>
  \<open>init\<close> runs on the thread of the caller and passes an exception of the plugin on. Shutting down
  posts with priority; waiting for the answer, or not, is left out.
\<close>

definition cw_init :: "plugin_answer \<Rightarrow> comms_wrapper \<Rightarrow> exn + bool \<times> comms_wrapper" where
  "cw_init answer w = (case answer of
     Threw \<Rightarrow> Inl RuntimeError
   | Responded r \<Rightarrow> Inr (r = PLUGIN_OK, w\<lparr>cw_state := INITIALIZED\<rparr>))"

definition cw_shutdown :: "real \<Rightarrow> comms_wrapper \<Rightarrow> bool cw_result" where
  "cw_shutdown now w =
     (if cw_state w \<noteq> INITIALIZED then Returned False (w\<lparr>cw_state := SHUTDOWN\<rparr>)
      else answered (cw_post ''lifecycle'' 0 False now Infinity False JShutdown (w\<lparr>cw_state := SHUTDOWN\<rparr>))
        (\<lambda>st n w. (st = OK, w)) (Pair False))"

section \<open>Reports of the plugin\<close>

text \<open>
  Most reports are passed on to the SDK as they are. When a connection opens its queue is made, with
  the priority kept for the handle; when it closes the queue is scheduled to be removed, unless the
  connection was never opened. Exceptions of the handler are caught.
\<close>

definition connection_queue_opened :: "u64 \<Rightarrow> conn_id \<Rightarrow> comms_wrapper \<Rightarrow> comms_wrapper option" where
  "connection_queue_opened handle c w = (case mHandlePriorityTimeoutMap w handle of
     None \<Rightarrow> None
   | Some (prio, sendTimeout) \<Rightarrow> (case createQueue c prio w of
       Inl _ \<Rightarrow> None
     | Inr w1 \<Rightarrow> Some (w1\<lparr>mConnectionSendTimeoutMap := (mConnectionSendTimeoutMap w1)(c \<mapsto> sendTimeout),
         mHandlePriorityTimeoutMap := (mHandlePriorityTimeoutMap w1)(handle := None)\<rparr>)))"

definition connection_queue_closed :: "u64 \<Rightarrow> conn_id \<Rightarrow> comms_wrapper \<Rightarrow> comms_wrapper" where
  "connection_queue_closed handle c w =
     (let w1 = (case mHandlePriorityTimeoutMap w handle of
            None \<Rightarrow> (case removeQueue c w of Inl _ \<Rightarrow> w | Inr w1 \<Rightarrow> w1)
          | Some _ \<Rightarrow> w\<lparr>mHandlePriorityTimeoutMap := (mHandlePriorityTimeoutMap w)(handle := None)\<rparr>)
      in w1\<lparr>mConnectionSendTimeoutMap := (mConnectionSendTimeoutMap w1)(c := None)\<rparr>)"

definition cw_onConnectionStatusChanged ::
    "sdk_env \<Rightarrow> u64 \<Rightarrow> conn_id \<Rightarrow> connection_status \<Rightarrow> link_properties \<Rightarrow> comms_wrapper \<Rightarrow>
     sdk_response \<times> comms_wrapper" where
  "cw_onConnectionStatusChanged E handle c status props w =
     (case (if status = CONNECTION_OPEN then connection_queue_opened handle c w
            else if status = CONNECTION_CLOSED then Some (connection_queue_closed handle c w)
            else Some w) of
        None \<Rightarrow> (sdk_response_of SDK_INVALID_ARGUMENT, w)
      | Some w1 \<Rightarrow> upd_sdk (onConnectionStatusChanged E handle c status props) w1)"

definition cw_onPackageStatusChanged ::
    "sdk_env \<Rightarrow> u64 \<Rightarrow> package_status \<Rightarrow> comms_wrapper \<Rightarrow> sdk_response \<times> comms_wrapper" where
  "cw_onPackageStatusChanged E handle status = upd_sdk (onPackageStatusChanged E handle status)"

definition cw_onLinkStatusChanged ::
    "sdk_env \<Rightarrow> u64 \<Rightarrow> link_id \<Rightarrow> link_status \<Rightarrow> link_properties \<Rightarrow> comms_wrapper \<Rightarrow> sdk_response \<times> comms_wrapper" where
  "cw_onLinkStatusChanged E handle l status props = upd_sdk (onLinkStatusChanged E handle l status props)"

definition cw_onChannelStatusChanged ::
    "sdk_env \<Rightarrow> u64 \<Rightarrow> string \<Rightarrow> channel_status \<Rightarrow> channel_properties \<Rightarrow> comms_wrapper \<Rightarrow>
     sdk_response \<times> comms_wrapper" where
  "cw_onChannelStatusChanged E handle gid status props = upd_sdk (onChannelStatusChanged E handle gid status props)"

definition cw_updateLinkProperties :: "link_id \<Rightarrow> link_properties \<Rightarrow> comms_wrapper \<Rightarrow> sdk_response \<times> comms_wrapper" where
  "cw_updateLinkProperties l props = upd_sdk (sdk_updateLinkProperties l props)"

definition cw_generateConnectionId :: "link_id \<Rightarrow> comms_wrapper \<Rightarrow> conn_id \<times> comms_wrapper" where
  "cw_generateConnectionId l = upd_sdk (generateConnectionId l)"

definition cw_generateLinkId :: "string \<Rightarrow> comms_wrapper \<Rightarrow> link_id \<times> comms_wrapper" where
  "cw_generateLinkId gid w = upd_sdk (generateLinkId (mId w) gid) w"

text \<open>The ids of the new span replace those of the package.\<close>

definition cw_receiveEncPkg ::
    "sdk_env \<Rightarrow> enc_pkg \<Rightarrow> conn_id list \<Rightarrow> comms_wrapper \<Rightarrow> (exn + sdk_response) \<times> comms_wrapper" where
  "cw_receiveEncPkg E pkg cs =
     upd_sdk (receiveEncPkg E (setSpanId (snd (span_ids E)) (setTraceId (fst (span_ids E)) pkg)) cs)"

text \<open>\<open>shutdownPluginAsync\<close> starts a thread of the SDK; here the request for it is counted.\<close>

definition shutdownPluginAsync :: "comms_wrapper \<Rightarrow> comms_wrapper" where
  "shutdownPluginAsync w = w\<lparr>shutdowns_asked := Suc (shutdowns_asked w)\<rparr>"

definition asyncError :: "plugin_response \<Rightarrow> comms_wrapper \<Rightarrow> sdk_response \<times> comms_wrapper" where
  "asyncError status w = (sdk_response_of SDK_OK, if status = PLUGIN_FATAL then shutdownPluginAsync w else w)"

section \<open>The callbacks\<close>

text \<open>
  A link that was asked for but not made before the shutdown is reported destroyed, under an id that
  is made for the purpose.
\<close>

definition link_failed :: "sdk_env \<Rightarrow> u64 \<Rightarrow> string \<Rightarrow> comms_wrapper \<Rightarrow> comms_wrapper" where
  "link_failed E handle gid w =
     (let (l, w1) = cw_generateLinkId gid w
      in snd (cw_onLinkStatusChanged E handle l LINK_DESTROYED default_link_properties w1))"

text \<open>What a job that comes up after the wrapper has been shut down reports instead of calling the plugin.\<close>

fun reported_at_shutdown :: "sdk_env \<Rightarrow> comms_job \<Rightarrow> comms_wrapper \<Rightarrow> comms_wrapper" where
  "reported_at_shutdown E (JSendPackage handle c pkg ts b) w =
     snd (cw_onPackageStatusChanged E handle PACKAGE_FAILED_GENERIC w)"
| "reported_at_shutdown E (JOpenConnection handle ty l hints t) w =
     (let (c, w1) = cw_generateConnectionId l w
      in snd (cw_onConnectionStatusChanged E handle c CONNECTION_CLOSED default_link_properties w1))"
| "reported_at_shutdown E (JCreateLink handle gid) w = link_failed E handle gid w"
| "reported_at_shutdown E (JCreateBootstrapLink handle gid p) w = link_failed E handle gid w"
| "reported_at_shutdown E (JLoadLinkAddress handle gid a) w = link_failed E handle gid w"
| "reported_at_shutdown E (JLoadLinkAddresses handle gid a) w = link_failed E handle gid w"
| "reported_at_shutdown E (JCreateLinkFromAddress handle gid a) w = link_failed E handle gid w"
| "reported_at_shutdown E _ w = w"

text \<open>
  The body of the lambdas. An exception of the plugin counts as a fatal response, which shuts the
  plugin down; only a package that could not be sent for now blocks its queue (\<open>None\<close>).
\<close>

definition run_job :: "sdk_env \<Rightarrow> plugin_answer \<Rightarrow> comms_job \<Rightarrow> comms_wrapper \<Rightarrow> bool option \<times> comms_wrapper" where
  "run_job E answer job w =
     (if job = JWait then (Some True, w)
      else if job \<noteq> JShutdown \<and> cw_state w = SHUTDOWN then (Some False, reported_at_shutdown E job w)
      else
        let response = (case answer of Responded r \<Rightarrow> r | Threw \<Rightarrow> PLUGIN_FATAL);
            w1 = w\<lparr>plugin_calls := plugin_calls w @ [job]\<rparr>
        in (case job of
              JShutdown \<Rightarrow> (Some (response = PLUGIN_OK), w1)
            | JSendPackage _ _ _ _ _ \<Rightarrow>
                if response = PLUGIN_TEMP_ERROR then (None, w1)
                else (Some True, if response = PLUGIN_FATAL then shutdownPluginAsync w1 else w1)
            | _ \<Rightarrow> (Some True, if response = PLUGIN_FATAL then shutdownPluginAsync w1 else w1)))"

text \<open>The work thread and the timeout thread of the handler with these callbacks.\<close>

definition cw_thread_end :: "sdk_env \<Rightarrow> plugin_answer \<Rightarrow> comms_wrapper \<Rightarrow> comms_wrapper" where
  "cw_thread_end E answer w = (case h_running (mThreadHandler w) of
     None \<Rightarrow> w
   | Some (p, i) \<Rightarrow> (case posted_jobs w i of
       None \<Rightarrow> w
     | Some job \<Rightarrow>
         let (res, w1) = run_job E answer job w
         in w1\<lparr>mThreadHandler := work_thread_end (res \<noteq> None) (mThreadHandler w1)\<rparr>))"

definition timed_out_callback :: "sdk_env \<Rightarrow> handler_event \<Rightarrow> comms_wrapper \<Rightarrow> comms_wrapper" where
  "timed_out_callback E ev w = (case ev of
     TimeoutCallback i \<Rightarrow> (case posted_jobs w i of
       Some (JSendPackage handle c pkg ts b) \<Rightarrow>
         snd (upd_sdk (onPackageStatusChanged E handle PACKAGE_FAILED_TIMEOUT) w)
     | _ \<Rightarrow> w)
   | _ \<Rightarrow> w)"

definition cw_timeout_thread :: "sdk_env \<Rightarrow> real \<Rightarrow> comms_wrapper \<Rightarrow> comms_wrapper" where
  "cw_timeout_thread E now w =
     (let h = fst (timeout_thread_step (At now) (mThreadHandler w))
      in fold (timed_out_callback E) (drop (length (h_log (mThreadHandler w))) (h_log h))
           (w\<lparr>mThreadHandler := h\<rparr>))"

end
