(* ===== verification/Handler_Client.thy ===== *)
theory Handler_Client
  imports Wrapper_Post Handler_Runs
begin

text \<open>
  The contract between a work queue and the wrapper of a plugin that contains it: when every step of the wrapper
  is made of steps of its handler and every work is a posted call, what is proved of \<open>Handler\<close> holds
  of the calls into the plugin. The wrappers of the comms plugins and of the network manager are instances.
\<close>

section \<open>The contract\<close>

definition all_posted :: "handler \<Rightarrow> (work_id \<Rightarrow> 'j option) \<Rightarrow> bool" where
  "all_posted s jobs \<longleftrightarrow> (\<forall>i < next_wid s. jobs i \<noteq> None)"

text \<open>\<open>inv\<close> is what the wrapper knows of its queues on top of the invariant of the handler.\<close>

locale handler_client =
  fixes hnd :: "'w \<Rightarrow> handler"
    and jobs :: "'w \<Rightarrow> work_id \<Rightarrow> 'j option"
    and op :: "'w \<Rightarrow> 'w \<Rightarrow> bool"
    and init :: "u64 \<Rightarrow> u64 \<Rightarrow> 'w \<Rightarrow> bool"
    and inv :: "'w \<Rightarrow> bool"
  assumes init_ok: "init mq mt w \<Longrightarrow>
      handler_step\<^sup>*\<^sup>* (new_handler mq mt) (hnd w) \<and> all_posted (hnd w) (jobs w) \<and> inv w"
    and op_sim: "op w t \<Longrightarrow> handler_step\<^sup>*\<^sup>* (new_handler mq mt) (hnd w) \<Longrightarrow> handler_small (hnd w) \<Longrightarrow>
      handler_small (hnd t) \<Longrightarrow> all_posted (hnd w) (jobs w) \<Longrightarrow> inv w \<Longrightarrow>
      handler_step\<^sup>*\<^sup>* (hnd w) (hnd t) \<and> all_posted (hnd t) (jobs t) \<and> inv t"
begin

lemma step_ok:
  assumes "op w t" "handler_small (hnd w)" "handler_small (hnd t)"
    and "handler_step\<^sup>*\<^sup>* (new_handler mq mt) (hnd w)" "all_posted (hnd w) (jobs w)" "inv w"
  shows "handler_step\<^sup>*\<^sup>* (new_handler mq mt) (hnd t) \<and> all_posted (hnd t) (jobs t) \<and> inv t"
  using op_sim [OF assms(1,4,2,3,5,6)] assms(4) by auto

lemma reachable:
  assumes "(\<lambda>w t. op w t \<and> handler_small (hnd w) \<and> handler_small (hnd t))\<^sup>*\<^sup>* w t" "init mq mt w"
  shows "handler_step\<^sup>*\<^sup>* (new_handler mq mt) (hnd t) \<and> all_posted (hnd t) (jobs t) \<and> inv t"
  using assms(1) by (induction rule: rtranclp_induct) (use init_ok [OF assms(2)] step_ok in blast)+

text \<open>Calls of one queue are finished in the order they were posted.\<close>

lemma in_order:
  assumes "(\<lambda>w t. op w t \<and> handler_small (hnd w) \<and> handler_small (hnd t))\<^sup>*\<^sup>* w t" "init mq mt w"
  shows "sorted_wrt (<) (completed (hnd t) q)"
  using reachable [OF assms] reachable_fifo_sorted by blast

end

section \<open>The steps a wrapper makes\<close>

lemma post_insert_next: "post_insert s q n ts cb = Inr t \<Longrightarrow> next_wid t = Suc (next_wid s)"
  unfolding post_insert_def Let_def by (drule raise_priority_frame) simp

lemma post_locked_next:
  "post_locked s name n b ts cb = Inr (t, r) \<Longrightarrow> next_wid t = next_wid s \<or> next_wid t = Suc (next_wid s)"
  by (auto simp: post_locked_def dest: post_insert_next split: sum.splits if_splits)

lemma post_next:
  "post s name n b now ts cb = Inr (t, r) \<Longrightarrow> next_wid t = next_wid s \<or> next_wid t = Suc (next_wid s)"
  by (auto simp: post_def dest: post_locked_next split: if_splits)

lemma create_queue_next: "create_queue s name p = Inr t \<Longrightarrow> next_wid t = next_wid s"
  by (auto simp: create_queue_def emplace_queue_def emplace_level_def Let_def split: if_splits)

lemma remove_queue_next: "remove_queue s name = Inr t \<Longrightarrow> next_wid t = next_wid s \<and> total_work t = total_work s \<and>
    next_qid t = next_qid s \<and> h_running t = h_running s \<and> h_state t = h_state s"
  by (auto simp: remove_queue_def Let_def dest!: raise_priority_frame split: if_splits option.splits)

lemma work_thread_end_next: "next_wid (work_thread_end b h) = next_wid h"
  by (simp add: work_thread_end_def pop_queue_internal_def uncount_work_def block_queue_internal_def Let_def
    split: option.split)

lemma thread_begin_next: "work_thread_begin h = Run k \<Longrightarrow> next_wid k = next_wid h"
  by (auto simp: work_thread_begin_def serve_queue_def get_next_queue_with_work_def
    split: if_splits option.splits sum.splits list.splits)

lemma posted_asE:
  assumes "posted_as store s jobs w r job = Returned x t"
  obtains h st n where "r = Inr (h, Posted st n)" "x = (st, n)"
    "t = store h (if next_wid h = next_wid s then jobs else jobs(next_wid s \<mapsto> job))"
  using assms by (auto simp: posted_as_def split: sum.splits post_result.splits)

lemma posted_as_Raised: "posted_as store s jobs w r job = Raised e t \<Longrightarrow> t = w"
  by (auto simp: posted_as_def split: sum.splits post_result.splits)

lemma all_posted_post:
  "all_posted s jobs \<Longrightarrow> next_wid h = next_wid s \<or> next_wid h = Suc (next_wid s) \<Longrightarrow>
   all_posted h (if next_wid h = next_wid s then jobs else jobs(next_wid s \<mapsto> job))"
  by (auto simp: all_posted_def less_Suc_eq)

lemma all_posted_cong: "all_posted s jobs \<Longrightarrow> next_wid h = next_wid s \<Longrightarrow> all_posted h jobs"
  by (simp add: all_posted_def)

text \<open>A new wrapper has made its queues and nothing else.\<close>

lemma create_queues_reach:
  assumes "create_queue s name p = Inr t" "handler_step\<^sup>*\<^sup>* (new_handler mq mt) s" "next_qid s < 2 ^ 30"
  shows "handler_step\<^sup>*\<^sup>* (new_handler mq mt) t \<and> next_qid t = Suc (next_qid s) \<and> next_wid t = next_wid s"
proof -
  have n: "total_work t = total_work s" "next_qid t = Suc (next_qid s)" "next_wid t = next_wid s"
    using assms(1) by (auto simp: create_queue_def emplace_queue_def emplace_level_def Let_def split: if_splits)
  moreover have "handler_small s" using reachable_small [OF assms(2)] .
  ultimately have "handler_step s t" using assms(1,3) by (simp add: handler_step_def handler_small_def op_create)
  with n assms(2) show ?thesis by auto
qed

text \<open>What the worker runs is the front of a queue, and no queue with work has a higher priority.\<close>

lemma run_front:
  assumes "handler_ok s" "handler_small s" "worker_idle s" "work_thread_begin s = Run t" "h_running t = Some (p, i)"
  obtains q ws where "q \<in> live_queues s" "q_queue (h_queues s q) = i # ws" "i < next_wid s" "w_queue (h_works s i) = q"
    "\<And>r. r \<in> live_queues s \<Longrightarrow> queue_eligible (h_queues s r) \<Longrightarrow>
       q_priority (h_queues s r) \<le> q_priority (h_queues s q)"
proof (rule work_run_cases [OF assms(1-4)])
  fix q w ws s1
  assume t: "t = s1\<lparr>h_works := (h_works s1)(w := (h_works s1 w)\<lparr>w_running := True\<rparr>),
            h_running := Some (q_priority (h_queues s q), w)\<rparr>"
    and q: "q \<in> live_queues s" "q_queue (h_queues s q) = w # ws"
    and top: "\<And>r. r \<in> live_queues s \<Longrightarrow> queue_eligible (h_queues s r) \<Longrightarrow>
       q_priority (h_queues s r) \<le> q_priority (h_queues s q)"
  have w: "w = i" using t assms(5) by simp
  have "wf_works s" using assms(1) by (simp add: handler_ok_def handler_core_def)
  then have "w < next_wid s \<and> w_queue (h_works s w) = q" using q by (simp add: wf_works_def)
  then show thesis using that [of q ws] q top w by simp
qed

end
