(* ===== verification/Comms_Wrapper_Props.thy ===== *)
theory Comms_Wrapper_Props
  imports Comms_Wrapper Handler_Client Race_Sdk_Props
begin

text \<open>
  The wrapper of a comms plugin, continued: it uses its work queue as the work queue demands, so
  that what is proved of \<open>Handler\<close> holds of the calls into the plugin; what a shutdown does to
  the calls that are still waiting; and where the wrapper runs into the defects of its parts.
\<close>

section \<open>Steps of the wrapper are steps of its handler\<close>

definition jobs_ok :: "comms_wrapper \<Rightarrow> bool" where
  "jobs_ok w \<longleftrightarrow> all_posted (mThreadHandler w) (posted_jobs w)"

definition moves :: "comms_wrapper \<Rightarrow> comms_wrapper \<Rightarrow> bool" where
  "moves w t \<longleftrightarrow> (mThreadHandler t = mThreadHandler w \<or> handler_op (mThreadHandler w) (mThreadHandler t)) \<and>
     (jobs_ok w \<longrightarrow> jobs_ok t)"

lemma moves_same: "mThreadHandler t = mThreadHandler w \<Longrightarrow> posted_jobs t = posted_jobs w \<Longrightarrow> moves w t"
  by (auto simp: moves_def jobs_ok_def intro: all_posted_cong)

lemma moves_cong:
  assumes "moves w t" "mThreadHandler w = mThreadHandler w1" "posted_jobs w = posted_jobs w1"
    "mThreadHandler t = mThreadHandler t1" "posted_jobs t = posted_jobs t1"
  shows "moves w1 t1"
  using assms by (auto simp: moves_def jobs_ok_def intro: all_posted_cong)

lemma moves_handler:
  "handler_op (mThreadHandler w) h \<Longrightarrow> next_wid h = next_wid (mThreadHandler w) \<Longrightarrow> moves w (w\<lparr>mThreadHandler := h\<rparr>)"
  by (auto simp: moves_def jobs_ok_def intro: all_posted_cong)

lemma cw_posted_moves:
  assumes "cw_posted r job w = Returned x t"
    and "\<And>h y. r = Inr (h, y) \<Longrightarrow> handler_op (mThreadHandler w) h \<and>
      (next_wid h = next_wid (mThreadHandler w) \<or> next_wid h = Suc (next_wid (mThreadHandler w)))"
  shows "moves w t"
  using assms(1) unfolding cw_posted_def
  by (elim posted_asE) (auto simp: moves_def jobs_ok_def all_posted_def less_Suc_eq dest!: assms(2))

lemma cw_post_moves: "cw_post name n b now ts cb job w = Returned x t \<Longrightarrow> moves w t"
  unfolding cw_post_def by (erule cw_posted_moves) (auto intro: op_post dest: post_next)

lemma cw_post_again_moves:
  "cw_post_again name n ts cb job w = Returned x t \<Longrightarrow> n \<le> max_queue_size (mThreadHandler w) \<Longrightarrow>
   n \<le> max_total_size (mThreadHandler w) \<Longrightarrow> moves w t"
  unfolding cw_post_again_def by (erule cw_posted_moves) (auto intro: op_post_again dest: post_locked_next)

lemma cw_post_Raised: "cw_post name n b now ts cb job w = Raised e t \<Longrightarrow> t = w"
  unfolding cw_post_def cw_posted_def by (rule posted_as_Raised)

text \<open>What follows the post keeps the handler and the jobs.\<close>

lemma answered_moves:
  assumes "answered (cw_post name n b now ts cb job w) f missing = Returned x t"
    and f: "\<And>st n v. mThreadHandler (snd (f st n v)) = mThreadHandler v \<and> posted_jobs (snd (f st n v)) = posted_jobs v"
    and m: "mThreadHandler (snd (missing w)) = mThreadHandler w \<and> posted_jobs (snd (missing w)) = posted_jobs w"
  shows "moves w t"
proof (cases "cw_post name n b now ts cb job w")
  case (Returned y v)
  have "moves w v" using cw_post_moves Returned by blast
  moreover obtain st k where "f st k v = (x, t)"
    using assms(1) Returned by (auto simp: answered_def split: prod.splits)
  ultimately show ?thesis using f [of st k v] by (auto intro: moves_cong [of w v])
next
  case (Raised e v)
  then have "v = w" by (rule cw_post_Raised)
  with assms(1) Raised have "missing w = (x, t)" by (auto simp: answered_def split: if_splits prod.splits)
  with m show ?thesis by (auto intro: moves_same)
next
  case Blocks
  then show ?thesis using assms(1) by (simp add: answered_def)
qed

lemma request_moves: "request name m handle job b now w = Returned x t \<Longrightarrow> moves w t"
  by (auto simp: request_def split: if_splits intro: moves_same answered_moves)

lemma upd_sdk_fields [simp]:
  "mThreadHandler (snd (upd_sdk f w)) = mThreadHandler w" "posted_jobs (snd (upd_sdk f w)) = posted_jobs w"
  "cw_state (snd (upd_sdk f w)) = cw_state w" "plugin_calls (snd (upd_sdk f w)) = plugin_calls w"
  "mHandlePriorityTimeoutMap (snd (upd_sdk f w)) = mHandlePriorityTimeoutMap w"
  "raceSdk (snd (upd_sdk f w)) = snd (f (raceSdk w))" "fst (upd_sdk f w) = fst (f (raceSdk w))"
  by (simp_all add: upd_sdk_def split: prod.split)

lemma open_moves: "cw_openConnection handle ty l hints p st b now w = Returned x t \<Longrightarrow> moves w t"
  unfolding cw_openConnection_def Let_def
  by (cases "cw_state w = SHUTDOWN")
    (auto intro: moves_same moves_cong [OF answered_moves])

lemma send_moves: "cw_sendPackage E handle c pkg batch b now w = Returned x t \<Longrightarrow> moves w t"
  unfolding cw_sendPackage_def Let_def
  by (cases "cw_state w = SHUTDOWN")
    (auto intro: moves_same moves_cong [OF answered_moves])

lemma activate_moves: "cw_activateChannel E handle gid role b now w = Returned x t \<Longrightarrow> moves w t"
  unfolding cw_activateChannel_def
  by (auto split: if_splits intro: moves_same answered_moves)

lemma user_moves: "user_answer job b now w = Returned x t \<Longrightarrow> moves w t"
  by (auto simp: user_answer_def split: if_splits intro: moves_same answered_moves)

lemma shutdown_moves: "cw_shutdown now w = Returned x t \<Longrightarrow> moves w t"
  unfolding cw_shutdown_def
  by (auto split: if_splits intro: moves_same moves_cong [OF answered_moves])

text \<open>The queue of a connection may be removed when it is not being removed already.\<close>

definition removable :: "comms_wrapper \<Rightarrow> conn_id \<Rightarrow> bool" where
  "removable w c \<longleftrightarrow> (\<forall>q. queue_map (mThreadHandler w) c = Some q \<longrightarrow> \<not> q_marked (h_queues (mThreadHandler w) q))"

lemma connection_moves:
  assumes "removable w c"
  shows "moves w (snd (cw_onConnectionStatusChanged E handle c st props w))"
proof -
  have "moves w t" if "connection_queue_opened handle c w = Some t" for t
  proof -
    from that obtain p d v where v: "createQueue c p w = Inr v" "mThreadHandler t = mThreadHandler v" "posted_jobs t = posted_jobs v"
      by (auto simp: connection_queue_opened_def split: option.splits sum.splits)
    then obtain h where "create_queue (mThreadHandler w) c p = Inr h" "v = w\<lparr>mThreadHandler := h\<rparr>"
      by (auto simp: createQueue_def split: sum.splits)
    then have "moves w v" by (auto intro: moves_handler op_create create_queue_next)
    with v show ?thesis by (auto intro: moves_cong [of w v])
  qed
  moreover have "moves w (connection_queue_closed handle c w)"
  proof (cases "\<exists>v. mHandlePriorityTimeoutMap w handle = None \<and> removeQueue c w = Inr v")
    case True
    then obtain v h where v: "mHandlePriorityTimeoutMap w handle = None" "removeQueue c w = Inr v"
      "remove_queue (mThreadHandler w) c = Inr h" "v = w\<lparr>mThreadHandler := h\<rparr>"
      by (auto simp: removeQueue_def split: sum.splits)
    then have "moves w v" using assms by (auto simp: removable_def intro: moves_handler op_remove dest: remove_queue_next)
    with v show ?thesis by (auto simp: connection_queue_closed_def Let_def intro: moves_cong [of w v])
  qed (auto simp: connection_queue_closed_def Let_def intro: moves_same split: option.split sum.split)
  ultimately show ?thesis
    by (auto simp: cw_onConnectionStatusChanged_def intro: moves_same moves_cong [of w _ w] split: option.split)
qed

text \<open>A callback touches the handler only by removing a queue.\<close>

lemma connection_closed_handler:
  "posted_jobs (snd (cw_onConnectionStatusChanged E handle c CONNECTION_CLOSED props w)) = posted_jobs w \<and>
   (mThreadHandler (snd (cw_onConnectionStatusChanged E handle c CONNECTION_CLOSED props w)) = mThreadHandler w \<or>
    remove_queue (mThreadHandler w) c =
      Inr (mThreadHandler (snd (cw_onConnectionStatusChanged E handle c CONNECTION_CLOSED props w))))"
  by (auto simp: cw_onConnectionStatusChanged_def connection_queue_closed_def removeQueue_def Let_def
    split: option.split sum.split)

lemma link_failed_fields [simp]:
  "mThreadHandler (link_failed E handle gid w) = mThreadHandler w"
  "posted_jobs (link_failed E handle gid w) = posted_jobs w"
  by (simp_all add: link_failed_def cw_generateLinkId_def cw_onLinkStatusChanged_def case_prod_beta)

lemma reported_handler:
  "posted_jobs (reported_at_shutdown E job w) = posted_jobs w \<and>
   (mThreadHandler (reported_at_shutdown E job w) = mThreadHandler w \<or>
    (\<exists>l. remove_queue (mThreadHandler w) (fst (generateConnectionId l (raceSdk w))) =
      Inr (mThreadHandler (reported_at_shutdown E job w))))"
proof (cases job)
  case (JOpenConnection handle ty l hints t)
  then show ?thesis
    using connection_closed_handler [of E handle "fst (generateConnectionId l (raceSdk w))" default_link_properties
        "snd (cw_generateConnectionId l w)"]
    by (auto simp: case_prod_beta cw_generateConnectionId_def)
qed (simp_all add: cw_onPackageStatusChanged_def)

lemma run_job_handler:
  assumes "run_job E answer job w = (res, v)"
  shows "posted_jobs v = posted_jobs w \<and> (mThreadHandler v = mThreadHandler w \<or>
    (\<exists>l. remove_queue (mThreadHandler w) (fst (generateConnectionId l (raceSdk w))) = Inr (mThreadHandler v)))"
  using assms reported_handler [of E job w]
  by (cases job) (auto simp: run_job_def Let_def shutdownPluginAsync_def split: if_splits)

text \<open>The timeout thread.\<close>

lemma timed_out_fields:
  "mThreadHandler (fold (timed_out_callback E) evs w) = mThreadHandler w \<and> posted_jobs (fold (timed_out_callback E) evs w) = posted_jobs w"
proof (induction evs arbitrary: w)
  case (Cons ev evs)
  have "mThreadHandler (timed_out_callback E ev w) = mThreadHandler w \<and> posted_jobs (timed_out_callback E ev w) = posted_jobs w"
    by (auto simp: timed_out_callback_def split: handler_event.split option.split comms_job.split)
  with Cons show ?case by simp
qed simp

lemma timeout_moves:
  assumes "h_state (mThreadHandler w) = STARTED"
  shows "moves w (cw_timeout_thread E now w)"
proof -
  have s: "timeout_thread_step (At now) (mThreadHandler w) =
      (move_timed_out (At now) (timeoutQueue (mThreadHandler w)) (mThreadHandler w), True)"
    using assms by (simp add: timeout_thread_step_def)
  then have "handler_op (mThreadHandler w) (move_timed_out (At now) (timeoutQueue (mThreadHandler w)) (mThreadHandler w))"
    by (rule op_timeout)
  then have "moves w (w\<lparr>mThreadHandler := move_timed_out (At now) (timeoutQueue (mThreadHandler w)) (mThreadHandler w)\<rparr>)"
    by (rule moves_handler) (simp add: move_timed_out_fields)
  then show ?thesis by (rule moves_cong) (simp_all add: cw_timeout_thread_def s timed_out_fields Let_def)
qed

text \<open>
  The steps of a wrapper: requests of the SDK, reports of the plugin and of others to the SDK, and the threads
  of the handler. A plugin is initialised once. Two conditions on the plugin are those of \<open>handler_op\<close>: a connection is reported
  closed once, and packages of a blocked queue do not time out.
\<close>

inductive cw_op :: "comms_wrapper \<Rightarrow> comms_wrapper \<Rightarrow> bool" where
  co_close: "cw_closeConnection handle c b now w = Returned r t \<Longrightarrow> cw_op w t"
| co_deactivate: "cw_deactivateChannel handle gid b now w = Returned r t \<Longrightarrow> cw_op w t"
| co_destroy: "cw_destroyLink handle l b now w = Returned r t \<Longrightarrow> cw_op w t"
| co_create: "cw_createLink handle gid b now w = Returned r t \<Longrightarrow> cw_op w t"
| co_bootstrap: "cw_createBootstrapLink handle gid phrase b now w = Returned r t \<Longrightarrow> cw_op w t"
| co_load: "cw_loadLinkAddress handle gid a b now w = Returned r t \<Longrightarrow> cw_op w t"
| co_loads: "cw_loadLinkAddresses handle gid as b now w = Returned r t \<Longrightarrow> cw_op w t"
| co_from: "cw_createLinkFromAddress handle gid a b now w = Returned r t \<Longrightarrow> cw_op w t"
| co_serve: "cw_serveFiles l path b now w = Returned r t \<Longrightarrow> cw_op w t"
| co_flush: "cw_flushChannel handle gid batch b now w = Returned r t \<Longrightarrow> cw_op w t"
| co_activate: "cw_activateChannel E handle gid role b now w = Returned r t \<Longrightarrow> cw_op w t"
| co_open: "cw_openConnection handle ty l hints p st b now w = Returned r t \<Longrightarrow> cw_op w t"
| co_send: "cw_sendPackage E handle c pkg batch b now w = Returned r t \<Longrightarrow> cw_op w t"
| co_input: "cw_onUserInputReceived handle yes response b now w = Returned r2 t \<Longrightarrow> cw_op w t"
| co_ack: "cw_onUserAcknowledgementReceived handle b now w = Returned r2 t \<Longrightarrow> cw_op w t"
| co_wait: "waitForCallbacks now w = Returned r3 t \<Longrightarrow> cw_op w t"
| co_again: "cw_post_again name n ts cb job w = Returned r3 t \<Longrightarrow> n \<le> max_queue_size (mThreadHandler w) \<Longrightarrow>
    n \<le> max_total_size (mThreadHandler w) \<Longrightarrow> cw_op w t"
| co_init: "cw_init answer w = Inr (ok, t) \<Longrightarrow> cw_state w = CONSTRUCTED \<Longrightarrow> cw_op w t"
| co_shutdown: "cw_shutdown now w = Returned ok t \<Longrightarrow> cw_op w t"
| co_connection: "removable w c \<Longrightarrow> cw_op w (snd (cw_onConnectionStatusChanged E handle c st props w))"
| co_sdk: "cw_op w (w\<lparr>raceSdk := s\<rparr>)"
| co_async: "cw_op w (snd (asyncError response w))"
| co_unblock: "cw_op w (snd (unblockQueue c w))"
| co_start: "startHandler w = Inr t \<Longrightarrow> cw_op w t"
| co_stop: "cw_op w (w\<lparr>mThreadHandler := fst (stop_begin (mThreadHandler w))\<rparr>)"
| co_timeout: "h_state (mThreadHandler w) = STARTED \<Longrightarrow> cw_op w (cw_timeout_thread E now w)"
| co_next: "work_thread_begin (mThreadHandler w) = Next h \<Longrightarrow> worker_idle (mThreadHandler w) \<Longrightarrow>
    (\<And>i. i \<in> set (timedOutQueue (mThreadHandler w)) \<Longrightarrow>
       \<not> q_blocked (h_queues (mThreadHandler w) (w_queue (h_works (mThreadHandler w) i)))) \<Longrightarrow>
    cw_op w (w\<lparr>mThreadHandler := h\<rparr>)"
| co_run: "work_thread_begin (mThreadHandler w) = Run h \<Longrightarrow> worker_idle (mThreadHandler w) \<Longrightarrow>
    cw_op w (w\<lparr>mThreadHandler := h\<rparr>)"
| co_end: "h_running (mThreadHandler w) \<noteq> None \<Longrightarrow>
    (\<And>l. removable w (fst (generateConnectionId l (raceSdk w)))) \<Longrightarrow> cw_op w (cw_thread_end E answer w)"

definition cw_step :: "comms_wrapper \<Rightarrow> comms_wrapper \<Rightarrow> bool" where
  "cw_step w t \<longleftrightarrow> cw_op w t \<and> handler_small (mThreadHandler w) \<and> handler_small (mThreadHandler t)"

lemma moves_step:
  "moves w t \<Longrightarrow> handler_small (mThreadHandler w) \<Longrightarrow> handler_small (mThreadHandler t) \<Longrightarrow>
   handler_step\<^sup>*\<^sup>* (mThreadHandler w) (mThreadHandler t)"
  by (auto simp: moves_def handler_step_def)

lemma thread_end_sim:
  assumes run: "h_running (mThreadHandler w) \<noteq> None"
    and rem: "\<And>l. removable w (fst (generateConnectionId l (raceSdk w)))"
    and small: "handler_small (mThreadHandler w)" "handler_small (mThreadHandler (cw_thread_end E answer w))"
  shows "handler_step\<^sup>*\<^sup>* (mThreadHandler w) (mThreadHandler (cw_thread_end E answer w)) \<and>
    (jobs_ok w \<longrightarrow> jobs_ok (cw_thread_end E answer w))"
proof -
  obtain p i where r: "h_running (mThreadHandler w) = Some (p, i)" using run by auto
  show ?thesis
  proof (cases "posted_jobs w i")
    case None
    then show ?thesis using r by (simp add: cw_thread_end_def)
  next
    case (Some job)
    obtain res v where v: "run_job E answer job w = (res, v)" by (cases "run_job E answer job w")
    have t: "cw_thread_end E answer w = v\<lparr>mThreadHandler := work_thread_end (res \<noteq> None) (mThreadHandler v)\<rparr>"
      using r Some v by (simp add: cw_thread_end_def)
    note h = run_job_handler [OF v]
    have "handler_step\<^sup>*\<^sup>* (mThreadHandler w) (mThreadHandler v) \<and> h_running (mThreadHandler v) \<noteq> None \<and>
        handler_small (mThreadHandler v) \<and> next_wid (mThreadHandler v) = next_wid (mThreadHandler w)"
    proof (cases "mThreadHandler v = mThreadHandler w")
      case False
      then obtain l where l: "remove_queue (mThreadHandler w) (fst (generateConnectionId l (raceSdk w))) = Inr (mThreadHandler v)"
        using h by blast
      have "handler_op (mThreadHandler w) (mThreadHandler v)"
        using rem [of l] by (intro op_remove [OF l]) (simp add: removable_def)
      moreover have "handler_small (mThreadHandler v)"
        using remove_queue_next [OF l] small(1) by (simp add: handler_small_def)
      ultimately show ?thesis using remove_queue_next [OF l] small(1) run by (simp add: handler_step_def r_into_rtranclp)
    qed (use small run in simp)
    moreover from this have "handler_step (mThreadHandler v) (work_thread_end (res \<noteq> None) (mThreadHandler v))"
      using small(2) by (simp add: handler_step_def op_finish t)
    ultimately show ?thesis using h
      by (auto simp: t jobs_ok_def all_posted_def work_thread_end_next intro: rtranclp.rtrancl_into_rtrancl)
  qed
qed

lemma cw_op_sim:
  assumes op: "cw_op w t" and reach: "handler_step\<^sup>*\<^sup>* (new_handler mq mt) (mThreadHandler w)"
    and small: "handler_small (mThreadHandler w)" "handler_small (mThreadHandler t)"
  shows "handler_step\<^sup>*\<^sup>* (mThreadHandler w) (mThreadHandler t) \<and> (jobs_ok w \<longrightarrow> jobs_ok t)"
proof -
  note ok = reachable_ok [OF reach]
  have M: ?thesis if "moves w t" using moves_step [OF that small] that by (simp add: moves_def)
  from op show ?thesis
  proof cases
    case (co_next h)
    then have "next_wid h = next_wid (mThreadHandler w)" using work_next_fields [OF ok small(1)] by blast
    then show ?thesis using co_next M op_next moves_handler by blast
  next
    case (co_run h)
    then show ?thesis using M op_run thread_begin_next moves_handler by blast
  next
    case co_end
    then show ?thesis using thread_end_sim small by simp
  next
    case (co_start)
    then obtain h where h: "start (mThreadHandler w) = Inr h" "t = w\<lparr>mThreadHandler := h\<rparr>"
      by (auto simp: startHandler_def split: sum.splits)
    then have "next_wid h = next_wid (mThreadHandler w)" by (auto simp: start_def split: if_splits)
    then show ?thesis using h M op_start moves_handler by blast
  next
    case co_stop
    have "next_wid (fst (stop_begin (mThreadHandler w))) = next_wid (mThreadHandler w)" by (simp add: stop_begin_def)
    then show ?thesis using co_stop M moves_handler op_stop by (metis prod.collapse)
  next
    case (co_unblock c)
    have "moves w (w\<lparr>mThreadHandler := unblock_queue (mThreadHandler w) c\<rparr>)"
      by (rule moves_handler [OF op_unblock]) (simp add: unblock_queue_def)
    then show ?thesis using co_unblock M by (simp add: unblockQueue_def)
  next
    case co_sdk
    then show ?thesis by (intro M moves_same) simp_all
  next
    case co_async
    then show ?thesis by (intro M moves_same) (simp_all add: asyncError_def shutdownPluginAsync_def)
  next
    case co_init
    then show ?thesis by (intro M moves_same) (auto simp: cw_init_def split: plugin_answer.splits)
  qed (use M in \<open>auto simp: cw_closeConnection_def cw_deactivateChannel_def cw_destroyLink_def cw_createLink_def
      cw_createBootstrapLink_def cw_loadLinkAddress_def cw_loadLinkAddresses_def cw_createLinkFromAddress_def
      cw_serveFiles_def cw_flushChannel_def cw_onUserInputReceived_def cw_onUserAcknowledgementReceived_def
      waitForCallbacks_def
      intro: moves_same request_moves activate_moves open_moves send_moves user_moves cw_post_moves
        cw_post_again_moves shutdown_moves connection_moves timeout_moves\<close>)
qed

lemma new_wrapper_ok:
  assumes "new_comms_wrapper i mq mt s = Inr w"
  shows "handler_step\<^sup>*\<^sup>* (new_handler mq mt) (mThreadHandler w) \<and> jobs_ok w"
proof -
  obtain h k where h: "create_queue (new_handler mq mt) ''lifecycle'' (2 ^ 31 - 1) = Inr h"
      "create_queue h ''wait queue'' (- (2 ^ 31)) = Inr k" and w: "mThreadHandler w = k"
    using assms by (auto simp: new_comms_wrapper_def split: sum.splits)
  have n: "next_wid (new_handler mq mt) = 0" "next_qid (new_handler mq mt) = 1" by (simp_all add: demo_ops)
  note h1 = create_queues_reach [OF h(1) rtranclp.rtrancl_refl]
  with n have "handler_step\<^sup>*\<^sup>* (new_handler mq mt) h" "next_qid h < 2 ^ 30" "next_wid h = 0" by simp_all
  with create_queues_reach [OF h(2)] show ?thesis by (simp add: w jobs_ok_def all_posted_def)
qed

interpretation cw: handler_client mThreadHandler posted_jobs cw_op "\<lambda>mq mt w. \<exists>i s. new_comms_wrapper i mq mt s = Inr w"
  "\<lambda>_. True"
proof
  fix mq mt w
  assume "\<exists>i s. new_comms_wrapper i mq mt s = Inr w"
  then show "handler_step\<^sup>*\<^sup>* (new_handler mq mt) (mThreadHandler w) \<and> all_posted (mThreadHandler w) (posted_jobs w) \<and> True"
    using new_wrapper_ok by (auto simp: jobs_ok_def)
next
  fix w t mq mt
  assume "cw_op w t" "handler_step\<^sup>*\<^sup>* (new_handler mq mt) (mThreadHandler w)" "handler_small (mThreadHandler w)"
    "handler_small (mThreadHandler t)" "all_posted (mThreadHandler w) (posted_jobs w)"
  then show "handler_step\<^sup>*\<^sup>* (mThreadHandler w) (mThreadHandler t) \<and> all_posted (mThreadHandler t) (posted_jobs t) \<and> True"
    using cw_op_sim [of w t mq mt] by (simp add: jobs_ok_def)
qed


section \<open>Shutting down\<close>

definition real_calls :: "comms_wrapper \<Rightarrow> comms_job list" where
  "real_calls w = filter (\<lambda>j. j \<noteq> JShutdown) (plugin_calls w)"

lemma connection_state [simp]:
  "cw_state (snd (cw_onConnectionStatusChanged E handle c st props w)) = cw_state w"
  "plugin_calls (snd (cw_onConnectionStatusChanged E handle c st props w)) = plugin_calls w"
  by (auto simp: cw_onConnectionStatusChanged_def connection_queue_opened_def connection_queue_closed_def
    createQueue_def removeQueue_def Let_def split: option.splits sum.splits)

lemma reported_state [simp]:
  "cw_state (reported_at_shutdown E job w) = cw_state w"
  "plugin_calls (reported_at_shutdown E job w) = plugin_calls w"
  by (cases job; simp add: link_failed_def cw_generateLinkId_def cw_onLinkStatusChanged_def
    cw_generateConnectionId_def cw_onPackageStatusChanged_def case_prod_beta)+

lemma run_job_after_shutdown:
  assumes "cw_state w = SHUTDOWN"
  shows "cw_state (snd (run_job E a job w)) = SHUTDOWN" "real_calls (snd (run_job E a job w)) = real_calls w"
  using assms by (cases "job = JShutdown"; auto simp: run_job_def real_calls_def Let_def)+

lemma timed_out_state:
  "cw_state (fold (timed_out_callback E) evs w) = cw_state w \<and> plugin_calls (fold (timed_out_callback E) evs w) = plugin_calls w"
proof (induction evs arbitrary: w)
  case (Cons ev evs)
  have "cw_state (timed_out_callback E ev w) = cw_state w \<and> plugin_calls (timed_out_callback E ev w) = plugin_calls w"
    by (auto simp: timed_out_callback_def split: handler_event.split option.split comms_job.split)
  with Cons show ?case by simp
qed simp

lemma cw_posted_state:
  "cw_posted r job w = Returned x t \<Longrightarrow> cw_state t = cw_state w \<and> plugin_calls t = plugin_calls w"
  unfolding cw_posted_def by (elim posted_asE) simp

lemma op_after_shutdown:
  assumes "cw_op w t" "cw_state w = SHUTDOWN"
  shows "cw_state t = SHUTDOWN \<and> real_calls t = real_calls w"
  using assms
proof cases
  case (co_end E answer)
  then show ?thesis using run_job_after_shutdown [OF assms(2)] assms(2)
    by (auto simp: cw_thread_end_def real_calls_def case_prod_beta split: option.split)
next
  case (co_timeout E now)
  then show ?thesis using assms(2) by (simp add: cw_timeout_thread_def Let_def timed_out_state real_calls_def)
qed (use assms(2) in \<open>auto simp: cw_closeConnection_def cw_deactivateChannel_def cw_destroyLink_def cw_createLink_def
  cw_createBootstrapLink_def cw_loadLinkAddress_def cw_loadLinkAddresses_def cw_createLinkFromAddress_def
  cw_serveFiles_def cw_flushChannel_def request_def cw_activateChannel_def cw_openConnection_def cw_sendPackage_def
  cw_onUserInputReceived_def cw_onUserAcknowledgementReceived_def user_answer_def cw_shutdown_def
  waitForCallbacks_def cw_post_def cw_post_again_def asyncError_def shutdownPluginAsync_def unblockQueue_def
  startHandler_def real_calls_def dest!: cw_posted_state split: sum.splits\<close>)

text \<open>
  C39: Once the wrapper has been shut down it stays so, and the plugin is not called again, except to
  shut it down: requests are refused, and calls that still wait in the queues are answered by the wrapper itself.
\<close>

theorem cw_quiet_after_shutdown:
  assumes "cw_state w = SHUTDOWN" "cw_step\<^sup>*\<^sup>* w t"
  shows "cw_state t = SHUTDOWN \<and>
    filter (\<lambda>j. j \<noteq> JShutdown) (plugin_calls t) = filter (\<lambda>j. j \<noteq> JShutdown) (plugin_calls w)"
  using assms(2)
proof (induction rule: rtranclp_induct)
  case (step u v)
  then show ?case using op_after_shutdown [of u v] by (simp add: cw_step_def real_calls_def)
qed (simp add: assms(1))

text \<open>The jobs that make a link.\<close>

fun link_job :: "comms_job \<Rightarrow> (u64 \<times> string) option" where
  "link_job (JCreateLink handle gid) = Some (handle, gid)"
| "link_job (JCreateBootstrapLink handle gid p) = Some (handle, gid)"
| "link_job (JLoadLinkAddress handle gid a) = Some (handle, gid)"
| "link_job (JLoadLinkAddresses handle gid a) = Some (handle, gid)"
| "link_job (JCreateLinkFromAddress handle gid a) = Some (handle, gid)"
| "link_job _ = None"

lemma link_job_reported: "link_job job = Some (handle, gid) \<Longrightarrow> reported_at_shutdown E job w = link_failed E handle gid w"
  by (cases job) auto

text \<open>
  C40: A link that was requested before its plugin is shut down and not made yet is reported
  destroyed, but only while its channel is available. The shutdown of a plugin fails its channels
  before the calls still waiting come up; then no id is made for the link, the SDK refuses the report,
  and the network manager never hears of its request.
\<close>

theorem cw_link_lost_at_shutdown:
  assumes "cw_state w = SHUTDOWN" "link_job job = Some (handle, gid)"
    and "links_step\<^sup>*\<^sup>* new_race_links (sdk_links (raceSdk w))" "\<not> isShuttingDown (raceSdk w)" "has_nm (raceSdk w)"
      "\<not> bootstrap_conn E handle" "\<not> bootstrap_link E handle"
    and new: "link_of (sdk_links (raceSdk w)) (fst (generateLinkId (mId w) gid (raceSdk w))) = None"
  shows "run_job E answer job w = (Some False, snd (run_job E answer job w)) \<and>
    sdk_calls (raceSdk (snd (run_job E answer job w))) = sdk_calls (raceSdk w) @
      (if isAvailable gid (sdk_channels (raceSdk w))
       then [NmLinkStatus (getNM handle) handle (fst (generateLinkId (mId w) gid (raceSdk w))) LINK_DESTROYED
         default_link_properties] else [])"
proof -
  have "job \<noteq> JWait" "job \<noteq> JShutdown" using assms(2) by auto
  then have r: "run_job E answer job w = (Some False, link_failed E handle gid w)"
    using assms(1,2) by (simp add: run_job_def link_job_reported)
  have ok: "links_ok (sdk_links (raceSdk w))" using race_links.reachable_inv assms(3) by blast
  show ?thesis
  proof (cases "isAvailable gid (sdk_channels (raceSdk w))")
    case True
    let ?l = "fst (generateLinkId (mId w) gid (raceSdk w))"
    let ?s = "snd (generateLinkId (mId w) gid (raceSdk w))"
    have g: "sdk_links ?s = sdk_links (raceSdk w)" "isShuttingDown ?s = isShuttingDown (raceSdk w)"
      "has_nm ?s = has_nm (raceSdk w)" "sdk_calls ?s = sdk_calls (raceSdk w)" "?l \<noteq> []"
      using True by (simp_all add: generateLinkId_def)
    have c: "destroy_calls handle default_link_properties (sdk_links (raceSdk w)) ?l =
        [NmLinkStatus (getNM handle) handle ?l LINK_DESTROYED default_link_properties]"
      using new by (simp add: destroy_calls_def getLinkConnections_def)
    have ok1: "links_ok (sdk_links ?s)" "\<not> isShuttingDown ?s" "has_nm ?s" using ok assms(4,5) g by simp_all
    have "sdk_calls (snd (onLinkStatusChanged E handle ?l LINK_DESTROYED default_link_properties ?s)) =
        sdk_calls (raceSdk w) @ [NmLinkStatus (getNM handle) handle ?l LINK_DESTROYED default_link_properties]"
      using link_destroyed_ok(4) [OF ok1 assms(6,7) g(5) refl, where props = default_link_properties] c g by simp
    then show ?thesis using True
      by (simp add: r link_failed_def cw_generateLinkId_def cw_onLinkStatusChanged_def case_prod_beta)
  next
    case False
    then show ?thesis using assms(4,5)
      by (simp add: r link_failed_def cw_generateLinkId_def cw_onLinkStatusChanged_def case_prod_beta
        generateLinkId_def onLinkStatusChanged_def)
  qed
qed

end
