(* ===== verification/Comms_Wrapper_Runs.thy ===== *)
theory Comms_Wrapper_Runs
  imports Comms_Wrapper_Props Race_Sdk_Runs
begin

text \<open>
  Runs of the wrapper of a comms plugin, evaluated in the kernel: a link is asked for, the call is
  taken from the queue and the plugin answers it; and the same request when the plugin is shut down first.
\<close>

definition demo_wrapper :: comms_wrapper where
  "demo_wrapper = projr (new_comms_wrapper ''p'' 100 100 demo_sdk)"

definition demo_requested :: comms_wrapper where
  "demo_requested = (case cw_createLink 1 ''c'' False 0 demo_wrapper of Returned r t \<Rightarrow> t | _ \<Rightarrow> demo_wrapper)"

definition demo_up :: comms_wrapper where
  "demo_up = projr (startHandler demo_requested)"

definition demo_taken :: comms_wrapper where
  "demo_taken = (case work_thread_begin (mThreadHandler demo_up) of
     Run h \<Rightarrow> demo_up\<lparr>mThreadHandler := h\<rparr> | _ \<Rightarrow> demo_up)"

definition demo_made :: comms_wrapper where
  "demo_made = cw_thread_end demo_sdk_env (Responded PLUGIN_OK) demo_taken"

lemmas demo_wrapper_defs = demo_wrapper_def demo_requested_def demo_up_def demo_taken_def

lemmas demo_wrapper_ops = demo_ops demo_worker new_comms_wrapper_def create_queue_def cw_createLink_def request_def
  answered_def cw_post_def cw_posted_def posted_as_def utilization_of_def startHandler_def makeResponse_def queue_utilization_def

lemma demo_wrapper_new: "new_comms_wrapper ''p'' 100 100 demo_sdk = Inr demo_wrapper"
  by (simp add: demo_wrapper_def demo_wrapper_ops)

lemma demo_request: "\<exists>r. cw_createLink 1 ''c'' False 0 demo_wrapper = Returned r demo_requested"
  by (simp add: demo_wrapper_defs demo_wrapper_ops)

lemma demo_up: "startHandler demo_requested = Inr demo_up"
  by (simp add: demo_wrapper_defs demo_wrapper_ops)

lemma demo_take: "\<exists>h. work_thread_begin (mThreadHandler demo_up) = Run h \<and> demo_taken = demo_up\<lparr>mThreadHandler := h\<rparr>"
proof -
  have "\<exists>h. work_thread_begin (mThreadHandler demo_up) = Run h"
    by (simp add: demo_wrapper_defs demo_wrapper_ops while_option_unfold)
  then show ?thesis by (auto simp: demo_taken_def)
qed

lemma demo_up_idle: "worker_idle (mThreadHandler demo_up)"
  by (simp add: worker_idle_def demo_wrapper_defs demo_wrapper_ops)

lemma demo_taken_facts:
  "h_running (mThreadHandler demo_taken) = Some (0, 0)"
  "posted_jobs demo_taken 0 = Some (JCreateLink 1 ''c'')" "cw_state demo_taken = CONSTRUCTED"
  "\<not> q_marked (h_queues (mThreadHandler demo_taken) q)"
  "raceSdk demo_taken = demo_sdk" "plugin_calls demo_taken = []" "mId demo_taken = ''p''"
  by (simp_all add: demo_wrapper_defs demo_wrapper_ops while_option_unfold)

lemma ex_bool: "\<exists>b. b" "\<exists>b. \<not> b"
  by blast+

lemma demo_made_facts:
  "completed (mThreadHandler demo_made) 0 = [0]" "plugin_calls demo_made = [JCreateLink 1 ''c'']"
  "handler_small (mThreadHandler demo_made)" "next_wid (mThreadHandler demo_made) = 1"
  by (simp_all add: demo_made_def cw_thread_end_def demo_taken_facts run_job_def handler_small_def ex_bool
     work_thread_end_def pop_queue_internal_def uncount_work_def completed_def next_cycle_def
     demo_wrapper_defs demo_wrapper_ops while_option_unfold)

lemma demo_wrapper_small:
  "handler_small (mThreadHandler demo_wrapper)" "handler_small (mThreadHandler demo_requested)"
  "handler_small (mThreadHandler demo_up)" "handler_small (mThreadHandler demo_taken)"
  by (simp_all add: handler_small_def demo_wrapper_defs demo_wrapper_ops while_option_unfold)


lemma demo_removable: "removable demo_taken c"
  by (simp add: removable_def demo_taken_facts)

lemma demo_wrapper_run: "cw_step\<^sup>*\<^sup>* demo_wrapper demo_made"
proof -
  have "cw_step demo_wrapper demo_requested"
    using demo_request by (auto simp: cw_step_def demo_wrapper_small intro: co_create)
  moreover have "cw_step demo_requested demo_up"
    using co_start [OF demo_up] by (simp add: cw_step_def demo_wrapper_small)
  moreover have "cw_step demo_up demo_taken"
    using demo_take co_run [OF _ demo_up_idle] by (auto simp: cw_step_def demo_wrapper_small)
  moreover have "cw_step demo_taken demo_made"
    unfolding cw_step_def demo_made_def
    using co_end [of demo_taken] demo_removable demo_made_facts(3)
    by (simp add: demo_taken_facts demo_wrapper_small demo_made_def)
  ultimately show ?thesis by (meson rtranclp.rtrancl_into_rtrancl rtranclp.rtrancl_refl)
qed


text \<open>The plugin is shut down while the request waits: the job reports nothing and the plugin is not called.\<close>

definition demo_down :: comms_wrapper where
  "demo_down = demo_taken\<lparr>cw_state := SHUTDOWN\<rparr>"

theorem cw_quiet_after_shutdown_witness:
  "cw_step\<^sup>*\<^sup>* demo_down (cw_thread_end demo_sdk_env (Responded PLUGIN_OK) demo_down) \<and>
   filter (\<lambda>j. j \<noteq> JShutdown) (plugin_calls (cw_thread_end demo_sdk_env (Responded PLUGIN_OK) demo_down)) = []"
proof -
  have "mThreadHandler (cw_thread_end demo_sdk_env (Responded PLUGIN_OK) demo_down) = mThreadHandler demo_made"
    by (simp add: demo_made_def cw_thread_end_def demo_down_def demo_taken_facts run_job_def ex_bool)
  then have "cw_step demo_down (cw_thread_end demo_sdk_env (Responded PLUGIN_OK) demo_down)"
    using co_end [of demo_down] demo_removable demo_made_facts(3)
    by (simp add: cw_step_def demo_down_def demo_taken_facts demo_wrapper_small removable_def)
  then have "cw_step\<^sup>*\<^sup>* demo_down (cw_thread_end demo_sdk_env (Responded PLUGIN_OK) demo_down)" by blast
  with cw_quiet_after_shutdown [OF _ this] show ?thesis by (simp add: demo_down_def demo_taken_facts)
qed

lemma demo_c_unavailable: "\<not> isAvailable ''c'' (sdk_channels demo_sdk)"
  by (simp add: isAvailable_def info_of_def setLinkId_def upd_channel_def demo_started_eq empty_channels_def)

theorem cw_link_lost_at_shutdown_witness:
  "fst (run_job demo_sdk_env (Responded PLUGIN_OK) (JCreateLink 1 ''c'') demo_down) = Some False \<and>
   sdk_calls (raceSdk (snd (run_job demo_sdk_env (Responded PLUGIN_OK) (JCreateLink 1 ''c'') demo_down))) = []"
proof -
  have "fst (generateLinkId ''p'' ''c'' demo_sdk) = []"
    by (simp add: generateLinkId_def demo_c_unavailable [simplified])
  moreover have "link_of demo_links [] = None"
    by (simp add: demo_links_facts)
  ultimately show ?thesis
    using cw_link_lost_at_shutdown [of demo_down "JCreateLink 1 ''c''" 1 "''c''" demo_sdk_env "Responded PLUGIN_OK"]
      demo_sdk_links demo_c_unavailable [simplified]
    by (simp add: demo_down_def demo_taken_facts) (metis fst_conv)
qed

end
