(* ===== verification/Nm_Wrapper.thy ===== *)
theory Nm_Wrapper
  imports Wrapper_Post Race_Sdk_Packages
begin

text \<open>
  The wrapper of the network manager: racesdk/core/source/NMWrapper.h and NMWrapper.cpp. Received
  packages and messages go to the queue \<open>receive\<close>, reports of the SDK to the queue \<open>callback\<close> of a
  higher priority, everything else to the default queue, which is served first. What the plugin answers and
  the clock are arguments. Left out: logging, and the requests of the plugin, which are forwarded to the SDK
  as they are (\<open>Race_Sdk\<close>).
\<close>

section \<open>The data\<close>

record clr_msg =
  plainMsg :: string
  fromPersona :: string
  toPersona :: string
  createTime :: "64 word"
  msgNonce :: i32
  ampIndex :: "8 word"
  msgTraceId :: u64
  msgSpanId :: u64

datatype bootstrap_state = BOOTSTRAP_INVALID | BOOTSTRAP_CANCELLED | BOOTSTRAP_SUCCESS | BOOTSTRAP_FAILED

record device_info =
  di_platform :: string
  di_architecture :: string
  di_nodeType :: string

text \<open>A call into the plugin, with what the lambda has captured. \<open>NJWait\<close> is the empty callback.\<close>

datatype nm_job =
    NJShutdown
  | NJClrMsg u64 clr_msg
  | NJEncPkg u64 enc_pkg "conn_id list"
  | NJPrepareToBootstrap u64 link_id string device_info
  | NJBootstrapPkg string bytes
  | NJBootstrapFinished u64 bootstrap_state
  | NJPackageStatus u64 package_status
  | NJConnectionStatus u64 conn_id connection_status link_id link_properties
  | NJLinkStatus u64 link_id link_status link_properties
  | NJChannelStatus u64 string channel_status channel_properties
  | NJLinkProperties link_id link_properties
  | NJPersonaLinks string link_type "link_id list"
  | NJUserInput u64 bool string
  | NJUserAcknowledgement u64
  | NJNotifyEpoch string
  | NJWait

datatype nm_answer_of_plugin = NmResponded plugin_response | NmThrew

text \<open>\<open>nm_crashed\<close>: the process has been aborted.\<close>

record nm_wrapper =
  nmSdk :: race_sdk
  nmHandler :: handler
  nm_jobs :: "work_id \<Rightarrow> nm_job option"
  nm_calls :: "nm_job list"
  nm_crashed :: bool

type_synonym 'a nm_result = "('a, nm_wrapper) call_result"

section \<open>Construction\<close>

definition nm_createQueue :: "string \<Rightarrow> int \<Rightarrow> nm_wrapper \<Rightarrow> exn + nm_wrapper" where
  "nm_createQueue name p w = (case create_queue (nmHandler w) name p of
     Inl e \<Rightarrow> Inl e | Inr h \<Rightarrow> Inr (w\<lparr>nmHandler := h\<rparr>))"

definition nm_construct :: "nm_wrapper \<Rightarrow> exn + nm_wrapper" where
  "nm_construct w = (case nm_createQueue ''receive'' (- 2) w of
     Inl e \<Rightarrow> Inl e
   | Inr w1 \<Rightarrow> (case nm_createQueue ''callback'' (- 1) w1 of
       Inl e \<Rightarrow> Inl e
     | Inr w2 \<Rightarrow> nm_createQueue ''wait queue'' (- (2 ^ 31)) w2))"

definition new_nm_wrapper :: "u64 \<Rightarrow> u64 \<Rightarrow> race_sdk \<Rightarrow> exn + nm_wrapper" where
  "new_nm_wrapper mq mt s = nm_construct \<lparr>nmSdk = s, nmHandler = new_handler mq mt, nm_jobs = (\<lambda>_. None),
     nm_calls = [], nm_crashed = False\<rparr>"

definition nm_startHandler :: "nm_wrapper \<Rightarrow> exn + nm_wrapper" where
  "nm_startHandler w = (case start (nmHandler w) of Inl e \<Rightarrow> Inl e | Inr h \<Rightarrow> Inr (w\<lparr>nmHandler := h\<rparr>))"

definition nm_stopHandler_begin :: "nm_wrapper \<Rightarrow> nm_wrapper" where
  "nm_stopHandler_begin w = w\<lparr>nmHandler := fst (stop_begin (nmHandler w))\<rparr>"

text \<open>\<open>init\<close> runs on the thread of the caller.\<close>

definition nm_init :: "nm_answer_of_plugin \<Rightarrow> bool" where
  "nm_init answer \<longleftrightarrow> answer = NmResponded PLUGIN_OK"

section \<open>Posting\<close>

definition nm_posted :: "exn + handler \<times> post_result \<Rightarrow> nm_job \<Rightarrow> nm_wrapper \<Rightarrow> (post_status \<times> u64) nm_result" where
  "nm_posted r job w = posted_as (\<lambda>h jobs. w\<lparr>nmHandler := h, nm_jobs := jobs\<rparr>) (nmHandler w) (nm_jobs w) w r job"

definition nm_post :: "string \<Rightarrow> u64 \<Rightarrow> bool \<Rightarrow> real \<Rightarrow> nm_job \<Rightarrow> nm_wrapper \<Rightarrow> (post_status \<times> u64) nm_result" where
  "nm_post name n blocking now job w =
     nm_posted (post (nmHandler w) name n blocking (At now) Infinity False) job w"

definition nm_post_again :: "string \<Rightarrow> u64 \<Rightarrow> nm_job \<Rightarrow> nm_wrapper \<Rightarrow> (post_status \<times> u64) nm_result" where
  "nm_post_again name n job w = nm_posted (post_locked (nmHandler w) name n True Infinity False) job w"

definition nm_request :: "string \<Rightarrow> u64 \<Rightarrow> nm_job \<Rightarrow> bool \<Rightarrow> real \<Rightarrow> nm_wrapper \<Rightarrow> (bool \<times> real) nm_result" where
  "nm_request name n job blocking now w = answered (nm_post name n blocking now job w)
     (\<lambda>st n w. ((st = OK, utilization_of n (nmHandler w)), w)) (Pair (False, 0))"

section \<open>Packages and messages\<close>

text \<open>The ids of the new span replace those of the message. The size counts the parts that vary and 16 bytes of ids.\<close>

definition clr_msg_size :: "clr_msg \<Rightarrow> u32" where
  "clr_msg_size msg = of_nat (length (plainMsg msg) + length (fromPersona msg) + length (toPersona msg) + 16)"

definition nm_processClrMsg :: "sdk_env \<Rightarrow> u64 \<Rightarrow> clr_msg \<Rightarrow> bool \<Rightarrow> real \<Rightarrow> nm_wrapper \<Rightarrow> (bool \<times> real) nm_result" where
  "nm_processClrMsg E handle msg =
     (let newMsg = msg\<lparr>msgTraceId := fst (span_ids E), msgSpanId := snd (span_ids E)\<rparr>
      in nm_request ''receive'' (ucast (clr_msg_size msg)) (NJClrMsg handle newMsg))"

definition nm_processEncPkg ::
    "sdk_env \<Rightarrow> u64 \<Rightarrow> enc_pkg \<Rightarrow> conn_id list \<Rightarrow> bool \<Rightarrow> real \<Rightarrow> nm_wrapper \<Rightarrow> (bool \<times> real) nm_result" where
  "nm_processEncPkg E handle pkg cs =
     (let newPkg = setSpanId (snd (span_ids E)) (setTraceId (fst (span_ids E)) pkg);
          pkgSize = of_nat (getSize newPkg) :: u32
      in nm_request ''receive'' (ucast pkgSize) (NJEncPkg handle newPkg cs))"

definition nm_prepareToBootstrap ::
    "u64 \<Rightarrow> link_id \<Rightarrow> string \<Rightarrow> device_info \<Rightarrow> bool \<Rightarrow> real \<Rightarrow> nm_wrapper \<Rightarrow> (bool \<times> real) nm_result" where
  "nm_prepareToBootstrap handle l configPath info =
     nm_request ''receive'' 0 (NJPrepareToBootstrap handle l configPath info)"

section \<open>Reports\<close>

definition nm_onBootstrapPkgReceived :: "string \<Rightarrow> bytes \<Rightarrow> bool \<Rightarrow> real \<Rightarrow> nm_wrapper \<Rightarrow> (bool \<times> real) nm_result" where
  "nm_onBootstrapPkgReceived persona pkg = nm_request ''callback'' 0 (NJBootstrapPkg persona pkg)"

text \<open>Here the wait is bounded, and every exception of the handler is caught.\<close>

definition nm_onBootstrapFinished :: "u64 \<Rightarrow> bootstrap_state \<Rightarrow> real \<Rightarrow> nm_wrapper \<Rightarrow> bool nm_result" where
  "nm_onBootstrapFinished handle st now w =
     (case nm_post ''callback'' 0 True now (NJBootstrapFinished handle st) w of
        Returned (r, n) w1 \<Rightarrow> Returned (r = OK) w1
      | Raised e w1 \<Rightarrow> Returned False w1
      | Blocks \<Rightarrow> Blocks)"

definition nm_onPackageStatusChanged ::
    "u64 \<Rightarrow> package_status \<Rightarrow> bool \<Rightarrow> real \<Rightarrow> nm_wrapper \<Rightarrow> (bool \<times> real) nm_result" where
  "nm_onPackageStatusChanged handle status = nm_request ''callback'' 0 (NJPackageStatus handle status)"

definition nm_onConnectionStatusChanged ::
    "u64 \<Rightarrow> conn_id \<Rightarrow> connection_status \<Rightarrow> link_id \<Rightarrow> link_properties \<Rightarrow> bool \<Rightarrow> real \<Rightarrow> nm_wrapper \<Rightarrow>
     (bool \<times> real) nm_result" where
  "nm_onConnectionStatusChanged handle c status l props =
     nm_request ''callback'' 0 (NJConnectionStatus handle c status l props)"

definition nm_onLinkStatusChanged ::
    "u64 \<Rightarrow> link_id \<Rightarrow> link_status \<Rightarrow> link_properties \<Rightarrow> bool \<Rightarrow> real \<Rightarrow> nm_wrapper \<Rightarrow> (bool \<times> real) nm_result" where
  "nm_onLinkStatusChanged handle l status props = nm_request ''callback'' 0 (NJLinkStatus handle l status props)"

definition nm_onChannelStatusChanged ::
    "u64 \<Rightarrow> string \<Rightarrow> channel_status \<Rightarrow> channel_properties \<Rightarrow> bool \<Rightarrow> real \<Rightarrow> nm_wrapper \<Rightarrow> (bool \<times> real) nm_result" where
  "nm_onChannelStatusChanged handle gid status props =
     nm_request ''callback'' 0 (NJChannelStatus handle gid status props)"

definition nm_onLinkPropertiesChanged ::
    "link_id \<Rightarrow> link_properties \<Rightarrow> bool \<Rightarrow> real \<Rightarrow> nm_wrapper \<Rightarrow> (bool \<times> real) nm_result" where
  "nm_onLinkPropertiesChanged l props = nm_request ''callback'' 0 (NJLinkProperties l props)"

definition nm_onPersonaLinksChanged ::
    "string \<Rightarrow> link_type \<Rightarrow> link_id list \<Rightarrow> bool \<Rightarrow> real \<Rightarrow> nm_wrapper \<Rightarrow> (bool \<times> real) nm_result" where
  "nm_onPersonaLinksChanged persona ty links = nm_request ''callback'' 0 (NJPersonaLinks persona ty links)"

definition nm_onUserInputReceived ::
    "u64 \<Rightarrow> bool \<Rightarrow> string \<Rightarrow> bool \<Rightarrow> real \<Rightarrow> nm_wrapper \<Rightarrow> (bool \<times> real) nm_result" where
  "nm_onUserInputReceived handle was_answered response =
     nm_request ''callback'' 0 (NJUserInput handle was_answered response)"

definition nm_onUserAcknowledgementReceived ::
    "u64 \<Rightarrow> bool \<Rightarrow> real \<Rightarrow> nm_wrapper \<Rightarrow> (bool \<times> real) nm_result" where
  "nm_onUserAcknowledgementReceived handle = nm_request ''callback'' 0 (NJUserAcknowledgement handle)"

section \<open>The default queue\<close>

text \<open>Waiting for the end of the shutdown, or not, is left out.\<close>

definition nm_notifyEpoch :: "string \<Rightarrow> bool \<Rightarrow> real \<Rightarrow> nm_wrapper \<Rightarrow> (bool \<times> real) nm_result" where
  "nm_notifyEpoch data = nm_request [] 0 (NJNotifyEpoch data)"

definition nm_shutdown :: "real \<Rightarrow> nm_wrapper \<Rightarrow> (bool \<times> real) nm_result" where
  "nm_shutdown = nm_request [] 0 NJShutdown False"

definition nm_waitForCallbacks :: "real \<Rightarrow> nm_wrapper \<Rightarrow> (post_status \<times> u64) nm_result" where
  "nm_waitForCallbacks now = nm_post ''wait queue'' 0 False now NJWait"

section \<open>The callbacks\<close>

text \<open>
  After a fatal answer of the network manager the comms plugins are shut down one after the other, in the order
  of the table of wrappers (\<open>order\<close>), and the process is aborted.
\<close>

definition shutdownCommsAndCrash :: "string list \<Rightarrow> race_sdk \<Rightarrow> race_sdk" where
  "shutdownCommsAndCrash order s = s\<lparr>isShuttingDown := True, sdk_calls := sdk_calls s @ map CommsShutdown order\<rparr>"

definition nm_crash :: "string list \<Rightarrow> nm_wrapper \<Rightarrow> nm_wrapper" where
  "nm_crash order w = w\<lparr>nmSdk := shutdownCommsAndCrash order (nmSdk w), nm_crashed := True\<rparr>"

text \<open>The lambdas. An exception of the plugin counts as a fatal answer; none blocks its queue.\<close>

definition run_nm_job :: "string list \<Rightarrow> nm_answer_of_plugin \<Rightarrow> nm_job \<Rightarrow> nm_wrapper \<Rightarrow> bool option \<times> nm_wrapper" where
  "run_nm_job order answer job w =
     (if job = NJWait then (Some True, w)
      else
        let response = (case answer of NmResponded r \<Rightarrow> r | NmThrew \<Rightarrow> PLUGIN_FATAL);
            w1 = w\<lparr>nm_calls := nm_calls w @ [job]\<rparr>
        in if job = NJShutdown then (Some (response = PLUGIN_OK), w1)
           else (Some True, if response = PLUGIN_FATAL then nm_crash order w1 else w1))"

definition nm_thread_end :: "string list \<Rightarrow> nm_answer_of_plugin \<Rightarrow> nm_wrapper \<Rightarrow> nm_wrapper" where
  "nm_thread_end order answer w = (case h_running (nmHandler w) of
     None \<Rightarrow> w
   | Some (p, i) \<Rightarrow> (case nm_jobs w i of
       None \<Rightarrow> w
     | Some job \<Rightarrow>
         let (res, w1) = run_nm_job order answer job w
         in if nm_crashed w1 then w1
            else w1\<lparr>nmHandler := work_thread_end (res \<noteq> None) (nmHandler w1)\<rparr>))"

text \<open>No call has a timeout callback, so the timeout thread only moves works between lists.\<close>

definition nm_timeout_thread :: "real \<Rightarrow> nm_wrapper \<Rightarrow> nm_wrapper" where
  "nm_timeout_thread now w = w\<lparr>nmHandler := fst (timeout_thread_step (At now) (nmHandler w))\<rparr>"

end
