(* ===== verification/Nm_Wrapper_Props.thy ===== *)
theory Nm_Wrapper_Props
  imports Nm_Wrapper Handler_Client
begin

text \<open>
  The wrapper of the network manager, continued: every call is made exactly once and in the order of its
  queue, reports come before packages, and the plugin may be called after it was shut down.
\<close>

section \<open>The queues\<close>

fun nm_queue :: "nm_job \<Rightarrow> string" where
  "nm_queue NJShutdown = ''''"
| "nm_queue (NJNotifyEpoch _) = ''''"
| "nm_queue (NJClrMsg _ _) = ''receive''"
| "nm_queue (NJEncPkg _ _ _) = ''receive''"
| "nm_queue (NJPrepareToBootstrap _ _ _ _) = ''receive''"
| "nm_queue NJWait = ''wait queue''"
| "nm_queue _ = ''callback''"

definition nm_queues :: "string \<Rightarrow> queue_id option" where
  "nm_queues = [[] \<mapsto> 0, ''receive'' \<mapsto> 1, ''callback'' \<mapsto> 2, ''wait queue'' \<mapsto> 3]"

definition nm_priority :: "queue_id \<Rightarrow> int" where
  "nm_priority q = (if q = 0 then 0 else if q = 1 then - 2 else if q = 2 then - 1 else - (2 ^ 31))"

lemma nm_queue_some: "\<exists>q < 4. nm_queues (nm_queue job) = Some q"
  by (cases job) (simp_all add: nm_queues_def)

lemma nm_queues_lt: "nm_queues name = Some q \<Longrightarrow> q < 4"
  by (auto simp: nm_queues_def split: if_splits)

text \<open>
  No queue is ever removed or blocked and no call times out. What has been called and what waits, in this
  order, is what was posted.
\<close>

definition nm_handler :: "handler \<Rightarrow> (work_id \<Rightarrow> nm_job option) \<Rightarrow> bool" where
  "nm_handler s jobs \<longleftrightarrow> queue_map s = nm_queues \<and>
     (\<forall>q < 4. q_priority (h_queues s q) = nm_priority q \<and> \<not> q_blocked (h_queues s q) \<and> \<not> q_marked (h_queues s q)) \<and>
     timedOutQueue s = [] \<and> unblock_list s = [] \<and> (\<forall>i \<in> set (done_of (h_log s)). i < next_wid s) \<and>
     (\<forall>i < next_wid s. w_timeout (h_works s i) = Infinity \<and>
        (\<exists>job. jobs i = Some job \<and> nm_queues (nm_queue job) = Some (w_queue (h_works s i)))) \<and>
     (\<forall>q < 4. completed s q @ q_queue (h_queues s q) = filter (\<lambda>i. w_queue (h_works s i) = q) [0..<next_wid s])"

lemma nm_handlerD:
  assumes "nm_handler s jobs"
  shows "queue_map s = nm_queues" "timedOutQueue s = []" "unblock_list s = []"
    and "i \<in> set (done_of (h_log s)) \<Longrightarrow> i < next_wid s"
    and "q < 4 \<Longrightarrow> q_priority (h_queues s q) = nm_priority q \<and> \<not> q_blocked (h_queues s q) \<and> \<not> q_marked (h_queues s q)"
    and "i < next_wid s \<Longrightarrow> w_timeout (h_works s i) = Infinity"
    and "i < next_wid s \<Longrightarrow> \<exists>job. jobs i = Some job \<and> nm_queues (nm_queue job) = Some (w_queue (h_works s i))"
    and "q < 4 \<Longrightarrow> completed s q @ q_queue (h_queues s q) = filter (\<lambda>i. w_queue (h_works s i) = q) [0..<next_wid s]"
  using assms by (simp_all add: nm_handler_def)

lemma nm_handler_frame:
  assumes "nm_handler s jobs" "queue_map t = queue_map s" "h_queues t = h_queues s" "timedOutQueue t = timedOutQueue s"
    "unblock_list t = unblock_list s" "next_wid t = next_wid s" "done_of (h_log t) = done_of (h_log s)"
    and w: "\<And>i. w_timeout (h_works t i) = w_timeout (h_works s i)" "\<And>i. w_queue (h_works t i) = w_queue (h_works s i)"
  shows "nm_handler t jobs"
  using assms by (simp add: nm_handler_def completed_def)

lemma nm_live:
  assumes "nm_handler s jobs" "handler_ok s"
  shows "q \<in> live_queues s \<longleftrightarrow> q < 4"
proof -
  have n: "wf_names s" using assms(2) by (simp add: handler_ok_def handler_core_def)
  have "q \<in> live_queues s \<longleftrightarrow> (\<exists>name. nm_queues name = Some q)"
    using n nm_handlerD(1) [OF assms(1)] by (auto simp: wf_names_def)
  moreover have "(\<exists>name. nm_queues name = Some q) \<longleftrightarrow> q < 4"
  proof
    assume "q < 4"
    then have "q \<in> {0, 1, 2, 3}" by auto
    moreover have "nm_queues [] = Some 0" "nm_queues ''receive'' = Some 1" "nm_queues ''callback'' = Some 2"
      "nm_queues ''wait queue'' = Some 3" by (simp_all add: nm_queues_def)
    ultimately show "\<exists>name. nm_queues name = Some q" by blast
  qed (use nm_queues_lt in blast)
  ultimately show ?thesis by blast
qed

section \<open>Each step of the handler\<close>

lemma nm_post_insert:
  assumes nm: "nm_handler s jobs" and q: "nm_queues (nm_queue job) = Some q"
    and "post_insert s q n Infinity False = Inr t"
  shows "nm_handler t (jobs(next_wid s \<mapsto> job))"
proof -
  note f = post_insert_fields [OF assms(3)] and d = nm_handlerD [OF nm]
  have sh: "same_shape s t" using post_insert_shape assms(3) .
  have w: "w_queue (h_works t i) = (if i = next_wid s then q else w_queue (h_works s i))" for i
    by (simp add: f)
  have c: "completed t r = completed s r" for r
    using d(4) by (auto simp: completed_def f w intro!: filter_cong)
  have lt: "filter (\<lambda>i. w_queue (h_works t i) = r) [0..<next_wid s] =
      filter (\<lambda>i. w_queue (h_works s i) = r) [0..<next_wid s]" for r
    by (rule filter_cong) (auto simp: w)
  have "completed t r @ q_queue (h_queues t r) = filter (\<lambda>i. w_queue (h_works t i) = r) [0..<next_wid t]" if "r < 4" for r
  proof -
    have "filter (\<lambda>i. w_queue (h_works t i) = r) [0..<next_wid t] =
        (completed s r @ q_queue (h_queues s r)) @ (if r = q then [next_wid s] else [])"
      unfolding f(4) d(8) [OF that] lt [symmetric] by (simp add: w)
    then show ?thesis by (simp add: c f(5))
  qed
  moreover have "\<exists>j. (jobs(next_wid s \<mapsto> job)) i = Some j \<and> nm_queues (nm_queue j) = Some (w_queue (h_works t i))"
    if "i < next_wid t" for i
    using that d(7) [of i] q by (auto simp: f(4) w less_Suc_eq)
  moreover have "w_timeout (h_works t i) = Infinity" if "i < next_wid t" for i
    using that d(6) [of i] by (auto simp: f less_Suc_eq)
  moreover have "q_priority (h_queues t r) = nm_priority r \<and> \<not> q_blocked (h_queues t r) \<and> \<not> q_marked (h_queues t r)"
    if "r < 4" for r
    using d(5) [OF that] by (auto simp: f(5))
  moreover have "queue_map t = nm_queues" "timedOutQueue t = []" "unblock_list t = []"
    "\<forall>i \<in> set (done_of (h_log t)). i < next_wid t"
    using sh d(1-4) by (auto simp: same_shape_def f less_SucI)
  ultimately show ?thesis unfolding nm_handler_def by blast
qed

lemma nm_post_locked:
  assumes nm: "nm_handler s jobs" and ok: "handler_ok s"
    and p: "post_locked s (nm_queue job) n b Infinity False = Inr (t, r)"
  shows "nm_handler t (if next_wid t = next_wid s then jobs else jobs(next_wid s \<mapsto> job))"
proof -
  obtain q where q: "nm_queues (nm_queue job) = Some q" using nm_queue_some by blast
  have "t = s \<or> post_insert s q n Infinity False = Inr t"
    using p nm_handlerD(1) [OF nm] q
    by (auto simp: post_locked_def post_cond_def split: sum.splits if_splits)
  then show ?thesis using nm nm_post_insert [OF nm q] post_insert_next [of s q n Infinity False t] by auto
qed

lemma nm_post_step:
  assumes nm: "nm_handler s jobs" and ok: "handler_ok s"
    and p: "post s (nm_queue job) n b now Infinity False = Inr (t, r)"
  shows "nm_handler t (if next_wid t = next_wid s then jobs else jobs(next_wid s \<mapsto> job))"
proof -
  have "t = s \<or> post_locked s (nm_queue job) n b Infinity False = Inr (t, r)"
    using p by (auto simp: post_def split: if_splits)
  then show ?thesis using nm nm_post_locked [OF nm ok] by (elim disjE) (simp, blast)
qed

lemma nm_timeout_step:
  assumes nm: "nm_handler s jobs" and ok: "handler_ok s"
  shows "fst (timeout_thread_step (At now) s) = s"
proof -
  have "w_timeout (h_works s i) = Infinity" if "i \<in> set (timeoutQueue s)" for i
  proof -
    have "queued s i" "wf_works s" using that ok by (auto simp: handler_ok_def handler_core_def wf_works_def)
    then have "i < next_wid s" by (auto simp: queued_def wf_works_def)
    then show ?thesis by (rule nm_handlerD(6) [OF nm])
  qed
  then show ?thesis by (cases "timeoutQueue s") (auto simp: timeout_thread_step_def)
qed

lemma nm_never_next:
  assumes nm: "nm_handler s jobs" and ok: "handler_ok s" and sm: "handler_small s" and idle: "worker_idle s"
  shows "work_thread_begin s \<noteq> Next t"
proof
  assume nx: "work_thread_begin s = Next t"
  note d = nm_handlerD [OF nm]
  have sv: "serve_queue s = Next t" and w: "work_thread_ready s"
    "\<not> (h_state s = STOPPED \<or> (h_state s = STOPPING \<and> unblocked_work s = 0))"
    using nx d(2,3) by (auto simp: work_thread_begin_def split: if_splits)
  from serve_queue_cases [OF ok sm worker_has_work [OF w(1) d(3,2) idle w(2)]] show False
  proof cases
    case (2 q u)
    then show False using d(5) [of q] nm_live [OF nm ok, of q] by simp
  qed (use sv in simp)
qed

lemma nm_run_step:
  assumes nm: "nm_handler s jobs" and ok: "handler_ok s" and sm: "handler_small s" and idle: "worker_idle s"
    and rn: "work_thread_begin s = Run t"
  shows "nm_handler t jobs"
proof -
  from work_run_cases [OF ok sm idle rn] obtain q w s1 where
    "t = s1\<lparr>h_works := (h_works s1)(w := (h_works s1 w)\<lparr>w_running := True\<rparr>),
            h_running := Some (q_priority (h_queues s q), w)\<rparr>"
    "s1 = s\<lparr>current_priority := q_priority (h_queues s q),
            queueIters := (queueIters s)(q_priority (h_queues s q) \<mapsto> q)\<rparr>" by metis
  then show ?thesis by (intro nm_handler_frame [OF nm]) auto
qed

lemma nm_end_step:
  assumes nm: "nm_handler s jobs" and ok: "handler_ok s" and run: "h_running s = Some (p, i)"
  shows "nm_handler (work_thread_end True s) jobs" "h_log (work_thread_end True s) = h_log s @ [Ran i True]"
    "i < next_wid s"
proof -
  note d = nm_handlerD [OF nm]
  let ?t = "work_thread_end True s"
  from work_end_cases [OF ok run, of True] obtain q ws where
    e: "q_queue (h_queues s q) = i # ws" "q \<in> live_queues s"
    "?t = (pop_queue_internal q s)\<lparr>
       queueIters := (queueIters (pop_queue_internal q s))(p \<mapsto> next_cycle q (work_queues (h_levels s p))),
       h_running := None, h_log := h_log (pop_queue_internal q s) @ [Ran i True]\<rparr>" by metis
  have sh: "same_shape s ?t" by (simp add: e(3) pop_queue_internal_def uncount_work_def Let_def same_shape_def)
  have t: "h_works ?t = h_works s" "next_wid ?t = next_wid s" "h_log ?t = h_log s @ [Ran i True]"
    "timedOutQueue ?t = []" "unblock_list ?t = []"
    "h_queues ?t = (h_queues s)(q := (h_queues s q)\<lparr>q_queue := ws, q_size := q_size (h_queues s q) - w_size (h_works s i)\<rparr>)"
    by (simp_all add: e(1,3) pop_queue_internal_def uncount_work_def Let_def d(2,3))
  have "wf_works s" using ok by (simp add: handler_ok_def handler_core_def)
  with e(1,2) have w: "i < next_wid s" "w_queue (h_works s i) = q" by (auto simp: wf_works_def)
  have "completed ?t r = completed s r @ (if r = q then [i] else [])" for r
    using w(2) by (simp add: completed_def t(1,3))
  then have "completed ?t r @ q_queue (h_queues ?t r) = completed s r @ q_queue (h_queues s r)" for r
    using e(1) by (simp add: t(6))
  with d sh w(1) show "nm_handler ?t jobs"
    unfolding nm_handler_def t(1-5) by (auto simp: t(6) same_shape_def)
  show "h_log ?t = h_log s @ [Ran i True]" "i < next_wid s" by (rule t(3), rule w(1))
qed

section \<open>The steps of the wrapper\<close>

text \<open>
  What the wrapper knows: the queues are as above, and the plugin has been called with the jobs that are finished, and with
  the one at which the process was aborted.
\<close>

definition nm_made :: "nm_wrapper \<Rightarrow> nm_job list" where
  "nm_made w = filter (\<lambda>j. j \<noteq> NJWait) (map (the \<circ> nm_jobs w) (done_of (h_log (nmHandler w))))"

definition nm_ok :: "nm_wrapper \<Rightarrow> bool" where
  "nm_ok w \<longleftrightarrow> nm_handler (nmHandler w) (nm_jobs w) \<and> (\<not> nm_crashed w \<longrightarrow> nm_calls w = nm_made w)"

text \<open>Requests and reports of the SDK, the threads of the handler, and the rest of the SDK. Nothing follows a crash.\<close>

inductive nm_op :: "nm_wrapper \<Rightarrow> nm_wrapper \<Rightarrow> bool" where
  no_clr: "nm_processClrMsg E handle msg b now w = Returned r t \<Longrightarrow> nm_op w t"
| no_enc: "nm_processEncPkg E handle pkg cs b now w = Returned r t \<Longrightarrow> nm_op w t"
| no_prepare: "nm_prepareToBootstrap handle l path info b now w = Returned r t \<Longrightarrow> nm_op w t"
| no_bootstrap_pkg: "nm_onBootstrapPkgReceived persona bytes b now w = Returned r t \<Longrightarrow> nm_op w t"
| no_bootstrap: "nm_onBootstrapFinished handle st now w = Returned ok t \<Longrightarrow> nm_op w t"
| no_package: "nm_onPackageStatusChanged handle ps b now w = Returned r t \<Longrightarrow> nm_op w t"
| no_connection: "nm_onConnectionStatusChanged handle c cst l props b now w = Returned r t \<Longrightarrow> nm_op w t"
| no_link: "nm_onLinkStatusChanged handle l lst props b now w = Returned r t \<Longrightarrow> nm_op w t"
| no_channel: "nm_onChannelStatusChanged handle gid chst chprops b now w = Returned r t \<Longrightarrow> nm_op w t"
| no_link_props: "nm_onLinkPropertiesChanged l props b now w = Returned r t \<Longrightarrow> nm_op w t"
| no_persona: "nm_onPersonaLinksChanged persona ty links b now w = Returned r t \<Longrightarrow> nm_op w t"
| no_input: "nm_onUserInputReceived handle yes response b now w = Returned r t \<Longrightarrow> nm_op w t"
| no_ack: "nm_onUserAcknowledgementReceived handle b now w = Returned r t \<Longrightarrow> nm_op w t"
| no_epoch: "nm_notifyEpoch data b now w = Returned r t \<Longrightarrow> nm_op w t"
| no_shutdown: "nm_shutdown now w = Returned r t \<Longrightarrow> nm_op w t"
| no_wait: "nm_waitForCallbacks now w = Returned r2 t \<Longrightarrow> nm_op w t"
| no_again: "nm_post_again (nm_queue job) n job w = Returned r2 t \<Longrightarrow> n \<le> max_queue_size (nmHandler w) \<Longrightarrow>
    n \<le> max_total_size (nmHandler w) \<Longrightarrow> nm_op w t"
| no_sdk: "nm_op w (w\<lparr>nmSdk := s\<rparr>)"
| no_start: "nm_startHandler w = Inr t \<Longrightarrow> nm_op w t"
| no_stop: "nm_op w (nm_stopHandler_begin w)"
| no_timeout: "h_state (nmHandler w) = STARTED \<Longrightarrow> nm_op w (nm_timeout_thread now w)"
| no_next: "work_thread_begin (nmHandler w) = Next h \<Longrightarrow> worker_idle (nmHandler w) \<Longrightarrow> nm_op w (w\<lparr>nmHandler := h\<rparr>)"
| no_run: "work_thread_begin (nmHandler w) = Run h \<Longrightarrow> worker_idle (nmHandler w) \<Longrightarrow> nm_op w (w\<lparr>nmHandler := h\<rparr>)"
| no_end: "h_running (nmHandler w) \<noteq> None \<Longrightarrow> nm_op w (nm_thread_end order answer w)"

definition nm_step :: "nm_wrapper \<Rightarrow> nm_wrapper \<Rightarrow> bool" where
  "nm_step w t \<longleftrightarrow> nm_op w t \<and> \<not> nm_crashed w \<and> handler_small (nmHandler w) \<and> handler_small (nmHandler t)"

text \<open>What a step has to show: its handler makes a step, or none, and \<open>nm_ok\<close> is kept.\<close>

definition nm_moves :: "nm_wrapper \<Rightarrow> nm_wrapper \<Rightarrow> bool" where
  "nm_moves w t \<longleftrightarrow> (nmHandler t = nmHandler w \<or> handler_op (nmHandler w) (nmHandler t)) \<and> nm_ok t"

lemma nm_ok_posted: "nm_ok w \<Longrightarrow> all_posted (nmHandler w) (nm_jobs w)"
  by (auto simp: nm_ok_def all_posted_def dest!: nm_handlerD(7))

lemma nm_ok_cong:
  assumes "nm_ok w" "nm_handler h (nm_jobs w)" "done_of (h_log h) = done_of (h_log (nmHandler w))"
  shows "nm_ok (w\<lparr>nmHandler := h\<rparr>)"
  using assms by (simp add: nm_ok_def nm_made_def)

lemma nm_made_upd:
  assumes "nm_handler (nmHandler w) (nm_jobs w)" "h_log h = h_log (nmHandler w)"
  shows "nm_made (w\<lparr>nmHandler := h, nm_jobs := (nm_jobs w)(next_wid (nmHandler w) \<mapsto> job)\<rparr>) = nm_made w"
  unfolding nm_made_def using assms
  by (auto intro!: arg_cong [where f = "filter _"] map_cong dest!: nm_handlerD(4))

lemma nm_post_Raised: "nm_post name n b now job w = Raised e t \<Longrightarrow> t = w"
  unfolding nm_post_def nm_posted_def by (rule posted_as_Raised)

lemma post_locked_log: "post_locked s name n b ts cb = Inr (h, r) \<Longrightarrow> h_log h = h_log s"
  by (auto simp: post_locked_def post_insert_fields(14) split: sum.splits if_splits)

lemma post_log: "post s name n b now Infinity False = Inr (h, r) \<Longrightarrow> h_log h = h_log s"
  by (auto simp: post_def dest: post_locked_log split: if_splits)

lemma nm_posted_moves:
  assumes ok: "nm_ok w" and p: "nm_posted r job w = Returned x t"
    and r: "\<And>h y. r = Inr (h, y) \<Longrightarrow> handler_op (nmHandler w) h \<and> h_log h = h_log (nmHandler w) \<and>
      nm_handler h (if next_wid h = next_wid (nmHandler w) then nm_jobs w else (nm_jobs w)(next_wid (nmHandler w) \<mapsto> job))"
  shows "nm_moves w t"
proof -
  from p obtain h st n where h: "r = Inr (h, Posted st n)" and t: "t = w\<lparr>nmHandler := h, nm_jobs :=
      (if next_wid h = next_wid (nmHandler w) then nm_jobs w else (nm_jobs w)(next_wid (nmHandler w) \<mapsto> job))\<rparr>"
    unfolding nm_posted_def by (elim posted_asE) auto
  have nm: "nm_handler (nmHandler w) (nm_jobs w)" using ok by (simp add: nm_ok_def)
  note h = r [OF h]
  show ?thesis
  proof (cases "next_wid h = next_wid (nmHandler w)")
    case True
    with h ok show ?thesis by (simp add: t nm_moves_def nm_ok_def nm_made_def)
  next
    case False
    with h ok nm_made_upd [OF nm, of h job] show ?thesis by (simp add: t nm_moves_def nm_ok_def)
  qed
qed

lemma nm_post_moves:
  assumes "nm_ok w" "handler_ok (nmHandler w)" "nm_post (nm_queue job) n b now job w = Returned x t"
  shows "nm_moves w t"
proof -
  have "nm_handler (nmHandler w) (nm_jobs w)" using assms(1) by (simp add: nm_ok_def)
  from nm_post_step [OF this assms(2)] assms(3) show ?thesis
    unfolding nm_post_def by (elim nm_posted_moves [OF assms(1)]) (blast intro: op_post dest: post_log)
qed

lemma nm_request_moves:
  assumes "nm_ok w" "handler_ok (nmHandler w)" "nm_request name n job b now w = Returned x t" "name = nm_queue job"
  shows "nm_moves w t"
proof (cases "nm_post (nm_queue job) n b now job w")
  case (Returned y v)
  then have "t = v" using assms(3,4) by (auto simp: nm_request_def answered_def split: prod.splits)
  then show ?thesis using nm_post_moves [OF assms(1,2) Returned] by simp
next
  case (Raised e v)
  then have "t = w" using nm_post_Raised [OF Raised] assms(3,4) by (auto simp: nm_request_def answered_def split: if_splits)
  then show ?thesis using assms(1) by (simp add: nm_moves_def)
next
  case Blocks
  then show ?thesis using assms(3,4) by (simp add: nm_request_def answered_def)
qed

lemma nm_frame_moves:
  assumes "nm_ok w" "handler_op (nmHandler w) h" "nm_handler h (nm_jobs w)"
    "done_of (h_log h) = done_of (h_log (nmHandler w))"
  shows "nm_moves w (w\<lparr>nmHandler := h\<rparr>)"
  using assms nm_ok_cong [OF assms(1,3,4)] by (simp add: nm_moves_def)

lemma nm_end_moves:
  assumes ok: "nm_ok w" and hok: "handler_ok (nmHandler w)" and run: "h_running (nmHandler w) = Some (p, i)"
    and live: "\<not> nm_crashed w"
  shows "nm_moves w (nm_thread_end order answer w)"
proof -
  have nm: "nm_handler (nmHandler w) (nm_jobs w)" and calls: "nm_calls w = nm_made w"
    using ok live by (simp_all add: nm_ok_def)
  note e = nm_end_step [OF nm hok run]
  obtain job where job: "nm_jobs w i = Some job" using nm_handlerD(7) [OF nm e(3)] by blast
  obtain res v where v: "run_nm_job order answer job w = (res, v)" by (cases "run_nm_job order answer job w")
  then have f: "nmHandler v = nmHandler w" "nm_jobs v = nm_jobs w" "res \<noteq> None"
    "\<not> nm_crashed v \<Longrightarrow> nm_calls v = nm_calls w @ (if job = NJWait then [] else [job])"
    by (auto simp: run_nm_job_def nm_crash_def Let_def split: if_splits)
  show ?thesis
  proof (cases "nm_crashed v")
    case True
    then show ?thesis using nm by (simp add: nm_thread_end_def run job v nm_moves_def nm_ok_def f)
  next
    case False
    then have t: "nm_thread_end order answer w = v\<lparr>nmHandler := work_thread_end True (nmHandler w)\<rparr>"
      using f(1,3) by (auto simp: nm_thread_end_def run job v)
    have "nm_made (nm_thread_end order answer w) = nm_made w @ (if job = NJWait then [] else [job])"
      by (simp add: t nm_made_def f(2) e(2) job)
    then show ?thesis using e(1) f(4) [OF False] run calls
      by (simp add: t nm_moves_def nm_ok_def f(2) op_finish)
  qed
qed

lemma nm_op_moves:
  assumes op: "nm_op w t" and live: "\<not> nm_crashed w" and ok: "nm_ok w"
    and hok: "handler_ok (nmHandler w)" and sm: "handler_small (nmHandler w)"
  shows "nm_moves w t"
proof -
  have nm: "nm_handler (nmHandler w) (nm_jobs w)" using ok by (simp add: nm_ok_def)
  note R = nm_request_moves [OF ok hok]
  from op show ?thesis
  proof cases
    case (no_bootstrap handle st now res)
    have "nm_moves w w" using ok by (simp add: nm_moves_def)
    then show ?thesis using no_bootstrap nm_post_moves [OF ok hok, of "NJBootstrapFinished handle st"]
      by (auto simp: nm_onBootstrapFinished_def dest: nm_post_Raised split: call_result.splits)
  next
    case no_wait
    then show ?thesis using nm_post_moves [OF ok hok, of NJWait] by (simp add: nm_waitForCallbacks_def)
  next
    case (no_again job n r2)
    have "nm_handler h (if next_wid h = next_wid (nmHandler w) then nm_jobs w else (nm_jobs w)(next_wid (nmHandler w) \<mapsto> job))"
      if "post_locked (nmHandler w) (nm_queue job) n True Infinity False = Inr (h, y)" for h y
      using nm_post_locked [OF nm hok that] .
    then show ?thesis using no_again unfolding nm_post_again_def
      by (elim nm_posted_moves [OF ok]) (blast intro: op_post_again dest: post_locked_log)
  next
    case (no_sdk s)
    then show ?thesis using ok by (simp add: nm_moves_def nm_ok_def nm_made_def)
  next
    case no_start
    then obtain h where h: "start (nmHandler w) = Inr h" "t = w\<lparr>nmHandler := h\<rparr>"
      by (auto simp: nm_startHandler_def split: sum.splits)
    moreover from h(1) have "nm_handler h (nm_jobs w)"
      by (intro nm_handler_frame [OF nm]) (auto simp: start_def split: if_splits)
    moreover from h(1) have "h_log h = h_log (nmHandler w)" by (auto simp: start_def split: if_splits)
    ultimately show ?thesis using nm_frame_moves [OF ok op_start] by simp
  next
    case no_stop
    have "nm_handler (fst (stop_begin (nmHandler w))) (nm_jobs w)"
      by (intro nm_handler_frame [OF nm]) (simp_all add: stop_begin_def)
    then show ?thesis using no_stop nm_frame_moves [OF ok op_stop [OF surjective_pairing]]
      by (simp add: nm_stopHandler_begin_def stop_begin_def)
  next
    case (no_timeout now)
    then show ?thesis using nm_timeout_step [OF nm hok] ok by (simp add: nm_timeout_thread_def nm_moves_def)
  next
    case (no_next h)
    then show ?thesis using nm_never_next [OF nm hok sm] by blast
  next
    case (no_run h)
    from work_run_cases [OF hok sm no_run(3,2)] have "h_log h = h_log (nmHandler w)" by cases simp
    then show ?thesis using no_run nm_frame_moves [OF ok op_run nm_run_step [OF nm hok sm]] by simp
  next
    case (no_end order answer)
    then show ?thesis using nm_end_moves [OF ok hok _ live] by auto
  qed (auto intro: R simp: nm_processClrMsg_def nm_processEncPkg_def nm_prepareToBootstrap_def
      nm_onBootstrapPkgReceived_def nm_onPackageStatusChanged_def nm_onConnectionStatusChanged_def
      nm_onLinkStatusChanged_def nm_onChannelStatusChanged_def nm_onLinkPropertiesChanged_def
      nm_onPersonaLinksChanged_def nm_onUserInputReceived_def nm_onUserAcknowledgementReceived_def
      nm_notifyEpoch_def nm_shutdown_def Let_def)
qed

lemma nm_op_sim:
  assumes "nm_op w t \<and> \<not> nm_crashed w" "handler_step\<^sup>*\<^sup>* (new_handler mq mt) (nmHandler w)"
    "handler_small (nmHandler w)" "handler_small (nmHandler t)" "nm_ok w"
  shows "handler_step\<^sup>*\<^sup>* (nmHandler w) (nmHandler t) \<and> all_posted (nmHandler t) (nm_jobs t) \<and> nm_ok t"
proof -
  have "nm_moves w t" using nm_op_moves assms(1,3,5) reachable_ok [OF assms(2)] by blast
  then show ?thesis using nm_ok_posted assms(3,4) by (auto simp: nm_moves_def handler_step_def)
qed

lemma nm_new_ok:
  assumes "new_nm_wrapper mq mt s = Inr w"
  shows "handler_step\<^sup>*\<^sup>* (new_handler mq mt) (nmHandler w) \<and> nm_ok w"
proof -
  obtain h h2 h3 where h: "create_queue (new_handler mq mt) ''receive'' (- 2) = Inr h"
      "create_queue h ''callback'' (- 1) = Inr h2" "create_queue h2 ''wait queue'' (- (2 ^ 31)) = Inr h3"
    and w: "w = \<lparr>nmSdk = s, nmHandler = h3, nm_jobs = (\<lambda>_. None), nm_calls = [], nm_crashed = False\<rparr>"
    using assms by (auto simp: new_nm_wrapper_def nm_construct_def nm_createQueue_def split: sum.splits)
  have n: "next_qid (new_handler mq mt) = 1" "queue_map (new_handler mq mt) = [[] \<mapsto> 0]"
    "timedOutQueue (new_handler mq mt) = []" "unblock_list (new_handler mq mt) = []"
    "next_wid (new_handler mq mt) = 0" "h_log (new_handler mq mt) = []"
    "q_priority (h_queues (new_handler mq mt) 0) = 0" "\<not> q_blocked (h_queues (new_handler mq mt) q)"
    "\<not> q_marked (h_queues (new_handler mq mt) q)" for q
    by (simp_all add: demo_ops)
  have u: "unblock_list t = unblock_list v" if "create_queue v name p = Inr t" for v t name p
    using that by (auto simp: create_queue_def emplace_queue_def emplace_level_def Let_def split: if_splits)
  note f1 = create_queue_fields [OF h(1)] and f2 = create_queue_fields [OF h(2)] and f3 = create_queue_fields [OF h(3)]
  have q: "next_qid h = 2" "next_qid h2 = 3" using f1(6) f2(6) n(1) by simp_all
  have r1: "handler_step\<^sup>*\<^sup>* (new_handler mq mt) h"
    using create_queues_reach [OF h(1) rtranclp.rtrancl_refl] n(1) by simp
  have r2: "handler_step\<^sup>*\<^sup>* (new_handler mq mt) h2" using create_queues_reach [OF h(2) r1] q(1) by simp
  have r3: "handler_step\<^sup>*\<^sup>* (new_handler mq mt) h3" using create_queues_reach [OF h(3) r2] q(2) by simp
  have m: "queue_map h3 = nm_queues" unfolding f3(3) f2(3) f1(3) n q nm_queues_def by simp
  have qs: "h_queues h3 = (h_queues (new_handler mq mt))(1 := new_work_queue ''receive'' (- 2),
      2 := new_work_queue ''callback'' (- 1), 3 := new_work_queue ''wait queue'' (- (2 ^ 31)))"
    unfolding f3(5) f2(5) f1(5) n q ..
  have o: "timedOutQueue h3 = []" "unblock_list h3 = []" "next_wid h3 = 0" "h_log h3 = []"
    by (simp_all add: f1(17,19,21) f2(17,19,21) f3(17,19,21) n u [OF h(1)] u [OF h(2)] u [OF h(3)])
  have "q_priority (h_queues h3 r) = nm_priority r \<and> \<not> q_blocked (h_queues h3 r) \<and> \<not> q_marked (h_queues h3 r) \<and>
      q_queue (h_queues h3 r) = []" if "r < 4" for r
  proof -
    have "r \<in> {0, 1, 2, 3}" using that by auto
    then show ?thesis using n(7-9) new_handler_fields(2)
      by (elim insertE) (simp_all add: qs new_work_queue_def nm_priority_def)
  qed
  then have "nm_handler h3 (\<lambda>_. None)" using m o by (simp add: nm_handler_def completed_def)
  then show ?thesis using r3 o by (simp add: w nm_ok_def nm_made_def)
qed

interpretation nm: handler_client nmHandler nm_jobs "\<lambda>w t. nm_op w t \<and> \<not> nm_crashed w"
  "\<lambda>mq mt w. \<exists>s. new_nm_wrapper mq mt s = Inr w" nm_ok
  by unfold_locales (use nm_new_ok nm_ok_posted nm_op_sim in blast)+

lemma nm_reachable:
  assumes "new_nm_wrapper mq mt s = Inr w" "nm_step\<^sup>*\<^sup>* w t"
  shows "handler_ok (nmHandler t) \<and> handler_small (nmHandler t) \<and> nm_ok t"
proof -
  have "(\<lambda>w t. (nm_op w t \<and> \<not> nm_crashed w) \<and> handler_small (nmHandler w) \<and> handler_small (nmHandler t))\<^sup>*\<^sup>* w t"
    using assms(2) by (simp add: nm_step_def [abs_def])
  from nm.reachable [OF this] assms(1) show ?thesis using reachable_ok reachable_small by blast
qed

section \<open>Calls are made once and in order\<close>

definition nm_waiting :: "nm_wrapper \<Rightarrow> string \<Rightarrow> nm_job list" where
  "nm_waiting w name = (case queue_map (nmHandler w) name of None \<Rightarrow> []
     | Some q \<Rightarrow> map (the \<circ> nm_jobs w) (q_queue (h_queues (nmHandler w) q)))"

definition nm_accepted :: "nm_wrapper \<Rightarrow> nm_job list" where
  "nm_accepted w = map (the \<circ> nm_jobs w) [0..<next_wid (nmHandler w)]"

lemma nm_queue_filter:
  assumes nm: "nm_handler s jobs" and q: "nm_queues name = Some q" and xs: "\<And>i. i \<in> set xs \<Longrightarrow> i < next_wid s"
  shows "filter (\<lambda>j. nm_queue j = name) (map (the \<circ> jobs) xs) =
    map (the \<circ> jobs) (filter (\<lambda>i. w_queue (h_works s i) = q) xs)"
proof -
  have "nm_queue (the (jobs i)) = name \<longleftrightarrow> w_queue (h_works s i) = q" if "i < next_wid s" for i
    using nm_handlerD(7) [OF nm that] q by (auto simp: nm_queues_def split: if_splits)
  then have "filter ((\<lambda>j. nm_queue j = name) \<circ> (the \<circ> jobs)) xs = filter (\<lambda>i. w_queue (h_works s i) = q) xs"
    using xs by (intro filter_cong) auto
  then show ?thesis by (simp add: filter_map)
qed

lemma nm_account:
  assumes nm: "nm_handler (nmHandler w) (nm_jobs w)" and name: "name \<noteq> ''wait queue''"
  shows "filter (\<lambda>j. nm_queue j = name) (nm_made w) @ nm_waiting w name =
    filter (\<lambda>j. nm_queue j = name) (nm_accepted w)"
proof (cases "nm_queues name")
  case None
  have "nm_queue j \<noteq> name" for j using nm_queue_some [of j] None by auto
  then show ?thesis using None nm_handlerD(1) [OF nm] by (simp add: nm_waiting_def)
next
  case (Some q)
  let ?s = "nmHandler w"
  note d = nm_handlerD [OF nm]
  have "nm_queue j = name \<Longrightarrow> j \<noteq> NJWait" for j using name by auto
  then have "filter (\<lambda>j. nm_queue j = name) (nm_made w) =
      filter (\<lambda>j. nm_queue j = name) (map (the \<circ> nm_jobs w) (done_of (h_log ?s)))"
    by (auto simp: nm_made_def intro: filter_cong)
  also have "\<dots> = map (the \<circ> nm_jobs w) (completed ?s q)"
    using nm_queue_filter [OF nm Some] d(4) by (simp add: completed_def)
  finally have "filter (\<lambda>j. nm_queue j = name) (nm_made w) @ nm_waiting w name =
      map (the \<circ> nm_jobs w) (completed ?s q @ q_queue (h_queues ?s q))"
    by (simp add: nm_waiting_def d(1) Some)
  also have "\<dots> = map (the \<circ> nm_jobs w) (filter (\<lambda>i. w_queue (h_works ?s i) = q) [0..<next_wid ?s])"
    unfolding d(8) [OF nm_queues_lt [OF Some]] ..
  also have "\<dots> = filter (\<lambda>j. nm_queue j = name) (nm_accepted w)"
    unfolding nm_accepted_def by (rule nm_queue_filter [OF nm Some, symmetric]) simp
  finally show ?thesis .
qed

text \<open>
  C11: The network manager gets every call once and in order: for each queue, the calls made so far
  followed by those that wait are exactly the calls that were accepted, in the order they were posted.
\<close>

theorem nm_delivers:
  assumes "new_nm_wrapper mq mt s = Inr w" "nm_step\<^sup>*\<^sup>* w t" "\<not> nm_crashed t" "name \<noteq> ''wait queue''"
  shows "filter (\<lambda>j. nm_queue j = name) (nm_calls t) @ nm_waiting t name =
    filter (\<lambda>j. nm_queue j = name) (nm_accepted t)"
proof -
  have "nm_ok t" using nm_reachable [OF assms(1,2)] by simp
  then show ?thesis using nm_account [of t name] assms(3,4) by (simp add: nm_ok_def)
qed

text \<open>
  C12: Reports come first: when a received package or message is handed to the network manager, all
  reports of the SDK that were accepted before have been handed over, and all calls on the default queue.
\<close>

theorem nm_reports_first:
  assumes "new_nm_wrapper mq mt s = Inr w" "nm_step\<^sup>*\<^sup>* w t" "\<not> nm_crashed t" "worker_idle (nmHandler t)"
    and run: "work_thread_begin (nmHandler t) = Run h" "h_running h = Some (p, i)" "nm_jobs t i = Some job"
    and receive: "nm_queue job = ''receive''"
  shows "filter (\<lambda>j. nm_queue j = ''callback'') (nm_calls t) = filter (\<lambda>j. nm_queue j = ''callback'') (nm_accepted t) \<and>
    filter (\<lambda>j. nm_queue j = []) (nm_calls t) = filter (\<lambda>j. nm_queue j = []) (nm_accepted t) \<and>
    nm_waiting t ''receive'' \<noteq> [] \<and> hd (nm_waiting t ''receive'') = job"
proof -
  let ?s = "nmHandler t"
  have ok: "handler_ok ?s" "handler_small ?s" "nm_handler ?s (nm_jobs t)" "nm_calls t = nm_made t"
    using nm_reachable [OF assms(1,2)] assms(3) by (simp_all add: nm_ok_def)
  note d = nm_handlerD [OF ok(3)]
  obtain q ws where q: "q \<in> live_queues ?s" "q_queue (h_queues ?s q) = i # ws" "i < next_wid ?s"
      "w_queue (h_works ?s i) = q"
    and top: "\<And>r. r \<in> live_queues ?s \<Longrightarrow> queue_eligible (h_queues ?s r) \<Longrightarrow>
       q_priority (h_queues ?s r) \<le> q_priority (h_queues ?s q)"
    using run_front [OF ok(1,2) assms(4) run(1,2)] by metis
  then have one: "q = 1" using d(7) [OF q(3)] run(3) receive by (auto simp: nm_queues_def)
  have empty: "q_queue (h_queues ?s r) = []" if "r = 0 \<or> r = 2" for r
  proof (rule ccontr)
    assume "q_queue (h_queues ?s r) \<noteq> []"
    then have "queue_eligible (h_queues ?s r)" "r \<in> live_queues ?s"
      using d(5) [of r] that nm_live [OF ok(3,1), of r] by (auto simp: queue_eligible_def)
    then have "nm_priority r \<le> nm_priority 1" using top [of r] d(5) [of r] d(5) [of 1] that by (auto simp: one)
    then show False using that by (auto simp: nm_priority_def)
  qed
  have "nm_waiting t [] = []" "nm_waiting t ''callback'' = []" "nm_waiting t ''receive'' = job # map (the \<circ> nm_jobs t) ws"
    using empty q(2) run(3) by (simp_all add: nm_waiting_def d(1) nm_queues_def one)
  then show ?thesis using nm_account [OF ok(3), of "[]"] nm_account [OF ok(3), of "''callback''"] ok(4) by simp
qed

end
