(* ===== verification/Nm_Wrapper_Runs.thy ===== *)
theory Nm_Wrapper_Runs
  imports Nm_Wrapper_Props Race_Sdk_Runs
begin

text \<open>
  The wrapper of the network manager, continued: the worker empties the queues, also when the plugin has been shut
  down and the handler is stopping; and runs of the wrapper, evaluated in the kernel.
\<close>

section \<open>The worker empties the queues\<close>

lemma nm_unblocked:
  assumes nm: "nm_handler s jobs" and ok: "handler_ok s"
  shows "unblocked_work s = of_nat (nat (total_work s))"
    and "total_work s = (\<Sum>q\<in>live_queues s. int (length (q_queue (h_queues s q))))"
proof -
  note c = handler_coreD [of s]
  have core: "handler_core s" using ok by (simp add: handler_ok_def)
  show t: "total_work s = (\<Sum>q\<in>live_queues s. int (length (q_queue (h_queues s q))))"
    using c(7) [OF core] by (simp add: wf_sizes_def)
  have "unblocked_work s = (\<Sum>q\<in>live_queues s. unblocked_of (h_queues s q))"
    using c(5) [OF core] by (simp add: wf_counts_def)
  also have "\<dots> = (\<Sum>q\<in>live_queues s. of_nat (length (q_queue (h_queues s q))))"
    using nm_handlerD(5) [OF nm] nm_live [OF nm ok] by (intro sum.cong) (auto simp: unblocked_of_def)
  also have "\<dots> = of_nat (nat (int (\<Sum>q\<in>live_queues s. length (q_queue (h_queues s q)))))"
    by (subst nat_int) (simp only: of_nat_sum)
  also have "int (\<Sum>q\<in>live_queues s. length (q_queue (h_queues s q))) = total_work s"
    unfolding t by (simp only: of_nat_sum)
  finally show "unblocked_work s = of_nat (nat (total_work s))" .
qed

lemma nm_worker_runs:
  assumes nm: "nm_handler s jobs" and ok: "handler_ok s" and sm: "handler_small s" and idle: "worker_idle s"
    and st: "h_state s = STARTED \<or> h_state s = STOPPING" and work: "total_work s > 0"
  shows "\<exists>t. work_thread_begin s = Run t"
proof -
  note d = nm_handlerD [OF nm]
  have "nat (total_work s) < 2 ^ 64" using sm work by (simp add: handler_small_def nat_less_iff)
  then have "unblocked_work s \<noteq> 0"
    using work unfolding nm_unblocked(1) [OF nm ok] by (simp only: of_nat_u64_eq_0)
  then have u: "unblocked_work s > 0" by (simp add: word_greater_zero_iff)
  then have b: "work_thread_begin s = serve_queue s"
    using d(2,3) st by (auto simp: work_thread_begin_def work_thread_ready_def)
  have "\<exists>t. serve_queue s = Run t \<or> serve_queue s = Next t"
    by (rule serve_queue_cases [OF ok sm disjI1 [OF u]]) auto
  with b nm_never_next [OF nm ok sm idle] show ?thesis by auto
qed

text \<open>An iteration of the worker with the answer of the plugin.\<close>

definition nm_iteration :: "plugin_response \<Rightarrow> nm_wrapper \<Rightarrow> nm_wrapper" where
  "nm_iteration r w = (case work_thread_begin (nmHandler w) of
     Run h \<Rightarrow> nm_thread_end [] (NmResponded r) (w\<lparr>nmHandler := h\<rparr>) | _ \<Rightarrow> w)"

primrec nm_iterations :: "(nat \<Rightarrow> plugin_response) \<Rightarrow> nat \<Rightarrow> nm_wrapper \<Rightarrow> nm_wrapper" where
  "nm_iterations answers 0 w = w"
| "nm_iterations answers (Suc n) w = nm_iterations answers n (nm_iteration (answers n) w)"

definition nm_ready :: "nm_wrapper \<Rightarrow> bool" where
  "nm_ready w \<longleftrightarrow> \<not> nm_crashed w \<and> worker_idle (nmHandler w) \<and>
     (h_state (nmHandler w) = STARTED \<or> h_state (nmHandler w) = STOPPING)"

lemma run_fields:
  assumes "handler_ok s" "handler_small s" "worker_idle s" "work_thread_begin s = Run h"
  shows "total_work h = total_work s" "next_wid h = next_wid s" "h_state h = h_state s" "next_qid h = next_qid s"
    "\<exists>p i. h_running h = Some (p, i)"
  using work_run_cases [OF assms] by (cases; simp)+

lemma end_fields:
  assumes "handler_ok s" "h_running s = Some (p, i)"
  shows "total_work (work_thread_end True s) = total_work s - 1" "next_wid (work_thread_end True s) = next_wid s"
    "h_state (work_thread_end True s) = h_state s" "next_qid (work_thread_end True s) = next_qid s"
    "h_running (work_thread_end True s) = None"
  using work_end_cases [OF assms, of True] by (cases; simp add: pop_queue_internal_def uncount_work_def Let_def)+

lemma nm_iteration_ok:
  assumes nok: "nm_ok w" and ok: "handler_ok (nmHandler w)" and sm: "handler_small (nmHandler w)"
    and rd: "nm_ready w" and work: "total_work (nmHandler w) > 0" and r: "r \<noteq> PLUGIN_FATAL"
  shows "nm_step\<^sup>*\<^sup>* w (nm_iteration r w) \<and> nm_ready (nm_iteration r w) \<and>
    total_work (nmHandler (nm_iteration r w)) = total_work (nmHandler w) - 1 \<and>
    nm_accepted (nm_iteration r w) = nm_accepted w"
proof -
  have nm: "nm_handler (nmHandler w) (nm_jobs w)" using nok by (simp add: nm_ok_def)
  have idle: "worker_idle (nmHandler w)" and live: "\<not> nm_crashed w" using rd by (simp_all add: nm_ready_def)
  obtain h where h: "work_thread_begin (nmHandler w) = Run h"
    using nm_worker_runs [OF nm ok sm idle _ work] rd by (auto simp: nm_ready_def)
  note f = run_fields [OF ok sm idle h]
  obtain p i where run: "h_running h = Some (p, i)" using f(5) by blast
  have hok: "handler_ok h" using work_run_ok [OF ok sm idle h] .
  let ?v = "w\<lparr>nmHandler := h\<rparr>" and ?t = "nm_iteration r w"
  have nv: "nm_handler h (nm_jobs w)" by (rule nm_run_step [OF nm ok sm idle h])
  note e = nm_end_step [OF nv hok run] and g = end_fields [OF hok run]
  obtain job where job: "nm_jobs w i = Some job" using nm_handlerD(7) [OF nv e(3)] by blast
  have t: "?t = nm_thread_end [] (NmResponded r) ?v" by (simp add: nm_iteration_def h)
  obtain res v where v: "run_nm_job [] (NmResponded r) job ?v = (res, v)" by (cases "run_nm_job [] (NmResponded r) job ?v")
  then have vf: "nmHandler v = h" "nm_jobs v = nm_jobs w" "res \<noteq> None" "\<not> nm_crashed v"
    using r live by (auto simp: run_nm_job_def Let_def split: if_splits)
  then have tf: "nmHandler ?t = work_thread_end True h" "nm_jobs ?t = nm_jobs w" "\<not> nm_crashed ?t"
    using v run job by (auto simp: t nm_thread_end_def)
  have sm2: "handler_small h" "handler_small (nmHandler ?t)" using f g sm by (simp_all add: handler_small_def tf(1))
  have "nm_step w ?v" using no_run [OF h idle] live sm sm2 by (simp add: nm_step_def)
  moreover have "nm_step ?v ?t" unfolding t
    using no_end [of ?v] run live sm2 by (simp add: nm_step_def t)
  ultimately have "nm_step\<^sup>*\<^sup>* w ?t" by (meson rtranclp.rtrancl_into_rtrancl rtranclp.rtrancl_refl)
  moreover have "nm_ready ?t" using rd f g tf by (auto simp: nm_ready_def worker_idle_def)
  ultimately show ?thesis using f g tf by (simp add: nm_accepted_def)
qed

lemma nm_iterations_ok:
  assumes "new_nm_wrapper mq mt s = Inr w0" "nm_step\<^sup>*\<^sup>* w0 w" "nm_ready w"
    "nat (total_work (nmHandler w)) = n" "\<And>k. answers k \<noteq> PLUGIN_FATAL"
  shows "nm_step\<^sup>*\<^sup>* w (nm_iterations answers n w) \<and> nm_ready (nm_iterations answers n w) \<and>
    total_work (nmHandler (nm_iterations answers n w)) \<le> 0 \<and>
    nm_accepted (nm_iterations answers n w) = nm_accepted w"
  using assms
proof (induction n arbitrary: w)
  case (Suc n)
  note r = nm_reachable [OF Suc.prems(1,2)]
  have "total_work (nmHandler w) > 0" using Suc.prems(4) by simp
  with nm_iteration_ok [of w "answers n"] r Suc.prems(3,5)
  have i: "nm_step\<^sup>*\<^sup>* w (nm_iteration (answers n) w)" "nm_ready (nm_iteration (answers n) w)"
    "total_work (nmHandler (nm_iteration (answers n) w)) = total_work (nmHandler w) - 1"
    "nm_accepted (nm_iteration (answers n) w) = nm_accepted w" by simp_all
  have "nm_step\<^sup>*\<^sup>* w0 (nm_iteration (answers n) w)" using Suc.prems(2) i(1) by (rule rtranclp_trans)
  from Suc.IH [OF Suc.prems(1) this i(2) _ Suc.prems(5)] Suc.prems(4) i show ?case
    by (auto intro: rtranclp_trans)
qed simp

text \<open>
  C13: Every accepted call is made: while the worker runs, after as many iterations as calls wait the
  network manager has been called with everything that was accepted, and nothing waits. This also holds while the handler
  is stopping, so calls reach the plugin after its shutdown.
\<close>

theorem nm_drains:
  assumes "new_nm_wrapper mq mt s = Inr w" "nm_step\<^sup>*\<^sup>* w t" "nm_ready t" "\<And>k. answers k \<noteq> PLUGIN_FATAL"
    "name \<noteq> ''wait queue''"
  shows "filter (\<lambda>j. nm_queue j = name) (nm_calls (nm_iterations answers (nat (total_work (nmHandler t))) t)) =
    filter (\<lambda>j. nm_queue j = name) (nm_accepted t)"
proof -
  let ?u = "nm_iterations answers (nat (total_work (nmHandler t))) t"
  have i: "nm_step\<^sup>*\<^sup>* t ?u" "nm_ready ?u" "total_work (nmHandler ?u) \<le> 0" "nm_accepted ?u = nm_accepted t"
    using nm_iterations_ok [OF assms(1-3) refl assms(4)] by simp_all
  have r: "handler_ok (nmHandler ?u)" "nm_ok ?u"
    using nm_reachable [OF assms(1) rtranclp_trans [OF assms(2) i(1)]] by simp_all
  then have nm: "nm_handler (nmHandler ?u) (nm_jobs ?u)" "nm_calls ?u = nm_made ?u"
    using i(2) by (simp_all add: nm_ok_def nm_ready_def)
  have "(\<Sum>q\<in>live_queues (nmHandler ?u). int (length (q_queue (h_queues (nmHandler ?u) q)))) = 0"
    using i(3) unfolding nm_unblocked(2) [OF nm(1) r(1)] by (simp add: sum_nonneg order_antisym)
  then have "q_queue (h_queues (nmHandler ?u) q) = []" if "q < 4" for q
    using that nm_live [OF nm(1) r(1), of q] by (simp add: sum_nonneg_eq_0_iff)
  then have "nm_waiting ?u name = []"
    using nm_queues_lt [of name] nm_handlerD(1) [OF nm(1)] by (auto simp: nm_waiting_def split: option.split)
  then show ?thesis using nm_account [OF nm(1) assms(5)] i(4) nm(2) by simp
qed

section \<open>Runs\<close>

text \<open>
  A bootstrap request waits on \<open>receive\<close> and a report on \<open>callback\<close> when the network manager is shut down and its
  handler is stopped.
\<close>

definition demo_device :: device_info where
  "demo_device = \<lparr>di_platform = ''linux'', di_architecture = ''x86_64'', di_nodeType = ''client''\<rparr>"

definition state_of :: "nm_wrapper \<Rightarrow> 'a nm_result \<Rightarrow> nm_wrapper" where
  "state_of w r = (case r of Returned _ t \<Rightarrow> t | _ \<Rightarrow> w)"

definition demo_nm :: nm_wrapper where
  "demo_nm = projr (new_nm_wrapper 100 100 demo_sdk)"

definition demo_nm_receive :: nm_wrapper where
  "demo_nm_receive = state_of demo_nm (nm_prepareToBootstrap 1 ''l'' ''path'' demo_device False 0 demo_nm)"

definition demo_nm_report :: nm_wrapper where
  "demo_nm_report = state_of demo_nm (nm_onPackageStatusChanged 7 PACKAGE_SENT False 0 demo_nm_receive)"

definition demo_nm_down :: nm_wrapper where
  "demo_nm_down = state_of demo_nm (nm_shutdown 0 demo_nm_report)"

definition demo_nm_up :: nm_wrapper where
  "demo_nm_up = projr (nm_startHandler demo_nm_down)"

definition demo_nm_stopping :: nm_wrapper where
  "demo_nm_stopping = nm_stopHandler_begin demo_nm_up"

lemmas demo_nm_defs = demo_nm_def demo_nm_receive_def demo_nm_report_def demo_nm_down_def demo_nm_up_def
  demo_nm_stopping_def

lemmas demo_nm_ops = demo_ops new_nm_wrapper_def nm_construct_def nm_createQueue_def create_queue_def state_of_def
  nm_prepareToBootstrap_def nm_onPackageStatusChanged_def nm_shutdown_def nm_request_def answered_def nm_post_def
  nm_posted_def posted_as_def utilization_of_def nm_startHandler_def nm_stopHandler_begin_def stop_begin_def

lemma demo_nm_steps:
  "new_nm_wrapper 100 100 demo_sdk = Inr demo_nm"
  "\<exists>r. nm_prepareToBootstrap 1 ''l'' ''path'' demo_device False 0 demo_nm = Returned r demo_nm_receive"
  "\<exists>r. nm_onPackageStatusChanged 7 PACKAGE_SENT False 0 demo_nm_receive = Returned r demo_nm_report"
  "\<exists>r. nm_shutdown 0 demo_nm_report = Returned r demo_nm_down"
  "nm_startHandler demo_nm_down = Inr demo_nm_up"
  by (simp_all add: demo_nm_defs demo_nm_ops) blast+

lemma demo_nm_small:
  "handler_small (nmHandler demo_nm)" "handler_small (nmHandler demo_nm_receive)"
  "handler_small (nmHandler demo_nm_report)" "handler_small (nmHandler demo_nm_down)"
  "handler_small (nmHandler demo_nm_up)" "handler_small (nmHandler demo_nm_stopping)"
  "\<not> nm_crashed demo_nm" "\<not> nm_crashed demo_nm_receive" "\<not> nm_crashed demo_nm_report" "\<not> nm_crashed demo_nm_down"
  "\<not> nm_crashed demo_nm_up" "\<not> nm_crashed demo_nm_stopping"
  by (simp_all add: handler_small_def demo_nm_defs demo_nm_ops)

lemma demo_nm_facts:
  "nm_ready demo_nm_stopping" "total_work (nmHandler demo_nm_stopping) = 3" "h_state (nmHandler demo_nm_stopping) = STOPPING"
  "nm_accepted demo_nm_stopping =
     [NJPrepareToBootstrap 1 ''l'' ''path'' demo_device, NJPackageStatus 7 PACKAGE_SENT, NJShutdown]"
  by (simp_all add: nm_ready_def worker_idle_def nm_accepted_def demo_nm_defs demo_nm_ops)

lemma demo_nm_reached: "nm_step\<^sup>*\<^sup>* demo_nm demo_nm_stopping"
proof -
  have "nm_step demo_nm demo_nm_receive" "nm_step demo_nm_receive demo_nm_report" "nm_step demo_nm_report demo_nm_down"
    "nm_step demo_nm_down demo_nm_up"
    using demo_nm_steps by (auto simp: nm_step_def demo_nm_small intro: no_prepare no_package no_shutdown no_start)
  moreover have "nm_step demo_nm_up demo_nm_stopping"
    using no_stop [of demo_nm_up] by (simp add: nm_step_def demo_nm_small flip: demo_nm_stopping_def)
  ultimately show ?thesis by (meson rtranclp.rtrancl_into_rtrancl rtranclp.rtrancl_refl)
qed

theorem nm_delivers_witness:
  "nm_waiting demo_nm_stopping ''callback'' = [NJPackageStatus 7 PACKAGE_SENT]"
proof -
  have "nm_calls demo_nm_stopping = []" by (simp add: demo_nm_defs demo_nm_ops)
  with nm_delivers [OF demo_nm_steps(1) demo_nm_reached, of "''callback''"] show ?thesis
    by (simp add: demo_nm_facts demo_nm_small)
qed

text \<open>The report is made although the plugin has been shut down before it and the handler is stopping.\<close>

theorem nm_drains_witness:
  "h_state (nmHandler demo_nm_stopping) = STOPPING \<and>
   filter (\<lambda>j. nm_queue j = ''callback'') (nm_calls (nm_iterations (\<lambda>_. PLUGIN_OK) 3 demo_nm_stopping)) =
     [NJPackageStatus 7 PACKAGE_SENT]"
  using nm_drains [OF demo_nm_steps(1) demo_nm_reached demo_nm_facts(1), of "\<lambda>_. PLUGIN_OK" "''callback''"]
  by (simp add: demo_nm_facts)

text \<open>After the shutdown and the report the request is next.\<close>

definition demo_nm_late :: nm_wrapper where
  "demo_nm_late = nm_iteration PLUGIN_OK (nm_iteration PLUGIN_OK demo_nm_stopping)"

lemmas demo_nm_worker = demo_nm_late_def nm_iteration_def nm_thread_end_def run_nm_job_def work_thread_end_def
  pop_queue_internal_def uncount_work_def next_cycle_def demo_nm_defs demo_nm_ops demo_worker while_option_unfold

lemma demo_nm_shutdown_first:
  "nm_calls (nm_iteration PLUGIN_OK demo_nm_stopping) = [NJShutdown] \<and>
   nm_calls demo_nm_late = [NJShutdown, NJPackageStatus 7 PACKAGE_SENT]"
  by (simp add: demo_nm_worker)

lemma demo_nm_late_facts:
  "nm_ready demo_nm_late" "nm_jobs demo_nm_late 0 = Some (NJPrepareToBootstrap 1 ''l'' ''path'' demo_device)"
  "\<exists>h. work_thread_begin (nmHandler demo_nm_late) = Run h \<and> h_running h = Some (- 2, 0)"
  by (simp_all add: nm_ready_def worker_idle_def demo_nm_worker)

lemma demo_nm_late_reached: "nm_step\<^sup>*\<^sup>* demo_nm demo_nm_late"
proof -
  have *: "nm_ok t \<and> handler_ok (nmHandler t) \<and> handler_small (nmHandler t)" if "nm_step\<^sup>*\<^sup>* demo_nm t" for t
    using nm_reachable [OF demo_nm_steps(1) that] by blast
  let ?t = "nm_iteration PLUGIN_OK demo_nm_stopping"
  have i: "nm_step\<^sup>*\<^sup>* demo_nm_stopping ?t" "nm_ready ?t" "total_work (nmHandler ?t) = 2"
    using nm_iteration_ok [of demo_nm_stopping PLUGIN_OK] * [OF demo_nm_reached] demo_nm_facts(1,2) by simp_all
  have t: "nm_step\<^sup>*\<^sup>* demo_nm ?t" using demo_nm_reached i(1) by (rule rtranclp_trans)
  with nm_iteration_ok [of ?t PLUGIN_OK] * [OF t] i(2,3) show ?thesis
    unfolding demo_nm_late_def by (auto intro: rtranclp_trans)
qed

theorem nm_reports_first_witness:
  "filter (\<lambda>j. nm_queue j = ''callback'') (nm_calls demo_nm_late) = [NJPackageStatus 7 PACKAGE_SENT] \<and>
   hd (nm_waiting demo_nm_late ''receive'') = NJPrepareToBootstrap 1 ''l'' ''path'' demo_device"
proof -
  obtain h where h: "work_thread_begin (nmHandler demo_nm_late) = Run h" "h_running h = Some (- 2, 0)"
    using demo_nm_late_facts(3) by blast
  have "worker_idle (nmHandler demo_nm_late)" "\<not> nm_crashed demo_nm_late"
    using demo_nm_late_facts(1) by (simp_all add: nm_ready_def)
  with nm_reports_first [OF demo_nm_steps(1) demo_nm_late_reached _ _ h demo_nm_late_facts(2)] show ?thesis
    using demo_nm_shutdown_first by simp
qed

end
