(* ===== verification/Spec2Isabelle.thy ===== *)
theory Spec2Isabelle
  imports Handler_Runs CM_Scenarios Race_Sdk_Runs Comms_Wrapper_Runs Nm_Wrapper_Runs
begin

text \<open>
  A model of the core of the RACE SDK (racesdk/core and racesdk/common of this repository) and the
  properties that make it correct.

  RACE runs network manager and comms plugins side by side in one process. The SDK (\<open>RaceSdk\<close>)
  stands between them: it keeps the tables of links, connections and channels, hands out handles
  and ids, forwards the requests of the network manager to the comms plugin that owns a link or
  channel, and the reports of the comms plugins back. Every call between the SDK and a plugin goes
  through a work queue (\<open>Handler\<close>), and a comms channel may be decomposed into a transport, a user
  model and encodings that a component manager coordinates.

  \<^bold>\<open>Parts of the program and their theories\<close>

    \<^item> \<open>Race_Prelude\<close>, \<open>Race_Bytes\<close>, \<open>Race_Strings\<close>: exceptions as values (\<open>exn\<close>; \<open>Undefined\<close> is
      undefined behaviour of C++), time stamps with infinity, machine words, byte buffers, searches
      in strings, and the locale \<open>invariant_system\<close> for step relations.
    \<^item> \<open>Race_Types\<close> (common/include, common/source): the enumerations of the SDK with their names, the
      properties of links and channels, responses.
    \<^item> \<open>Handler\<close> (core/source/Handler.h, Handler.cpp): the work queues. One definition per critical
      section; \<open>Handler_Inv\<close> has the invariant and its preservation, \<open>Handler_Props\<close> the properties,
      \<open>Handler_Runs\<close> concrete runs and the defects.
    \<^item> \<open>Enc_Pkg\<close> (common/source/EncPkg.cpp): encrypted packages and their raw form.
    \<^item> \<open>Race_Links\<close> (core/source/RaceLinks.cpp): the table of links and connections and of the packages
      in flight; \<open>Race_Links_Inv\<close>: its invariant \<open>links_ok\<close>, kept by every step \<open>links_step\<close>, and the
      refinement of an abstract \<open>link_table\<close>.
    \<^item> \<open>Race_Channels\<close> (core/source/RaceChannels.cpp): the channels, their status and roles;
      \<open>Race_Channels_Inv\<close>: the invariant \<open>channels_ok\<close> (no mechanical tag is claimed twice) and activation.
    \<^item> \<open>Race_Sdk\<close>, \<open>Race_Sdk_Packages\<close> (core/source/RaceSdk.cpp): the state \<open>race_sdk\<close>, the requests
      and reports as state transformers; \<open>Race_Sdk_Props\<close>, \<open>Race_Sdk_Runs\<close>: what happens to
      everything on a link or a channel that goes, handles, received packages, defects, and runs.
    \<^item> \<open>Wrapper_Post\<close>: how the wrappers of the plugins post to their work queue; \<open>Handler_Client\<close>: the
      contract between a wrapper and its handler (locale \<open>handler_client\<close>): what is proved of \<open>Handler\<close>
      holds of the calls into the plugin.
    \<^item> \<open>Comms_Wrapper\<close> (core/source/CommsWrapper.cpp): the wrapper of a comms plugin, which contains a
      \<open>handler\<close> and calls \<open>race_sdk\<close>: each request is a posted job, \<open>run_job\<close> is the callback of a job,
      the reports of the plugin are state transformers. \<open>Comms_Wrapper_Props\<close>: the steps of the wrapper are
      steps of its handler, and what its shutdown does; \<open>Comms_Wrapper_Runs\<close>: runs.
    \<^item> \<open>Nm_Wrapper\<close> (core/source/NMWrapper.cpp): the wrapper of the network manager, in the same form.
      \<open>Nm_Wrapper_Props\<close>: every accepted call is made once and in order, reports before packages;
      \<open>Nm_Wrapper_Runs\<close>: the worker empties the queues, and runs.
    \<^item> \<open>CM_Types\<close>, \<open>CM_Package\<close>, \<open>CM_Receive\<close>, \<open>CM_Action\<close>, \<open>CM_Links\<close>, \<open>CM_Manager\<close>
      (core/source/decomposed-comms): the component manager of a decomposed channel, one theory
      per manager class. The state is one record \<open>cm\<close>; objects linked by raw pointers live in heaps
      indexed by references.
    \<^item> \<open>CM_Package_Inv\<close>, \<open>CM_Inv\<close>: the invariants \<open>pm_ok\<close> (packages, fragments, actions), \<open>life_ok\<close>
      (components and states), \<open>conn_ok\<close> (links and connections), kept by every step \<open>cm_step\<close>.
    \<^item> \<open>CM_Stream\<close>, \<open>CM_Transfer\<close>: an abstract protocol of numbered contents that carry pieces of
      packages, the locale \<open>reassembly\<close> of a receiver for it, its interpretation on the code's
      receiver, and the end to end properties.
    \<^item> \<open>CM_Props\<close>, \<open>CM_Timeline\<close>: capacity of actions, guards, activation and shutdown of the
      channel, the update of the timeline; \<open>CM_Runs\<close>, \<open>CM_Scenarios\<close>: concrete runs, the witnesses of
      the properties, and the defects.

  \<^bold>\<open>How the code is modelled\<close>

  Threads are interleavings of critical sections. What a component, a wrapper or the clock answers
  is an argument of the operation that asks (\<open>env\<close>, \<open>sdk_env\<close>, the result of a callback, the time).
  Calls out of a part are logged in the order they are made (\<open>calls\<close>, \<open>sdk_calls\<close>). Every exception
  of the code is a value of \<open>exn\<close>; a loop without a bound of its own is \<open>while_option\<close> and its
  termination is proved. Machine integers keep their width (counters of \<open>Handler\<close> and handles are
  \<open>u64\<close>, the fragment count is \<open>u32\<close>); sizes of buffers in memory are natural numbers. Unordered
  containers that the code iterates over are lists without duplicates, in any order; properties that
  name an order hold for each.

  \<^bold>\<open>Not modelled\<close>

  The requests of the network manager are those of \<open>Race_Sdk\<close>; the forwards in its wrapper are left out.
  Start-up and loading of plugins, configuration files (JSON), the bootstrap manager, the RPC and AMP
  entry points of \<open>RaceSdk\<close>, storage encryption (OpenSSL), language bindings, the exemplar plugins and
  the services around the SDK.
\<close>

end
